(* ===== verification/Prelude.thy ===== *)
theory Prelude
  imports Main "HOL-Library.Word" "HOL-Library.AList" "HOL-Library.Sublist"
begin

text \<open>
  What every component of the development shares: the machine integers of the Rust code, its
  \<^verbatim>\<open>Result\<close> and the \<^verbatim>\<open>?\<close> operator, and \<^verbatim>\<open>HashMap\<close> as an association list with the laws of its
  interface.

  A Rust \<^verbatim>\<open>String\<close> is a sequence of UTF-8 bytes; it is modelled as a \<^typ>\<open>string\<close>, whose
  characters are bytes, so \<^const>\<open>length\<close> is \<^verbatim>\<open>str::len\<close>. All patterns the code searches for
  are ASCII, for which searching bytes and searching Unicode scalars agree.
\<close>

section \<open>Types\<close>

type_synonym u8 = "8 word"
type_synonym u32 = "32 word"
type_synonym u64 = "64 word"

type_synonym ('e, 'a) result = "'e + 'a"

type_synonym ('k, 'v) hashmap = "('k \<times> 'v) list"

named_theorems result_simps \<open>evaluation and inversion of the error monad\<close>
named_theorems str_simps \<open>evaluation of the string operations\<close>

section \<open>Result and the question-mark operator\<close>

definition and_then :: "('e, 'a) result \<Rightarrow> ('a \<Rightarrow> ('e, 'b) result) \<Rightarrow> ('e, 'b) result" where
  "and_then r f = (case r of Inl e \<Rightarrow> Inl e | Inr a \<Rightarrow> f a)"

definition ok_or :: "'e \<Rightarrow> 'a option \<Rightarrow> ('e, 'a) result" where
  "ok_or e x = (case x of None \<Rightarrow> Inl e | Some a \<Rightarrow> Inr a)"

definition result_ok :: "('e, 'a) result \<Rightarrow> 'a option" where
  "result_ok r = (case r of Inl _ \<Rightarrow> None | Inr a \<Rightarrow> Some a)"

lemma and_then_simps [simp]:
  "and_then (Inl e) f = Inl e"
  "and_then (Inr a) f = f a"
  by (simp_all add: and_then_def)

lemma and_then_eq_Inr [result_simps]:
  "and_then r f = Inr b \<longleftrightarrow> (\<exists>a. r = Inr a \<and> f a = Inr b)"
  by (cases r) auto

lemma and_then_eq_Inl [result_simps]:
  "and_then r f = Inl e \<longleftrightarrow> r = Inl e \<or> (\<exists>a. r = Inr a \<and> f a = Inl e)"
  by (cases r) auto

lemma unit_case [simp]: "(case u of () \<Rightarrow> x) = x"
  by (simp split: unit.split)

lemma ok_or_simps [simp]:
  "ok_or e None = Inl e"
  "ok_or e (Some a) = Inr a"
  by (simp_all add: ok_or_def)

lemma ok_or_eq [result_simps]:
  "ok_or e x = Inr a \<longleftrightarrow> x = Some a"
  "ok_or e x = Inl e' \<longleftrightarrow> x = None \<and> e' = e"
  by (cases x; auto)+

lemma result_ok_simps [simp]:
  "result_ok (Inl e) = None"
  "result_ok (Inr a) = Some a"
  by (simp_all add: result_ok_def)

section \<open>Mapping and filtering at once\<close>

lemma map_filter_append: "List.map_filter f (xs @ ys) = List.map_filter f xs @ List.map_filter f ys"
  by (simp add: List.map_filter_def)

lemma map_filter_same: "\<forall>x\<in>set xs. f x = g x \<Longrightarrow> List.map_filter f xs = List.map_filter g xs"
  by (induction xs) (auto simp: map_filter_simps split: option.split)

lemma map_filter_map: "List.map_filter f (map g xs) = List.map_filter (f \<circ> g) xs"
  by (induction xs) (auto simp: map_filter_simps split: option.splits)

lemma in_map_filter: "y \<in> set (List.map_filter f xs) \<longleftrightarrow> (\<exists>x\<in>set xs. f x = Some y)"
  by (induction xs) (auto simp: map_filter_simps split: option.split)

section \<open>Transition systems\<close>

text \<open>
  The interface of the concurrent parts: a step relation that keeps an invariant, and one whose steps
  also make a measure smaller, so that there is a bound on the length of its executions.
\<close>

locale step_system =
  fixes step :: "'s \<Rightarrow> 's \<Rightarrow> bool" and inv :: "'s \<Rightarrow> bool"
  assumes keeps: "inv s \<Longrightarrow> step s s' \<Longrightarrow> inv s'"
begin

lemma reachable: "step\<^sup>*\<^sup>* s s' \<Longrightarrow> inv s \<Longrightarrow> inv s'"
  by (induction rule: rtranclp_induct) (auto intro: keeps)

lemma reachable_in: "(step ^^ n) s s' \<Longrightarrow> inv s \<Longrightarrow> inv s'"
  by (rule reachable) (auto simp: rtranclp_power)

end

locale descending_system = step_system +
  fixes left :: "'s \<Rightarrow> nat"
  assumes descends: "inv s \<Longrightarrow> step s s' \<Longrightarrow> left s' < left s"
begin

lemma bounded: "(step ^^ n) s s' \<Longrightarrow> inv s \<Longrightarrow> n + left s' \<le> left s"
proof (induction n arbitrary: s')
  case (Suc n)
  then obtain t where t: "(step ^^ n) s t" "step t s'" by (auto elim: relpowp_Suc_E)
  with Suc.IH [OF t(1) Suc.prems(2)] descends [OF reachable_in [OF t(1) Suc.prems(2)] t(2)] show ?case by simp
qed simp

text \<open>From every state that satisfies the invariant an execution leads to a state without successor.\<close>

lemma runs_to_end: "inv s \<Longrightarrow> \<exists>s'. step\<^sup>*\<^sup>* s s' \<and> (\<nexists>s''. step s' s'')"
proof (induction "left s" arbitrary: s rule: less_induct)
  case less
  show ?case
  proof (cases "\<exists>t. step s t")
    case True
    then obtain t where t: "step s t" by blast
    with less obtain s' where "step\<^sup>*\<^sup>* t s'" "\<nexists>s''. step s' s''" using descends keeps by blast
    with t show ?thesis by (meson converse_rtranclp_into_rtranclp)
  qed blast
qed

end

section \<open>HashMap\<close>

text \<open>
  The interface the components rely on: the laws of lookup after insertion and removal, and the
  length as the number of keys. Iteration order is the order of the list in the model and
  unspecified in Rust; no property of the development depends on it.
\<close>

locale hash_map =
  fixes empty :: "'m"
    and ins :: "'k \<Rightarrow> 'v \<Rightarrow> 'm \<Rightarrow> 'm"
    and get :: "'m \<Rightarrow> 'k \<Rightarrow> 'v option"
    and del :: "'k \<Rightarrow> 'm \<Rightarrow> 'm"
    and len :: "'m \<Rightarrow> nat"
    and wf_map :: "'m \<Rightarrow> bool"
  assumes get_empty: "get empty k = None"
    and get_ins: "wf_map m \<Longrightarrow> get (ins k v m) k' = (if k' = k then Some v else get m k')"
    and get_del: "wf_map m \<Longrightarrow> get (del k m) k' = (if k' = k then None else get m k')"
    and len_card: "wf_map m \<Longrightarrow> len m = card (dom (get m))"
    and finite_keys: "finite (dom (get m))"
    and wf_empty: "wf_map empty"
    and wf_ins: "wf_map m \<Longrightarrow> wf_map (ins k v m)"
    and wf_del: "wf_map m \<Longrightarrow> wf_map (del k m)"
begin

lemma keys_ins: "wf_map m \<Longrightarrow> dom (get (ins k v m)) = insert k (dom (get m))"
  by (auto simp: get_ins dom_def)

lemma keys_del: "wf_map m \<Longrightarrow> dom (get (del k m)) = dom (get m) - {k}"
  by (auto simp: get_del dom_def)

lemma len_empty: "len empty = 0"
  by (simp add: len_card wf_empty get_empty dom_def)

lemma len_ins:
  assumes "wf_map m"
  shows "len (ins k v m) = (if get m k = None then Suc (len m) else len m)"
  using assms finite_keys [of m]
  by (auto simp: len_card wf_ins keys_ins card_insert_if)

lemma len_ins_le: "wf_map m \<Longrightarrow> len (ins k v m) \<le> Suc (len m)"
  by (simp add: len_ins)

lemma len_del:
  assumes "wf_map m"
  shows "len (del k m) = (if get m k = None then len m else len m - 1)"
  using assms finite_keys [of m]
  by (auto simp: len_card wf_del keys_del card_Diff_singleton_if)

lemma len_del_le: "wf_map m \<Longrightarrow> len (del k m) \<le> len m"
  by (simp add: len_del)

lemma wf_fold_ins: "wf_map m \<Longrightarrow> wf_map (fold (\<lambda>(k, v). ins k v) kvs m)"
  by (induction kvs arbitrary: m) (auto simp: wf_ins)

lemma get_fold_ins:
  "wf_map m \<Longrightarrow> get (fold (\<lambda>(k, v). ins k v) kvs m) k =
     (case map_of (rev kvs) k of None \<Rightarrow> get m k | Some v \<Rightarrow> Some v)"
  by (induction kvs arbitrary: m)
     (auto simp: wf_ins get_ins map_add_def split: option.splits)

end

abbreviation hm_insert :: "'k \<Rightarrow> 'v \<Rightarrow> ('k, 'v) hashmap \<Rightarrow> ('k, 'v) hashmap" where
  "hm_insert \<equiv> AList.update"

abbreviation hm_get :: "('k, 'v) hashmap \<Rightarrow> 'k \<Rightarrow> 'v option" where
  "hm_get \<equiv> map_of"

abbreviation hm_remove :: "'k \<Rightarrow> ('k, 'v) hashmap \<Rightarrow> ('k, 'v) hashmap" where
  "hm_remove \<equiv> AList.delete"

definition hm_ok :: "('k, 'v) hashmap \<Rightarrow> bool" where
  "hm_ok m \<longleftrightarrow> distinct (map fst m)"

lemma hm_ok_Nil [simp]: "hm_ok []"
  by (simp add: hm_ok_def)

lemma hm_get_insert: "hm_get (hm_insert k v m) k' = (if k' = k then Some v else hm_get m k')"
  by (simp add: update_conv')

interpretation hm: hash_map "[]" hm_insert hm_get hm_remove length hm_ok
proof unfold_locales
  fix m :: "('k \<times> 'v) list" and k k' :: 'k and v :: 'v
  show "map_of (AList.update k v m) k' = (if k' = k then Some v else map_of m k')"
    by (simp add: update_conv')
  show "map_of (AList.delete k m) k' = (if k' = k then None else map_of m k')"
    by (simp add: delete_conv')
  show "finite (dom (map_of m))"
    by (rule finite_dom_map_of)
  show "hm_ok m \<Longrightarrow> length m = card (dom (map_of m))"
    by (metis distinct_card dom_map_of_conv_image_fst hm_ok_def length_map list.set_map)
  show "hm_ok m \<Longrightarrow> hm_ok (AList.update k v m)"
    by (simp add: hm_ok_def distinct_update)
  show "hm_ok m \<Longrightarrow> hm_ok (AList.delete k m)"
    by (simp add: hm_ok_def distinct_delete)
qed (simp_all add: hm_ok_def)

end
