(* ===== verification/Rust_Str.thy ===== *)
theory Rust_Str
  imports Prelude
begin

text \<open>
  The \<^verbatim>\<open>str\<close> methods of the Rust standard library that the program calls, as functions on byte
  strings, with the facts about them that the components use: splitting and joining are inverse,
  trimming keeps a prefix, decimal printing is injective, and slicing a string panics exactly when
  the index is not a character boundary.
\<close>

section \<open>Searching and splitting\<close>

definition starts_with :: "string \<Rightarrow> string \<Rightarrow> bool" where
  "starts_with s p = prefix p s"

definition ends_with :: "string \<Rightarrow> string \<Rightarrow> bool" where
  "ends_with s p = suffix p s"

fun split_once :: "string \<Rightarrow> string \<Rightarrow> (string \<times> string) option" where
  "split_once p [] = (if p = [] then Some ([], []) else None)"
| "split_once p (c # cs) =
     (if prefix p (c # cs) then Some ([], drop (length p) (c # cs))
      else map_option (\<lambda>(a, b). (c # a, b)) (split_once p cs))"

definition contains_str :: "string \<Rightarrow> string \<Rightarrow> bool" where
  "contains_str s p = (split_once p s \<noteq> None)"

text \<open>The first item of \<^verbatim>\<open>s.split(p)\<close>, which always exists.\<close>

definition split_first :: "string \<Rightarrow> string \<Rightarrow> string" where
  "split_first p s = (case split_once p s of None \<Rightarrow> s | Some (a, _) \<Rightarrow> a)"

lemma split_once_SomeD:
  "split_once p s = Some (a, b) \<Longrightarrow> s = a @ p @ b"
  by (induction s arbitrary: a) (auto split: if_splits simp: prefix_def)

lemma split_once_NoneD: "split_once p s = None \<Longrightarrow> \<not> sublist p s"
  by (induction s) (auto split: if_splits simp: sublist_Cons_right)

lemma contains_str_iff: "contains_str s p \<longleftrightarrow> sublist p s"
proof (cases "split_once p s")
  case None
  then show ?thesis by (auto simp: contains_str_def dest: split_once_NoneD)
next
  case (Some ab)
  then show ?thesis
    by (cases ab) (auto simp: contains_str_def dest!: split_once_SomeD)
qed

lemma split_once_shorter:
  "split_once p s = Some (a, b) \<Longrightarrow> p \<noteq> [] \<Longrightarrow> length b < length s"
  by (auto dest: split_once_SomeD)

text \<open>\<^verbatim>\<open>s.split(p)\<close> for a non-empty pattern; the code uses no empty pattern.\<close>

function split_str :: "string \<Rightarrow> string \<Rightarrow> string list" where
  "split_str p s =
     (if p = [] then [s]
      else case split_once p s of None \<Rightarrow> [s] | Some (a, b) \<Rightarrow> a # split_str p b)"
  by pat_completeness auto
termination
  by (relation "measure (\<lambda>(p, s). length s)") (auto dest: split_once_shorter)

declare split_str.simps [simp del]

fun str_join :: "string \<Rightarrow> string list \<Rightarrow> string" where
  "str_join sep [] = []"
| "str_join sep [x] = x"
| "str_join sep (x # y # ys) = x @ sep @ str_join sep (y # ys)"

definition replace_str :: "string \<Rightarrow> string \<Rightarrow> string \<Rightarrow> string" where
  "replace_str s p r = str_join r (split_str p s)"

lemma split_str_not_Nil [simp]: "split_str p s \<noteq> []"
  by (subst split_str.simps) (simp split: option.split prod.split)

lemma str_join_Cons: "xs \<noteq> [] \<Longrightarrow> str_join sep (x # xs) = x @ sep @ str_join sep xs"
  by (cases xs) auto

text \<open>Joining what \<^verbatim>\<open>split\<close> returned with the same separator gives the string back.\<close>

lemma str_join_split: "str_join p (split_str p s) = s"
proof (induction p s rule: split_str.induct)
  case (1 p s)
  show ?case
  proof (cases "p = [] \<or> split_once p s = None")
    case True
    then show ?thesis by (subst split_str.simps) auto
  next
    case False
    then obtain a b where ab: "split_once p s = Some (a, b)" and p: "p \<noteq> []" by auto
    have "str_join p (split_str p b) = b" using "1"[OF p] ab by simp
    with ab p have "str_join p (split_str p s) = a @ p @ b"
      by (simp add: split_str.simps [of p s] str_join_Cons)
    with split_once_SomeD [OF ab] show ?thesis by simp
  qed
qed

text \<open>A single byte pattern: the pieces never contain it.\<close>

lemma split_once_single:
  "split_once [c] s = Some (a, b) \<Longrightarrow> c \<notin> set a"
  by (induction s arbitrary: a) (auto split: if_splits)

lemma split_once_single_None: "split_once [c] s = None \<longleftrightarrow> c \<notin> set s"
  by (induction s) (auto split: if_splits)

lemma split_str_pieces: "x \<in> set (split_str [c] s) \<Longrightarrow> c \<notin> set x"
proof (induction "[c]" s rule: split_str.induct)
  case (1 s)
  show ?case
  proof (cases "split_once [c] s")
    case None
    with "1.prems" show ?thesis
      by (simp add: split_str.simps [of "[c]" s] split_once_single_None)
  next
    case (Some ab)
    then obtain a b where ab: "split_once [c] s = Some (a, b)" by (cases ab) auto
    with "1.prems" have "x = a \<or> x \<in> set (split_str [c] b)"
      by (simp add: split_str.simps [of "[c]" s])
    then show ?thesis using "1.hyps" ab split_once_single [OF ab] by auto
  qed
qed

section \<open>Trimming\<close>

text \<open>The UTF-8 encodings of the characters with the Unicode property White_Space. An encoding
  starts with a lead byte, so it can only match a string of UTF-8 at a character boundary.\<close>

definition ws_chars :: "string list" where
  "ws_chars =
     [[CHR 0x20], [CHR 0x0A], [CHR 0x09], [CHR 0x0D], [CHR 0x0B], [CHR 0x0C],
      [CHR 0xC2, CHR 0x85], [CHR 0xC2, CHR 0xA0], [CHR 0xE1, CHR 0x9A, CHR 0x80],
      [CHR 0xE2, CHR 0x80, CHR 0x80], [CHR 0xE2, CHR 0x80, CHR 0x81], [CHR 0xE2, CHR 0x80, CHR 0x82],
      [CHR 0xE2, CHR 0x80, CHR 0x83], [CHR 0xE2, CHR 0x80, CHR 0x84], [CHR 0xE2, CHR 0x80, CHR 0x85],
      [CHR 0xE2, CHR 0x80, CHR 0x86], [CHR 0xE2, CHR 0x80, CHR 0x87], [CHR 0xE2, CHR 0x80, CHR 0x88],
      [CHR 0xE2, CHR 0x80, CHR 0x89], [CHR 0xE2, CHR 0x80, CHR 0x8A], [CHR 0xE2, CHR 0x80, CHR 0xA8],
      [CHR 0xE2, CHR 0x80, CHR 0xA9], [CHR 0xE2, CHR 0x80, CHR 0xAF], [CHR 0xE2, CHR 0x81, CHR 0x9F],
      [CHR 0xE3, CHR 0x80, CHR 0x80]]"

definition ws_prefix :: "string \<Rightarrow> string option" where
  "ws_prefix s = find (\<lambda>w. prefix w s) ws_chars"

definition ws_suffix :: "string \<Rightarrow> string option" where
  "ws_suffix s = find (\<lambda>w. suffix w s) ws_chars"

lemma ws_chars_not_Nil: "w \<in> set ws_chars \<Longrightarrow> w \<noteq> []"
  by (auto simp: ws_chars_def)

lemma ws_prefix_SomeD: "ws_prefix s = Some w \<Longrightarrow> w \<in> set ws_chars \<and> prefix w s"
  unfolding ws_prefix_def by (metis find_Some_iff nth_mem)

lemma ws_suffix_SomeD: "ws_suffix s = Some w \<Longrightarrow> w \<in> set ws_chars \<and> suffix w s"
  unfolding ws_suffix_def by (metis find_Some_iff nth_mem)

lemma ws_prefix_shorter:
  assumes "ws_prefix s = Some w" shows "length (drop (length w) s) < length s"
proof -
  from ws_prefix_SomeD [OF assms] ws_chars_not_Nil obtain r where "w \<noteq> []" "s = w @ r"
    by (auto elim: prefixE)
  then show ?thesis by simp
qed

lemma ws_suffix_shorter:
  assumes "ws_suffix s = Some w" shows "length (take (length s - length w) s) < length s"
proof -
  from ws_suffix_SomeD [OF assms] ws_chars_not_Nil obtain r where "w \<noteq> []" "s = r @ w"
    by (auto elim: suffixE)
  then show ?thesis by simp
qed

function trim_start :: "string \<Rightarrow> string" where
  "trim_start s = (case ws_prefix s of Some w \<Rightarrow> trim_start (drop (length w) s) | None \<Rightarrow> s)"
  by pat_completeness auto
termination
  by (relation "measure length") (use ws_prefix_shorter in auto)

function trim_end :: "string \<Rightarrow> string" where
  "trim_end s = (case ws_suffix s of Some w \<Rightarrow> trim_end (take (length s - length w) s) | None \<Rightarrow> s)"
  by pat_completeness auto
termination
  by (relation "measure length") (use ws_suffix_shorter in auto)

declare trim_start.simps [simp del] trim_end.simps [simp del]

definition trim_str :: "string \<Rightarrow> string" where
  "trim_str s = trim_end (trim_start s)"

definition trim_end_matches_char :: "char \<Rightarrow> string \<Rightarrow> string" where
  "trim_end_matches_char c s = rev (dropWhile (\<lambda>x. x = c) (rev s))"

text \<open>\<^verbatim>\<open>trim_end_matches(pat)\<close> removes the suffix as often as it occurs.\<close>

function trim_end_matches :: "string \<Rightarrow> string \<Rightarrow> string" where
  "trim_end_matches p s =
     (if p \<noteq> [] \<and> suffix p s then trim_end_matches p (take (length s - length p) s) else s)"
  by pat_completeness auto
termination
  by (relation "measure (\<lambda>(p, s). length s)") (auto simp: suffix_def)

declare trim_end_matches.simps [simp del]

text \<open>What is trimmed is whitespace, and none is left at the end.\<close>

lemma trim_end_prefix: "\<exists>ws. s = trim_end s @ concat ws \<and> set ws \<subseteq> set ws_chars"
proof (induction s rule: trim_end.induct)
  case (1 s)
  show ?case
  proof (cases "ws_suffix s")
    case None
    then have "s = trim_end s @ concat []" by (simp add: trim_end.simps [of s])
    then show ?thesis by (metis empty_set empty_subsetI)
  next
    case (Some w)
    then obtain ws where t: "take (length s - length w) s = trim_end s @ concat ws"
      and ws: "set ws \<subseteq> set ws_chars"
      using 1 [OF Some] by (auto simp: trim_end.simps [of s])
    have w: "w \<in> set ws_chars" "s = take (length s - length w) s @ w"
      using ws_suffix_SomeD [OF Some] by (auto elim!: suffixE)
    have "s = trim_end s @ concat (ws @ [w])"
      using w(2) by (simp add: t)
    moreover have "set (ws @ [w]) \<subseteq> set ws_chars" using w(1) ws by simp
    ultimately show ?thesis by blast
  qed
qed

lemma trim_end_no_ws: "ws_suffix (trim_end s) = None"
proof (induction s rule: trim_end.induct)
  case (1 s)
  then show ?case by (cases "ws_suffix s") (simp_all add: trim_end.simps [of s])
qed

lemma trim_end_id: "ws_suffix s = None \<Longrightarrow> trim_end s = s"
  by (simp add: trim_end.simps)

section \<open>Lines and whitespace-separated words\<close>

definition strip_cr :: "string \<Rightarrow> string" where
  "strip_cr s = (if suffix [CHR 0x0D] s then butlast s else s)"

text \<open>\<^verbatim>\<open>str::lines\<close>: pieces between newlines, a carriage return before the newline removed, no
  empty piece after a final newline.\<close>

fun lines_raw :: "string \<Rightarrow> string \<Rightarrow> string list" where
  "lines_raw acc [] = (if acc = [] then [] else [acc])"
| "lines_raw acc (c # cs) =
     (if c = CHR 0x0A then strip_cr acc # lines_raw [] cs else lines_raw (acc @ [c]) cs)"

definition str_lines :: "string \<Rightarrow> string list" where
  "str_lines s = lines_raw [] s"

function words_raw :: "string \<Rightarrow> string \<Rightarrow> string list" where
  "words_raw acc s =
     (case ws_prefix s of
        Some w \<Rightarrow> (if acc = [] then words_raw [] (drop (length w) s)
                   else acc # words_raw [] (drop (length w) s))
      | None \<Rightarrow> (case s of [] \<Rightarrow> (if acc = [] then [] else [acc])
                 | c # cs \<Rightarrow> words_raw (acc @ [c]) cs))"
  by pat_completeness auto
termination
  by (relation "measure (\<lambda>(acc, s). length s)") (use ws_prefix_shorter in auto)

declare words_raw.simps [simp del]

definition split_whitespace :: "string \<Rightarrow> string list" where
  "split_whitespace s = words_raw [] s"

text \<open>Words of printable ASCII characters, joined by single spaces, are the words found again.\<close>

definition graph :: "char \<Rightarrow> bool" where
  "graph c \<longleftrightarrow> 33 \<le> (of_char c :: nat) \<and> (of_char c :: nat) < 127"

lemma ws_chars_hd: "list_all (\<lambda>w. \<not> graph (hd w)) ws_chars"
  by (simp add: ws_chars_def graph_def)

lemma ws_prefix_graph: "graph c \<Longrightarrow> ws_prefix (c # s) = None"
proof (cases "ws_prefix (c # s)")
  case (Some w)
  then have w: "w \<in> set ws_chars" "prefix w (c # s)" by (auto dest: ws_prefix_SomeD)
  with ws_chars_not_Nil have "hd w = c" by (cases w) auto
  moreover assume "graph c"
  ultimately show ?thesis using ws_chars_hd w(1) by (auto simp: list_all_iff)
qed

lemma ws_prefix_space: "ws_prefix (CHR 0x20 # s) = Some [CHR 0x20]"
  by (simp add: ws_prefix_def ws_chars_def)

lemma ws_prefix_Nil: "ws_prefix [] = None"
  by (simp add: ws_prefix_def ws_chars_def)

lemma words_raw_graph: "list_all graph w \<Longrightarrow> words_raw acc (w @ s) = words_raw (acc @ w) s"
proof (induction w arbitrary: acc)
  case (Cons c w)
  then show ?case by (subst words_raw.simps) (simp add: ws_prefix_graph)
qed simp

lemma words_raw_space: "words_raw acc (CHR 0x20 # s) = (if acc = [] then [] else [acc]) @ words_raw [] s"
  by (subst words_raw.simps) (simp add: ws_prefix_space)

lemma split_whitespace_join:
  "list_all (\<lambda>w. w \<noteq> [] \<and> list_all graph w) ws \<Longrightarrow> split_whitespace (str_join [CHR 0x20] ws) = ws"
proof (induction ws rule: induct_list012)
  case 1
  show ?case by (simp add: split_whitespace_def words_raw.simps [of _ "[]"] ws_prefix_Nil)
next
  case (2 w)
  then show ?case
    using words_raw_graph [of w "[]" "[]"]
    by (simp add: split_whitespace_def words_raw.simps [of _ "[]"] ws_prefix_Nil)
next
  case (3 v w ws)
  then show ?case
    by (simp add: split_whitespace_def words_raw_graph words_raw_space)
qed

lemma lines_raw_line:
  "CHR 0x0A \<notin> set l \<Longrightarrow> lines_raw acc (l @ CHR 0x0A # s) = strip_cr (acc @ l) # lines_raw [] s"
  by (induction l arbitrary: acc) auto

lemma str_lines_concat:
  "list_all (\<lambda>l. CHR 0x0A \<notin> set l \<and> \<not> suffix [CHR 0x0D] l) ls \<Longrightarrow>
     str_lines (concat (map (\<lambda>l. l @ [CHR 0x0A]) ls)) = ls"
  by (induction ls) (simp_all add: str_lines_def lines_raw_line strip_cr_def)

section \<open>Decimal printing\<close>

definition digit_char :: "nat \<Rightarrow> char" where
  "digit_char d = char_of (48 + d)"

fun show_nat :: "nat \<Rightarrow> string" where
  "show_nat n = (if n < 10 then [digit_char n] else show_nat (n div 10) @ [digit_char (n mod 10)])"

declare show_nat.simps [simp del]

definition show_int :: "int \<Rightarrow> string" where
  "show_int i = (if i < 0 then CHR ''-'' # show_nat (nat (- i)) else show_nat (nat i))"

definition dec_value :: "string \<Rightarrow> nat" where
  "dec_value s = foldl (\<lambda>a c. 10 * a + (of_char c - 48)) 0 s"

lemma of_char_digit: "d < 10 \<Longrightarrow> (of_char (digit_char d) :: nat) = 48 + d"
  by (simp add: digit_char_def)

lemma dec_value_show_nat: "dec_value (show_nat n) = n"
proof (induction n rule: show_nat.induct)
  case (1 n)
  show ?case
  proof (cases "n < 10")
    case True
    then show ?thesis by (simp add: show_nat.simps [of n] dec_value_def of_char_digit)
  next
    case False
    with "1" have "dec_value (show_nat (n div 10)) = n div 10" by simp
    with False show ?thesis
      by (simp add: show_nat.simps [of n] dec_value_def of_char_digit)
  qed
qed

lemma show_nat_inject: "show_nat m = show_nat n \<longleftrightarrow> m = n"
  by (metis dec_value_show_nat)

lemma show_nat_digits: "c \<in> set (show_nat n) \<Longrightarrow> \<exists>d<10. c = digit_char d"
proof (induction n rule: show_nat.induct)
  case (1 n)
  show ?case
  proof (cases "n < 10")
    case True
    with "1.prems" show ?thesis by (auto simp: show_nat.simps [of n])
  next
    case False
    then have "n mod 10 < 10" by simp
    with False "1" show ?thesis by (fastforce simp: show_nat.simps [of n])
  qed
qed

section \<open>UTF-8: character boundaries and validity\<close>

definition is_cont_byte :: "char \<Rightarrow> bool" where
  "is_cont_byte c \<longleftrightarrow> 128 \<le> (of_char c :: nat) \<and> (of_char c :: nat) < 192"

definition is_char_boundary :: "string \<Rightarrow> nat \<Rightarrow> bool" where
  "is_char_boundary s i \<longleftrightarrow> i = length s \<or> (i < length s \<and> \<not> is_cont_byte (s ! i))"

text \<open>\<^verbatim>\<open>&s[..i]\<close>: panics (here \<^const>\<open>None\<close>) unless \<^term>\<open>i\<close> is a character boundary.\<close>

definition str_slice_to :: "string \<Rightarrow> nat \<Rightarrow> string option" where
  "str_slice_to s i = (if is_char_boundary s i then Some (take i s) else None)"

definition is_ascii :: "string \<Rightarrow> bool" where
  "is_ascii s = list_all (\<lambda>c. (of_char c :: nat) < 128) s"

lemma is_ascii_boundary: "is_ascii s \<Longrightarrow> i \<le> length s \<Longrightarrow> is_char_boundary s i"
  by (auto simp: is_ascii_def is_char_boundary_def is_cont_byte_def list_all_length
      dest: spec [where x = i])

text \<open>\<^verbatim>\<open>std::str::from_utf8\<close>: well-formed sequences of one to four bytes.\<close>

definition byte_in :: "char \<Rightarrow> nat \<Rightarrow> nat \<Rightarrow> bool" where
  "byte_in c lo hi \<longleftrightarrow> lo \<le> (of_char c :: nat) \<and> (of_char c :: nat) \<le> hi"

fun utf8_valid :: "string \<Rightarrow> bool" where
  "utf8_valid [] = True"
| "utf8_valid (a # r) =
    (if byte_in a 0 127 then utf8_valid r
     else case r of
       [] \<Rightarrow> False
     | b # r2 \<Rightarrow>
        if byte_in a 0xC2 0xDF then is_cont_byte b \<and> utf8_valid r2
        else case r2 of
          [] \<Rightarrow> False
        | c # r3 \<Rightarrow>
           if byte_in a 0xE0 0xEF
           then byte_in b (if a = CHR 0xE0 then 0xA0 else 0x80) (if a = CHR 0xED then 0x9F else 0xBF)
                \<and> is_cont_byte c \<and> utf8_valid r3
           else case r3 of
             [] \<Rightarrow> False
           | d # r4 \<Rightarrow>
              byte_in a 0xF0 0xF4
              \<and> byte_in b (if a = CHR 0xF0 then 0x90 else 0x80) (if a = CHR 0xF4 then 0x8F else 0xBF)
              \<and> is_cont_byte c \<and> is_cont_byte d \<and> utf8_valid r4)"

lemma is_ascii_utf8: "is_ascii s \<Longrightarrow> utf8_valid s"
  by (induction s) (auto simp: is_ascii_def byte_in_def)

text \<open>One well-formed sequence; a string is a sequence of them.\<close>

fun utf8_char :: "string \<Rightarrow> bool" where
  "utf8_char [a] = byte_in a 0 127"
| "utf8_char [a, b] = (byte_in a 0xC2 0xDF \<and> is_cont_byte b)"
| "utf8_char [a, b, c] =
     (byte_in a 0xE0 0xEF \<and> byte_in b (if a = CHR 0xE0 then 0xA0 else 0x80) (if a = CHR 0xED then 0x9F else 0xBF) \<and> is_cont_byte c)"
| "utf8_char [a, b, c, d] =
     (byte_in a 0xF0 0xF4 \<and> byte_in b (if a = CHR 0xF0 then 0x90 else 0x80) (if a = CHR 0xF4 then 0x8F else 0xBF) \<and>
      is_cont_byte c \<and> is_cont_byte d)"
| "utf8_char _ = False"

lemma utf8_char_append: "utf8_char c \<Longrightarrow> utf8_valid (c @ s) = utf8_valid s"
  by (cases c rule: utf8_char.cases) (auto simp: byte_in_def)

lemma utf8_char_bytes:
  "utf8_char c \<Longrightarrow> c \<noteq> [] \<and> \<not> is_cont_byte (hd c) \<and> list_all is_cont_byte (tl c)"
  by (cases c rule: utf8_char.cases) (auto simp: byte_in_def is_cont_byte_def split: if_splits)

lemma utf8_valid_split:
  assumes "utf8_valid s" and "s \<noteq> []"
  shows "\<exists>c t. utf8_char c \<and> s = c @ t \<and> utf8_valid t"
proof -
  obtain a r where s: "s = a # r" using assms(2) by (cases s) auto
  note v = assms(1) [unfolded s]
  show ?thesis
  proof (cases "byte_in a 0 127")
    case True
    with v show ?thesis unfolding s by (intro exI [of _ "[a]"] exI [of _ r]) simp
  next
    case 1: False
    with v obtain b r2 where r: "r = b # r2" by (cases r) auto
    show ?thesis
    proof (cases "byte_in a 0xC2 0xDF")
      case True
      with 1 v show ?thesis unfolding s r by (intro exI [of _ "[a, b]"] exI [of _ r2]) simp
    next
      case 2: False
      with 1 v r obtain c r3 where r2: "r2 = c # r3" by (cases r2) auto
      show ?thesis
      proof (cases "byte_in a 0xE0 0xEF")
        case True
        with 1 2 v show ?thesis unfolding s r r2 by (intro exI [of _ "[a, b, c]"] exI [of _ r3]) simp
      next
        case 3: False
        with 1 2 v r r2 obtain d r4 where r3: "r3 = d # r4" by (cases r3) auto
        with 1 2 3 v show ?thesis unfolding s r r2 by (intro exI [of _ "[a, b, c, d]"] exI [of _ r4]) simp
      qed
    qed
  qed
qed

lemma utf8_induct [consumes 1, case_names Nil char]:
  assumes "utf8_valid s" and "P []" and char: "\<And>c t. utf8_char c \<Longrightarrow> utf8_valid t \<Longrightarrow> P t \<Longrightarrow> P (c @ t)"
  shows "P s"
  using assms(1)
proof (induction "length s" arbitrary: s rule: less_induct)
  case less
  show ?case
  proof (cases "s = []")
    case False
    with less.prems obtain c t where c: "utf8_char c" "s = c @ t" "utf8_valid t" using utf8_valid_split by blast
    with utf8_char_bytes [OF c(1)] less.hyps [of t] char show ?thesis by simp
  qed (simp add: assms(2))
qed

lemma utf8_valid_append: "utf8_valid s \<Longrightarrow> utf8_valid (s @ t) = utf8_valid t"
  by (induction s rule: utf8_induct) (simp_all add: utf8_char_append)

text \<open>Cutting at a character boundary gives two strings.\<close>

lemma utf8_valid_cut:
  "utf8_valid s \<Longrightarrow> is_char_boundary s i \<Longrightarrow> utf8_valid (take i s) \<and> utf8_valid (drop i s)"
proof (induction s arbitrary: i rule: utf8_induct)
  case (char c t)
  note b = utf8_char_bytes [OF char(1)]
  show ?case
  proof (cases "i < length c")
    case True
    have "i = 0"
    proof (rule ccontr)
      assume "i \<noteq> 0"
      then obtain j where i: "i = Suc j" by (cases i) auto
      with True b have "is_cont_byte (c ! i)" by (auto simp: list_all_length nth_tl)
      with True char.prems show False by (auto simp: is_char_boundary_def nth_append)
    qed
    with char show ?thesis by (simp add: utf8_char_append)
  next
    case False
    then have "is_char_boundary t (i - length c)"
      using char.prems by (auto simp: is_char_boundary_def nth_append)
    with char False show ?thesis by (simp add: utf8_char_append)
  qed
qed simp

lemma utf8_slice: "utf8_valid s \<Longrightarrow> str_slice_to s i = Some t \<Longrightarrow> utf8_valid t"
  by (auto simp: str_slice_to_def utf8_valid_cut split: if_splits)

text \<open>Cutting before or after a part that is text itself.\<close>

lemma utf8_valid_left:
  assumes "utf8_valid (s @ t)" and "utf8_valid t"
  shows "utf8_valid s"
proof -
  have "is_char_boundary (s @ t) (length s)"
  proof (cases t)
    case (Cons a r)
    with utf8_valid_split [OF assms(2)] obtain c t' where "utf8_char c" "t = c @ t'" by auto
    with utf8_char_bytes [of c] show ?thesis by (cases c) (auto simp: is_char_boundary_def nth_append)
  qed (simp add: is_char_boundary_def)
  from utf8_valid_cut [OF assms(1) this] show ?thesis by simp
qed

lemma ws_chars_utf8: "w \<in> set ws_chars \<Longrightarrow> utf8_valid w"
proof -
  have "list_all utf8_char ws_chars" by (simp add: ws_chars_def byte_in_def is_cont_byte_def)
  then show "w \<in> set ws_chars \<Longrightarrow> utf8_valid w" using utf8_char_append [of w "[]"] by (auto simp: list_all_iff)
qed

lemma utf8_concat: "list_all utf8_valid xs \<Longrightarrow> utf8_valid (concat xs)"
  by (induction xs) (simp_all add: utf8_valid_append)

lemma utf8_trim_end: "utf8_valid s \<Longrightarrow> utf8_valid (trim_end s)"
proof -
  assume s: "utf8_valid s"
  obtain ws where "s = trim_end s @ concat ws" "set ws \<subseteq> set ws_chars" using trim_end_prefix by blast
  moreover from this have "utf8_valid (concat ws)" by (intro utf8_concat) (auto simp: list_all_iff ws_chars_utf8)
  ultimately show ?thesis using s utf8_valid_left by metis
qed

lemma utf8_trim_end_matches_char:
  assumes "utf8_valid s" and "is_ascii [c]"
  shows "utf8_valid (trim_end_matches_char c s)"
proof -
  let ?r = "rev (takeWhile (\<lambda>x. x = c) (rev s))"
  have "s = trim_end_matches_char c s @ ?r"
    unfolding trim_end_matches_char_def rev_append [symmetric] takeWhile_dropWhile_id by simp
  moreover have "is_ascii ?r"
    using assms(2) by (auto simp: is_ascii_def list_all_iff dest: set_takeWhileD)
  ultimately show ?thesis using assms(1) utf8_valid_left [of "trim_end_matches_char c s" ?r] is_ascii_utf8 [of ?r] by simp
qed

text \<open>ASCII text inside a string splits it into strings.\<close>

lemma utf8_split_once:
  assumes "utf8_valid s" and "is_ascii p" and "split_once p s = Some (a, b)"
  shows "utf8_valid a \<and> utf8_valid b"
proof (cases "p = []")
  case True
  with assms(1,3) show ?thesis by (cases s) auto
next
  case False
  have s: "s = a @ p @ b" using split_once_SomeD [OF assms(3)] .
  obtain c p' where p: "p = c # p'" using False by (cases p) auto
  have "\<not> is_cont_byte c" using assms(2) p by (auto simp: is_ascii_def is_cont_byte_def)
  then have "is_char_boundary s (length a)" by (simp add: s p is_char_boundary_def nth_append)
  from utf8_valid_cut [OF assms(1) this] have "utf8_valid a" "utf8_valid (p @ b)" by (simp_all add: s)
  with is_ascii_utf8 [OF assms(2)] show ?thesis by (simp add: utf8_valid_append)
qed

lemma utf8_show_nat: "utf8_valid (show_nat n)"
  by (rule is_ascii_utf8) (auto simp: is_ascii_def list_all_iff of_char_digit dest!: show_nat_digits)

end
