(* ===== verification/Rust_Path.thy ===== *)
theory Rust_Path
  imports Rust_Str
begin

text \<open>
  \<^verbatim>\<open>std::path::Path\<close> on Unix. A path is its sequence of components, which is what Rust compares,
  hashes and takes prefixes of; \<open>path_of\<close> reads the components of a text as
  \<^verbatim>\<open>Path::components\<close> does and \<open>path_text\<close> writes them. Redundant separators of a text are
  not part of a path here.
\<close>

section \<open>Components\<close>

datatype component = RootDir | CurDir | ParentDir | Normal string

type_synonym path = "component list"

fun comp_text :: "component \<Rightarrow> string" where
  "comp_text RootDir = []"
| "comp_text CurDir = ''.''"
| "comp_text ParentDir = ''..''"
| "comp_text (Normal s) = s"

definition path_text :: "path \<Rightarrow> string" where
  "path_text p =
     (case p of RootDir # cs \<Rightarrow> ''/'' @ str_join ''/'' (map comp_text cs)
      | _ \<Rightarrow> str_join ''/'' (map comp_text p))"

definition comp_of :: "string \<Rightarrow> component" where
  "comp_of s = (if s = ''..'' then ParentDir else Normal s)"

definition path_of :: "string \<Rightarrow> path" where
  "path_of s =
     (let ps = filter (\<lambda>x. x \<noteq> []) (split_str ''/'' s);
          rest = (\<lambda>xs. map comp_of (filter (\<lambda>x. x \<noteq> ''.'') xs))
      in if starts_with s ''/'' then RootDir # rest ps
         else case ps of
                [] \<Rightarrow> []
              | x # xs \<Rightarrow> (if x = ''.'' then CurDir # rest xs else rest ps))"

definition is_absolute :: "path \<Rightarrow> bool" where
  "is_absolute p = (case p of RootDir # _ \<Rightarrow> True | _ \<Rightarrow> False)"

section \<open>File name, stem, extension\<close>

definition file_name :: "path \<Rightarrow> string option" where
  "file_name p = (if p = [] then None else case last p of Normal s \<Rightarrow> Some s | _ \<Rightarrow> None)"

text \<open>Split a file name at its last dot; a leading dot does not count.\<close>

definition rsplit_dot :: "string \<Rightarrow> (string \<times> string) option" where
  "rsplit_dot s =
     (let after = takeWhile (\<lambda>c. c \<noteq> CHR ''.'') (rev s);
          n = length s - length after
      in if CHR ''.'' \<notin> set s \<or> n = 1 then None
         else Some (take (n - 1) s, rev after))"

definition extension :: "path \<Rightarrow> string option" where
  "extension p = Option.bind (file_name p) (\<lambda>s. map_option snd (rsplit_dot s))"

definition file_stem_of :: "string \<Rightarrow> string" where
  "file_stem_of s = (case rsplit_dot s of None \<Rightarrow> s | Some (a, _) \<Rightarrow> a)"

text \<open>\<^verbatim>\<open>with_extension(e)\<close>: the last component loses its extension and gains \<^verbatim>\<open>e\<close> when it is not
  empty.\<close>

definition with_extension :: "path \<Rightarrow> string \<Rightarrow> path" where
  "with_extension p e =
     (case file_name p of None \<Rightarrow> p
      | Some s \<Rightarrow> butlast p @ [Normal (file_stem_of s @ (if e = [] then [] else CHR ''.'' # e))])"

section \<open>Parent, join, prefix\<close>

definition parent :: "path \<Rightarrow> path option" where
  "parent p = (if p = [] \<or> last p = RootDir then None else Some (butlast p))"

fun ancestors_aux :: "nat \<Rightarrow> path \<Rightarrow> path list" where
  "ancestors_aux 0 p = [p]"
| "ancestors_aux (Suc n) p =
     p # (case parent p of None \<Rightarrow> [] | Some q \<Rightarrow> ancestors_aux n q)"

definition ancestors :: "path \<Rightarrow> path list" where
  "ancestors p = ancestors_aux (length p) p"

definition join :: "path \<Rightarrow> path \<Rightarrow> path" where
  "join a b =
     (if is_absolute b then b
      else if a = [] then b
      else a @ filter (\<lambda>c. c \<noteq> CurDir) b)"

definition strip_prefix :: "path \<Rightarrow> path \<Rightarrow> path option" where
  "strip_prefix p base = (if prefix base p then Some (drop (length base) p) else None)"

definition path_starts_with :: "path \<Rightarrow> path \<Rightarrow> bool" where
  "path_starts_with p base = prefix base p"

section \<open>Well-formed paths\<close>

definition normal_ok :: "string \<Rightarrow> bool" where
  "normal_ok s \<longleftrightarrow> s \<noteq> [] \<and> CHR ''/'' \<notin> set s \<and> s \<noteq> ''.'' \<and> s \<noteq> ''..''"

fun tail_comp_ok :: "component \<Rightarrow> bool" where
  "tail_comp_ok (Normal s) = normal_ok s"
| "tail_comp_ok ParentDir = True"
| "tail_comp_ok _ = False"

fun path_ok :: "path \<Rightarrow> bool" where
  "path_ok [] = True"
| "path_ok (RootDir # cs) = list_all tail_comp_ok cs"
| "path_ok (CurDir # cs) = list_all tail_comp_ok cs"
| "path_ok (c # cs) = list_all tail_comp_ok (c # cs)"

lemma tail_comp_ok_text:
  "tail_comp_ok c \<Longrightarrow> comp_text c \<noteq> [] \<and> CHR ''/'' \<notin> set (comp_text c) \<and> comp_text c \<noteq> ''.''
     \<and> comp_of (comp_text c) = c"
  by (cases c) (auto simp: normal_ok_def comp_of_def)

lemma split_once_sep:
  "c \<notin> set x \<Longrightarrow> split_once [c] (x @ c # y) = Some (x, y)"
  by (induction x) auto

lemma split_str_join:
  "xs \<noteq> [] \<Longrightarrow> list_all (\<lambda>x. c \<notin> set x) xs \<Longrightarrow> split_str [c] (str_join [c] xs) = xs"
proof (induction xs rule: induct_list012)
  case (2 x)
  then have "split_once [c] x = None" by (simp add: split_once_single_None)
  then show ?case by (simp add: split_str.simps [of "[c]" x])
next
  case (3 x y zs)
  then have "split_once [c] (x @ c # str_join [c] (y # zs)) = Some (x, str_join [c] (y # zs))"
    by (simp add: split_once_sep)
  with 3 show ?case by (simp add: split_str.simps [of "[c]" "x @ c # str_join [c] (y # zs)"])
qed simp

lemma filter_split_join:
  assumes "list_all tail_comp_ok cs"
  shows "filter (\<lambda>x. x \<noteq> []) (split_str ''/'' (str_join ''/'' (map comp_text cs))) = map comp_text cs"
proof (cases "cs = []")
  case True
  then show ?thesis by (simp add: split_str.simps)
next
  case False
  with assms have "split_str ''/'' (str_join ''/'' (map comp_text cs)) = map comp_text cs"
    by (intro split_str_join) (auto simp: list_all_iff dest: tail_comp_ok_text)
  moreover have "filter (\<lambda>x. x \<noteq> []) (map comp_text cs) = map comp_text cs"
    using assms by (auto simp: filter_id_conv list_all_iff dest: tail_comp_ok_text)
  ultimately show ?thesis by simp
qed

lemma map_comp_of_text:
  "list_all tail_comp_ok cs \<Longrightarrow>
     map comp_of (filter (\<lambda>x. x \<noteq> ''.'') (map comp_text cs)) = cs"
  by (induction cs) (auto dest: tail_comp_ok_text)

lemma split_str_sep_Cons: "split_str [c] (c # s) = [] # split_str [c] s"
  by (simp add: split_str.simps [of "[c]" "c # s"])

lemma str_join_hd:
  "xs \<noteq> [] \<Longrightarrow> hd xs \<noteq> [] \<Longrightarrow> str_join sep xs \<noteq> [] \<and> hd (str_join sep xs) = hd (hd xs)"
  by (cases xs; cases "tl xs") (auto simp: hd_append)

lemma path_of_relative:
  assumes "list_all tail_comp_ok (c # cs)"
  shows "path_of (str_join ''/'' (map comp_text (c # cs))) = c # cs"
proof -
  let ?s = "str_join ''/'' (map comp_text (c # cs))"
  have c: "comp_text c \<noteq> []" "CHR ''/'' \<notin> set (comp_text c)" "comp_text c \<noteq> ''.''"
    using assms tail_comp_ok_text by auto
  have "?s \<noteq> [] \<and> hd ?s = hd (comp_text c)"
    using str_join_hd [of "map comp_text (c # cs)" "''/''"] c by simp
  then have abs: "\<not> prefix ''/'' ?s"
    using c by (metis hd_in_set list.sel(1) prefix_Cons append_Cons list.exhaust_sel prefix_def)
  show ?thesis
    using abs filter_split_join [OF assms] map_comp_of_text [OF assms] c
    by (simp add: path_of_def starts_with_def Let_def)
qed

text \<open>Reading the text of a well-formed path gives the path back.\<close>

lemma path_of_path_text: "path_ok p \<Longrightarrow> path_of (path_text p) = p"
proof (induction p rule: path_ok.induct)
  case 1
  show ?case by (simp add: path_text_def path_of_def starts_with_def split_str.simps)
next
  case (2 cs)
  then show ?case
    by (simp add: path_text_def path_of_def starts_with_def split_str_sep_Cons filter_split_join
        map_comp_of_text Let_def)
next
  case (3 cs)
  have "filter (\<lambda>x. x \<noteq> []) (split_str ''/'' (str_join ''/'' (map comp_text (CurDir # cs))))
        = map comp_text (CurDir # cs)"
  proof -
    have "split_str ''/'' (str_join ''/'' (map comp_text (CurDir # cs))) = map comp_text (CurDir # cs)"
      using 3 by (intro split_str_join) (auto simp: list_all_iff dest: tail_comp_ok_text)
    moreover have "filter (\<lambda>x. x \<noteq> []) (map comp_text (CurDir # cs)) = map comp_text (CurDir # cs)"
      using 3 by (auto simp: filter_id_conv list_all_iff dest: tail_comp_ok_text)
    ultimately show ?thesis by simp
  qed
  moreover have "\<not> prefix ''/'' (str_join ''/'' (map comp_text (CurDir # cs)))"
    by (cases cs) auto
  ultimately show ?case using 3
    by (simp add: path_text_def path_of_def starts_with_def map_comp_of_text Let_def)
next
  case "4_1"
  then show ?case using path_of_relative [of ParentDir] by (simp add: path_text_def)
next
  case "4_2"
  then show ?case using path_of_relative [of "Normal v" for v] by (simp add: path_text_def)
qed

end
