(* ===== verification/Sockets.thy ===== *)
theory Sockets
  imports Prelude
begin

unbundle bit_operations_syntax

text \<open>
  Byte streams over Unix sockets, as the standard library reads and writes them, little-endian
  integers, and the length-prefixed frames both sides of the program exchange.

  The input of a socket is the list of what will arrive: bytes and expiries of the read timeout.
  After the end of the list nothing arrives any more: the peer has closed the socket or stays
  silent, and a read returns an error either way. When a read times out in the middle, the bytes
  already read are lost.
\<close>

section \<open>Little-endian integers\<close>

definition u32_to_le :: "u32 \<Rightarrow> u8 list" where
  "u32_to_le w = [ucast w, ucast (drop_bit 8 w), ucast (drop_bit 16 w), ucast (drop_bit 24 w)]"

definition u32_from_le :: "u8 list \<Rightarrow> u32" where
  "u32_from_le bs =
     (case bs of
        [a, b, c, d] \<Rightarrow>
          ucast a OR push_bit 8 (ucast b) OR push_bit 16 (ucast c) OR push_bit 24 (ucast d)
      | _ \<Rightarrow> 0)"

lemma length_u32_to_le [simp]: "length (u32_to_le w) = 4"
  by (simp add: u32_to_le_def)

lemma u32_le_roundtrip [simp]: "u32_from_le (u32_to_le w) = w"
proof -
  have "bit (u32_from_le (u32_to_le w)) n = bit w n" if n: "n < 32" for n
  proof -
    consider "n < 8" | "8 \<le> n" "n < 16" | "16 \<le> n" "n < 24" | "24 \<le> n" "n < 32"
      using n by linarith
    then show ?thesis
      by cases (auto simp: u32_to_le_def u32_from_le_def bit_simps)
  qed
  then show ?thesis by (intro bit_word_eqI) simp
qed

lemma u32_le_inverse: "length bs = 4 \<Longrightarrow> u32_to_le (u32_from_le bs) = bs"
proof -
  assume "length bs = 4"
  then obtain a b c d where bs: "bs = [a, b, c, d]"
    by (auto simp: numeral_eq_Suc length_Suc_conv)
  have "ucast (u32_from_le bs) = a" "ucast (drop_bit 8 (u32_from_le bs)) = b"
    "ucast (drop_bit 16 (u32_from_le bs)) = c" "ucast (drop_bit 24 (u32_from_le bs)) = d"
    unfolding bs
    by (rule bit_word_eqI; auto simp: u32_from_le_def bit_simps dest: bit_imp_le_length)+
  then show ?thesis by (simp add: u32_to_le_def bs)
qed

section \<open>Reading and writing\<close>

datatype rd_item = Byte u8 | Timeout

fun read_exact :: "nat \<Rightarrow> rd_item list \<Rightarrow> u8 list option \<times> rd_item list" where
  "read_exact 0 s = (Some [], s)"
| "read_exact (Suc n) [] = (None, [])"
| "read_exact (Suc n) (Timeout # s) = (None, s)"
| "read_exact (Suc n) (Byte b # s) =
     (case read_exact n s of (Some bs, s') \<Rightarrow> (Some (b # bs), s') | (None, s') \<Rightarrow> (None, s'))"

text \<open>A socket: what was written to it, the outcomes of the coming writes (an empty list: they
  all succeed) and the input.\<close>

record sock =
  s_out :: "u8 list"
  s_wfail :: "bool list"
  s_in :: "rd_item list"

definition write_all :: "u8 list \<Rightarrow> sock \<Rightarrow> bool \<times> sock" where
  "write_all bs s =
     (case s_wfail s of
        True # fs \<Rightarrow> (False, s\<lparr>s_wfail := fs\<rparr>)
      | False # fs \<Rightarrow> (True, s\<lparr>s_wfail := fs, s_out := s_out s @ bs\<rparr>)
      | [] \<Rightarrow> (True, s\<lparr>s_out := s_out s @ bs\<rparr>))"

text \<open>Read a frame: four bytes of length, then that many bytes.\<close>

definition read_frame :: "rd_item list \<Rightarrow> u8 list option \<times> rd_item list" where
  "read_frame s =
     (case read_exact 4 s of
        (Some len_buf, s') \<Rightarrow> read_exact (unat (u32_from_le len_buf)) s'
      | (None, s') \<Rightarrow> (None, s'))"

definition frame :: "u8 list \<Rightarrow> u8 list" where
  "frame payload = u32_to_le (of_nat (length payload)) @ payload"

section \<open>Facts about streams\<close>

lemma read_exact_bytes: "read_exact (length bs) (map Byte bs @ s) = (Some bs, s)"
  by (induction bs) auto

lemma read_exact_bytes_n: "n = length bs \<Longrightarrow> read_exact n (map Byte bs @ s) = (Some bs, s)"
  using read_exact_bytes by simp

lemma read_exact_length: "read_exact n s = (Some bs, s') \<Longrightarrow> length bs = n"
  by (induction n s arbitrary: bs rule: read_exact.induct) (auto split: prod.splits option.splits)

lemma read_exact_SomeD: "read_exact n s = (Some bs, s') \<Longrightarrow> s = map Byte bs @ s'"
  by (induction n s arbitrary: bs rule: read_exact.induct) (auto split: prod.splits option.splits)

lemma read_exact_short: "length bs < n \<Longrightarrow> read_exact n (map Byte bs) = (None, [])"
  by (induction bs arbitrary: n) (case_tac n; auto)+

lemma read_exact_suffix: "read_exact n s = (r, s') \<Longrightarrow> suffix s' s"
  by (induction n s arbitrary: r rule: read_exact.induct)
     (auto split: prod.splits option.splits intro: suffix_ConsI)

lemma read_exact_progress:
  "read_exact n s = (r, s') \<Longrightarrow> 0 < n \<Longrightarrow> s \<noteq> [] \<Longrightarrow> length s' < length s"
proof (induction n s arbitrary: r rule: read_exact.induct)
  case (4 n b s)
  then obtain r0 where "read_exact n s = (r0, s')" by (auto split: prod.splits option.splits)
  then show ?case using suffix_length_le [OF read_exact_suffix] by fastforce
qed auto

lemma unat_of_nat_u32: "n < 2 ^ 32 \<Longrightarrow> unat (of_nat n :: u32) = n"
  by (simp add: unat_of_nat)

lemma read_frame_frame:
  "length payload < 2 ^ 32 \<Longrightarrow> read_frame (map Byte (frame payload) @ s) = (Some payload, s)"
proof -
  assume l: "length payload < 2 ^ 32"
  have "map Byte (frame payload) @ s =
      map Byte (u32_to_le (of_nat (length payload))) @ (map Byte payload @ s)"
    by (simp add: frame_def)
  then have "read_exact 4 (map Byte (frame payload) @ s) =
      (Some (u32_to_le (of_nat (length payload))), map Byte payload @ s)"
    by (metis length_u32_to_le read_exact_bytes)
  with l show ?thesis
    by (simp add: read_frame_def unat_of_nat_u32 read_exact_bytes)
qed

lemma read_frame_progress:
  assumes "read_frame s = (r, s')" and "s \<noteq> []"
  shows "length s' < length s"
proof (cases "read_exact 4 s")
  case (Pair a s1)
  then have 1: "length s1 < length s" using assms(2) by (auto intro: read_exact_progress)
  show ?thesis
  proof (cases a)
    case None
    with Pair assms 1 show ?thesis by (simp add: read_frame_def)
  next
    case (Some bs)
    with Pair assms have "read_exact (unat (u32_from_le bs)) s1 = (r, s')" by (simp add: read_frame_def)
    then have "length s' \<le> length s1" by (blast dest: read_exact_suffix suffix_length_le)
    with 1 show ?thesis by simp
  qed
qed

lemma read_frame_Nil [simp]: "read_frame [] = (None, [])"
  by (simp add: read_frame_def numeral_eq_Suc)

end
