(* ===== verification/Discovery.thy ===== *)
theory Discovery
  imports Rust_Path
begin

text \<open>
  Static test discovery (\<^verbatim>\<open>src/discovery.rs\<close>). The Python syntax tree is the part of
  \<^verbatim>\<open>rustpython_ast\<close> the code matches on; every other expression or statement form is one
  constructor. The parser \<^verbatim>\<open>parse_program\<close>, the directory walk of the \<^verbatim>\<open>ignore\<close> crate and
  \<^verbatim>\<open>serde_json\<close> are parameters. A Rust panic (slicing the source at an offset that is not a
  character boundary) is the result \<^const>\<open>None\<close>; an I/O error is \<^const>\<open>Inl\<close>.
\<close>

section \<open>Python syntax\<close>

datatype py_constant =
    CStr string
  | CInt int
  | CBool bool
  | CNone
  | CFloat string  \<comment> \<open>a float, by the text \<^verbatim>\<open>f64::to_string\<close> prints for it\<close>
  | COther

datatype expr =
    Call expr "expr list" "keyword list"
  | Attribute expr string
  | Name string
  | Constant py_constant
  | EList "expr list"
  | ETuple "expr list"
  | EOther
and keyword = Keyword "string option" expr

record arguments =
  posonlyargs :: "string list"
  args_args :: "string list"
  kwonlyargs :: "string list"

record func_def =
  fn_name :: string
  fn_args :: arguments
  fn_decorators :: "expr list"
  fn_start :: nat

datatype stmt =
    FunctionDef func_def
  | AsyncFunctionDef func_def
  | ClassDef string "stmt list"
  | SOther

section \<open>Results of discovery\<close>

datatype FixtureScope = Function | Class | Module | Session

definition default_scope :: FixtureScope where
  "default_scope = Function"

record FixtureDefinition =
  fd_name :: string
  fd_scope :: FixtureScope
  fd_dependencies :: "string list"
  fd_params :: "string list option"
  fd_class_scope :: "string option"

record TestCase =
  tc_name :: string
  tc_dependencies :: "string list"
  tc_is_async :: bool
  tc_line_number :: nat
  tc_parametrized_args :: "string list"

record TestModule =
  tm_path :: path
  tm_tests :: "TestCase list"
  tm_fixtures :: "FixtureDefinition list"

record DiscoveryResult =
  dr_modules :: "TestModule list"

definition test_count :: "DiscoveryResult \<Rightarrow> nat" where
  "test_count r = sum_list (map (\<lambda>m. length (tm_tests m)) (dr_modules r))"

definition fixture_count :: "DiscoveryResult \<Rightarrow> nat" where
  "fixture_count r = sum_list (map (\<lambda>m. length (tm_fixtures m)) (dr_modules r))"

definition get_line_number :: "string \<Rightarrow> nat \<Rightarrow> nat option" where
  "get_line_number source off =
     map_option (\<lambda>s. length (filter (\<lambda>c. c = CHR 0x0A) s) + 1)
       (str_slice_to source (min off (length source)))"

section \<open>Listing as JSON\<close>

record JsonTestInfo =
  jt_id :: string
  jt_file :: string
  jt_line :: nat
  jt_is_async :: bool

record JsonDiscoveryOutput =
  jd_version :: nat
  jd_tests :: "JsonTestInfo list"

definition json_tests :: "DiscoveryResult \<Rightarrow> JsonTestInfo list" where
  "json_tests result =
     concat (map (\<lambda>module. map (\<lambda>test.
        let file = path_text (tm_path module) in
        \<lparr>jt_id = file @ ''::'' @ tc_name test, jt_file = file,
         jt_line = tc_line_number test, jt_is_async = tc_is_async test\<rparr>) (tm_tests module))
       (dr_modules result))"

text \<open>The line printed on standard output; \<open>to_json\<close> is \<^verbatim>\<open>serde_json::to_string\<close>.\<close>

definition dump_json ::
  "(JsonDiscoveryOutput \<Rightarrow> ('e, string) result) \<Rightarrow> DiscoveryResult \<Rightarrow> ('e, string) result" where
  "dump_json to_json result =
     and_then (to_json \<lparr>jd_version = 1, jd_tests = json_tests result\<rparr>)
       (\<lambda>s. Inr (s @ [CHR 0x0A]))"

section \<open>Decorators and arguments\<close>

fun first_some :: "('a \<Rightarrow> 'b option) \<Rightarrow> 'a list \<Rightarrow> 'b option" where
  "first_some f [] = None"
| "first_some f (x # xs) = (case f x of Some y \<Rightarrow> Some y | None \<Rightarrow> first_some f xs)"

definition extract_args_from_arguments :: "arguments \<Rightarrow> string list" where
  "extract_args_from_arguments a = filter (\<lambda>n. n \<noteq> ''self'' \<and> n \<noteq> ''cls'') (args_args a)"

fun is_fixture_decorator :: "expr \<Rightarrow> bool" where
  "is_fixture_decorator (Call f _ _) = is_fixture_decorator f"
| "is_fixture_decorator (Attribute _ attr) = (attr = ''fixture'')"
| "is_fixture_decorator (Name i) = (i = ''fixture'')"
| "is_fixture_decorator _ = False"

definition has_fixture_decorator :: "expr list \<Rightarrow> bool" where
  "has_fixture_decorator ds = list_ex is_fixture_decorator ds"

definition scope_of_str :: "string \<Rightarrow> FixtureScope" where
  "scope_of_str s =
     (if s = ''class'' then Class else if s = ''module'' then Module
      else if s = ''session'' then Session else Function)"

fun keyword_scope :: "keyword \<Rightarrow> FixtureScope option" where
  "keyword_scope (Keyword (Some arg) (Constant (CStr s))) =
     (if arg = ''scope'' then Some (scope_of_str s) else None)"
| "keyword_scope _ = None"

fun call_keywords :: "expr \<Rightarrow> keyword list" where
  "call_keywords (Call _ _ kws) = kws"
| "call_keywords _ = []"

definition extract_scope_from_decorators :: "expr list \<Rightarrow> FixtureScope" where
  "extract_scope_from_decorators ds =
     (case first_some (\<lambda>d. first_some keyword_scope (call_keywords d)) ds of
        Some s \<Rightarrow> s | None \<Rightarrow> Function)"

fun expr_to_string :: "expr \<Rightarrow> string option" where
  "expr_to_string (Constant (CInt i)) = Some (show_int i)"
| "expr_to_string (Constant (CStr s)) = Some s"
| "expr_to_string (Constant (CBool b)) = Some (if b then ''True'' else ''False'')"
| "expr_to_string (Constant CNone) = Some ''None''"
| "expr_to_string (Constant (CFloat f)) = Some f"
| "expr_to_string (Constant COther) = None"
| "expr_to_string (Name n) = Some n"
| "expr_to_string _ = None"

fun collect_literals :: "expr list \<Rightarrow> string list option" where
  "collect_literals [] = Some []"
| "collect_literals (e # es) =
     (case expr_to_string e of None \<Rightarrow> None
      | Some s \<Rightarrow> map_option (\<lambda>r. s # r) (collect_literals es))"

fun extract_literal_list :: "expr \<Rightarrow> string list option" where
  "extract_literal_list (EList elts) = collect_literals elts"
| "extract_literal_list (ETuple elts) = collect_literals elts"
| "extract_literal_list _ = None"

fun keyword_params :: "keyword \<Rightarrow> string list option option" where
  "keyword_params (Keyword (Some arg) value) =
     (if arg = ''params'' then Some (extract_literal_list value) else None)"
| "keyword_params (Keyword None _) = None"

definition extract_params_from_decorators :: "expr list \<Rightarrow> string list option" where
  "extract_params_from_decorators ds =
     (case first_some (\<lambda>d. first_some keyword_params (call_keywords d)) ds of
        Some r \<Rightarrow> r | None \<Rightarrow> None)"

fun is_parametrize_decorator :: "expr \<Rightarrow> bool" where
  "is_parametrize_decorator (Call f _ _) = is_parametrize_decorator f"
| "is_parametrize_decorator (Attribute _ attr) = (attr = ''parametrize'')"
| "is_parametrize_decorator _ = False"

fun str_elts :: "expr list \<Rightarrow> string list" where
  "str_elts [] = []"
| "str_elts (e # es) = (case e of Constant (CStr s) \<Rightarrow> s # str_elts es | _ \<Rightarrow> str_elts es)"

fun parametrize_names :: "expr \<Rightarrow> string list" where
  "parametrize_names (Constant (CStr s)) =
     filter (\<lambda>t. t \<noteq> []) (map trim_str (split_str '','' s))"
| "parametrize_names (EList elts) = str_elts elts"
| "parametrize_names (ETuple elts) = str_elts elts"
| "parametrize_names _ = []"

fun decorator_parametrized :: "expr \<Rightarrow> string list" where
  "decorator_parametrized (Call f (first_arg # rest) kws) =
     (if is_parametrize_decorator (Call f (first_arg # rest) kws) then parametrize_names first_arg
      else [])"
| "decorator_parametrized _ = []"

definition extract_parametrized_args :: "expr list \<Rightarrow> string list" where
  "extract_parametrized_args ds = concat (map decorator_parametrized ds)"

fun is_patch_decorator :: "expr \<Rightarrow> bool" where
  "is_patch_decorator (Call f _ _) = is_patch_decorator f"
| "is_patch_decorator (Attribute _ attr) = (attr = ''patch'' \<or> starts_with attr ''patch.'')"
| "is_patch_decorator (Name i) = (i = ''patch'')"
| "is_patch_decorator _ = False"

fun patch_injects_arg :: "expr \<Rightarrow> bool" where
  "patch_injects_arg (Call f args kws) =
     (if \<not> is_patch_decorator (Call f args kws) then False
      else if length args \<ge> 2 then False
      else \<not> list_ex (\<lambda>kw. case kw of Keyword (Some a) _ \<Rightarrow> a = ''new'' | Keyword None _ \<Rightarrow> False) kws)"
| "patch_injects_arg _ = False"

definition count_patch_decorators :: "expr list \<Rightarrow> nat" where
  "count_patch_decorators ds = length (filter patch_injects_arg ds)"

definition push_new :: "string \<Rightarrow> string list \<Rightarrow> string list" where
  "push_new arg injected = (if arg \<in> set injected then injected else injected @ [arg])"

definition extract_injected_args :: "expr list \<Rightarrow> string list \<Rightarrow> string list" where
  "extract_injected_args ds func_args =
     (let injected = extract_parametrized_args ds;
          patch_count = count_patch_decorators ds
      in if patch_count > 0 \<and> length func_args \<ge> patch_count
         then fold push_new (take patch_count func_args) injected
         else injected)"

section \<open>Parsing a module\<close>

type_synonym found = "TestCase list \<times> FixtureDefinition list"

definition make_test :: "string \<Rightarrow> func_def \<Rightarrow> bool \<Rightarrow> string \<Rightarrow> TestCase option" where
  "make_test name func is_async source =
     map_option (\<lambda>line_number.
       \<lparr>tc_name = name,
        tc_dependencies = extract_args_from_arguments (fn_args func),
        tc_is_async = is_async,
        tc_line_number = line_number,
        tc_parametrized_args =
          extract_injected_args (fn_decorators func) (extract_args_from_arguments (fn_args func))\<rparr>)
      (get_line_number source (fn_start func))"

definition make_fixture :: "func_def \<Rightarrow> string option \<Rightarrow> FixtureDefinition" where
  "make_fixture func class_scope =
     \<lparr>fd_name = fn_name func,
      fd_scope = extract_scope_from_decorators (fn_decorators func),
      fd_dependencies = extract_args_from_arguments (fn_args func),
      fd_params = extract_params_from_decorators (fn_decorators func),
      fd_class_scope = class_scope\<rparr>"

text \<open>The body shared by the four function forms: \<open>cls\<close> is the enclosing class.\<close>

definition found_in_function ::
  "string option \<Rightarrow> func_def \<Rightarrow> bool \<Rightarrow> string \<Rightarrow> found option" where
  "found_in_function cls func is_async source =
     (let fixtures = (if has_fixture_decorator (fn_decorators func) then [make_fixture func cls] else []);
          name = (case cls of None \<Rightarrow> fn_name func | Some c \<Rightarrow> c @ ''::'' @ fn_name func)
      in if starts_with (fn_name func) ''test_''
         then map_option (\<lambda>t. ([t], fixtures)) (make_test name func is_async source)
         else Some ([], fixtures))"

definition analyze_function :: "func_def \<Rightarrow> string \<Rightarrow> found \<Rightarrow> bool \<Rightarrow> found option" where
  "analyze_function func source acc is_async =
     map_option (\<lambda>(ts, fs). (fst acc @ ts, snd acc @ fs)) (found_in_function None func is_async source)"

definition analyze_method :: "string \<Rightarrow> stmt \<Rightarrow> string \<Rightarrow> found \<Rightarrow> found option" where
  "analyze_method class_name s source acc =
     (case s of
        FunctionDef func \<Rightarrow>
          map_option (\<lambda>(ts, fs). (fst acc @ ts, snd acc @ fs))
            (found_in_function (Some class_name) func False source)
      | AsyncFunctionDef func \<Rightarrow>
          map_option (\<lambda>(ts, fs). (fst acc @ ts, snd acc @ fs))
            (found_in_function (Some class_name) func True source)
      | _ \<Rightarrow> Some acc)"

fun analyze_body :: "string \<Rightarrow> stmt list \<Rightarrow> string \<Rightarrow> found \<Rightarrow> found option" where
  "analyze_body class_name [] source acc = Some acc"
| "analyze_body class_name (s # ss) source acc =
     Option.bind (analyze_method class_name s source acc) (analyze_body class_name ss source)"

definition analyze_stmt :: "stmt \<Rightarrow> string \<Rightarrow> found \<Rightarrow> found option" where
  "analyze_stmt s source acc =
     (case s of
        FunctionDef func \<Rightarrow> analyze_function func source acc False
      | AsyncFunctionDef func \<Rightarrow> analyze_function func source acc True
      | ClassDef class_name body \<Rightarrow>
          (if starts_with class_name ''Test'' then analyze_body class_name body source acc else Some acc)
      | SOther \<Rightarrow> Some acc)"

fun analyze_suite :: "stmt list \<Rightarrow> string \<Rightarrow> found \<Rightarrow> found option" where
  "analyze_suite [] source acc = Some acc"
| "analyze_suite (s # ss) source acc =
     Option.bind (analyze_stmt s source acc) (analyze_suite ss source)"

section \<open>The file system and the walk\<close>

datatype io_error = NotFound | InvalidData | OtherIo string

record world =
  w_cwd :: path
  w_files :: "(path, string) hashmap"  \<comment> \<open>regular files by absolute path, with their bytes\<close>

definition file_at :: "world \<Rightarrow> path \<Rightarrow> string option" where
  "file_at w p = hm_get (w_files w) (join (w_cwd w) p)"

definition read_to_string :: "world \<Rightarrow> path \<Rightarrow> (io_error, string) result" where
  "read_to_string w p =
     (case file_at w p of None \<Rightarrow> Inl NotFound
      | Some bs \<Rightarrow> if utf8_valid bs then Inr bs else Inl InvalidData)"

definition is_test_file :: "world \<Rightarrow> path \<Rightarrow> bool" where
  "is_test_file w p =
     (if file_at w p = None then False
      else if extension p \<noteq> Some ''py'' then False
      else let name = (case file_name p of Some n \<Rightarrow> n | None \<Rightarrow> []) in
           starts_with name ''test_'' \<or> ends_with name ''_test.py'' \<or> name = ''conftest.py'')"

definition parse_module ::
  "(string \<Rightarrow> string \<Rightarrow> stmt list option) \<Rightarrow> world \<Rightarrow> path \<Rightarrow> (io_error, TestModule) result option"
where
  "parse_module parse_program w p =
     (case read_to_string w p of
        Inl e \<Rightarrow> Some (Inl e)
      | Inr source \<Rightarrow>
         (case parse_program source (path_text p) of
            None \<Rightarrow> Some (Inr \<lparr>tm_path = p, tm_tests = [], tm_fixtures = []\<rparr>)
          | Some suite \<Rightarrow>
              map_option (\<lambda>(ts, fs). Inr \<lparr>tm_path = p, tm_tests = ts, tm_fixtures = fs\<rparr>)
                (analyze_suite suite source ([], []))))"

fun parse_modules ::
  "(string \<Rightarrow> string \<Rightarrow> stmt list option) \<Rightarrow> world \<Rightarrow> path list \<Rightarrow> TestModule list option"
where
  "parse_modules parse_program w [] = Some []"
| "parse_modules parse_program w (p # ps) =
     Option.bind (parse_module parse_program w p) (\<lambda>r.
     Option.bind (parse_modules parse_program w ps) (\<lambda>ms.
       Some (case r of Inl _ \<Rightarrow> ms
             | Inr m \<Rightarrow> (if tm_tests m \<noteq> [] \<or> tm_fixtures m \<noteq> [] then m # ms else ms))))"

definition test_paths ::
  "(path \<Rightarrow> ('e, path) result list) \<Rightarrow> world \<Rightarrow> path \<Rightarrow> path list" where
  "test_paths walk w root =
     map (\<lambda>p. case strip_prefix p root of Some q \<Rightarrow> q | None \<Rightarrow> p)
       (filter (is_test_file w) (List.map_filter result_ok (walk root)))"

text \<open>\<^const>\<open>None\<close> is a panic of a parsing thread, which \<^verbatim>\<open>rayon\<close> propagates.\<close>

definition discover ::
  "(path \<Rightarrow> ('e, path) result list) \<Rightarrow> (string \<Rightarrow> string \<Rightarrow> stmt list option) \<Rightarrow> world \<Rightarrow> path
     \<Rightarrow> DiscoveryResult option"
where
  "discover walk parse_program w root =
     map_option (\<lambda>ms. \<lparr>dr_modules = ms\<rparr>) (parse_modules parse_program w (test_paths walk w root))"

section \<open>Specification: the functions a suite offers\<close>

text \<open>The functions that discovery looks at, with the class they stand in and whether they are
  async: those at the top level and those directly in a class whose name starts with Test.\<close>

fun own_function :: "string option \<Rightarrow> stmt \<Rightarrow> (string option \<times> func_def \<times> bool) list" where
  "own_function c (FunctionDef f) = [(c, f, False)]"
| "own_function c (AsyncFunctionDef f) = [(c, f, True)]"
| "own_function c _ = []"

fun offered :: "stmt \<Rightarrow> (string option \<times> func_def \<times> bool) list" where
  "offered (ClassDef c body) =
     (if starts_with c ''Test'' then concat (map (own_function (Some c)) body) else [])"
| "offered s = own_function None s"

definition qual_name :: "string option \<Rightarrow> func_def \<Rightarrow> string" where
  "qual_name c f = (case c of None \<Rightarrow> fn_name f | Some k \<Rightarrow> k @ ''::'' @ fn_name f)"

definition is_test_fn :: "string option \<times> func_def \<times> bool \<Rightarrow> bool" where
  "is_test_fn = (\<lambda>(c, f, b). starts_with (fn_name f) ''test_'')"

definition fixtures_of :: "(string option \<times> func_def \<times> bool) list \<Rightarrow> FixtureDefinition list" where
  "fixtures_of fns =
     map (\<lambda>(c, f, b). make_fixture f c) (filter (\<lambda>(c, f, b). has_fixture_decorator (fn_decorators f)) fns)"

definition tests_of ::
  "string \<Rightarrow> (string option \<times> func_def \<times> bool) list \<Rightarrow> TestCase list option" where
  "tests_of source fns =
     those (map (\<lambda>(c, f, b). make_test (qual_name c f) f b source) (filter is_test_fn fns))"

definition extend_found :: "found \<Rightarrow> string \<Rightarrow> (string option \<times> func_def \<times> bool) list \<Rightarrow> found option" where
  "extend_found acc source fns =
     map_option (\<lambda>ts. (fst acc @ ts, snd acc @ fixtures_of fns)) (tests_of source fns)"

lemma those_append:
  "those (xs @ ys) = Option.bind (those xs) (\<lambda>a. map_option (\<lambda>b. a @ b) (those ys))"
proof (induction xs)
  case Nil
  show ?case by (cases "those ys") simp_all
next
  case (Cons x xs)
  then show ?case by (cases "those xs"; cases "those ys") (auto split: option.splits)
qed

lemma those_eq_Some: "those xs = Some ys \<longleftrightarrow> xs = map Some ys"
  by (induction xs arbitrary: ys) (auto split: option.splits simp: Cons_eq_map_conv)

lemma those_None: "those xs = None \<longleftrightarrow> None \<in> set xs"
  by (induction xs) (auto split: option.splits)

lemma extend_found_Nil [simp]: "extend_found acc source [] = Some acc"
  by (simp add: extend_found_def tests_of_def fixtures_of_def)

lemma extend_found_append:
  "extend_found acc source (xs @ ys) =
     Option.bind (extend_found acc source xs) (\<lambda>acc'. extend_found acc' source ys)"
  by (cases "tests_of source xs"; cases "tests_of source ys")
     (auto simp: extend_found_def tests_of_def fixtures_of_def those_append)

lemma found_extend:
  "map_option (\<lambda>(ts, fs). (fst acc @ ts, snd acc @ fs)) (found_in_function c f b source)
     = extend_found acc source [(c, f, b)]"
  by (auto simp: found_in_function_def extend_found_def tests_of_def fixtures_of_def is_test_fn_def
      qual_name_def Let_def split: option.splits)

lemma analyze_method_extend:
  "analyze_method c s source acc = extend_found acc source (own_function (Some c) s)"
  by (cases s) (auto simp: analyze_method_def found_extend)

lemma analyze_body_extend:
  "analyze_body c ss source acc = extend_found acc source (concat (map (own_function (Some c)) ss))"
proof (induction ss arbitrary: acc)
  case (Cons s ss)
  then show ?case
    by (cases "extend_found acc source (own_function (Some c) s)")
       (simp_all add: analyze_method_extend extend_found_append)
qed simp

lemma analyze_stmt_extend: "analyze_stmt s source acc = extend_found acc source (offered s)"
  by (cases s) (auto simp: analyze_stmt_def analyze_function_def found_extend analyze_body_extend)

lemma analyze_suite_extend:
  "analyze_suite ss source acc = extend_found acc source (concat (map offered ss))"
proof (induction ss arbitrary: acc)
  case (Cons s ss)
  then show ?case
    by (cases "extend_found acc source (offered s)")
       (simp_all add: analyze_stmt_extend extend_found_append)
qed simp

lemma make_test_fields:
  "make_test n f b source = Some t \<Longrightarrow>
     tc_name t = n \<and> tc_is_async t = b
     \<and> tc_dependencies t = extract_args_from_arguments (fn_args f)
     \<and> tc_parametrized_args t =
         extract_injected_args (fn_decorators f) (extract_args_from_arguments (fn_args f))"
  by (auto simp: make_test_def)

lemma tests_of_map:
  assumes "tests_of source fns = Some ts"
    and "\<And>c f b t. make_test (qual_name c f) f b source = Some t \<Longrightarrow> g t = h (c, f, b)"
  shows "map g ts = map h (filter is_test_fn fns)"
proof -
  have "map (\<lambda>(c, f, b). make_test (qual_name c f) f b source) (filter is_test_fn fns) = map Some ts"
    using assms(1) by (simp add: tests_of_def those_eq_Some)
  then show ?thesis
  proof (induction "filter is_test_fn fns" arbitrary: fns ts)
    case Nil
    then show ?case by simp
  next
    case (Cons x xs)
    obtain c f b where x: "x = (c, f, b)" by (cases x) auto
    have "filter is_test_fn xs = xs"
      using Cons.hyps(2) by (metis (no_types, lifting) filter_id_conv list.set_intros(2) mem_Collect_eq set_filter)
    moreover obtain t ts' where ts: "ts = t # ts'" and t: "make_test (qual_name c f) f b source = Some t"
      and ts': "map (\<lambda>(c, f, b). make_test (qual_name c f) f b source) xs = map Some ts'"
      using Cons.prems Cons.hyps(2) [symmetric] x by (cases ts) auto
    ultimately have "map g ts' = map h xs" using Cons.hyps(1) [of xs ts'] by simp
    with ts assms(2) [OF t] x Cons.hyps(2) [symmetric] show ?case by simp
  qed
qed

section \<open>Injected arguments\<close>

lemma fold_push_new:
  "set (fold push_new xs acc) = set acc \<union> set xs"
  by (induction xs arbitrary: acc) (auto simp: push_new_def)

lemma fold_push_new_prefix: "prefix acc (fold push_new xs acc)"
  by (induction xs arbitrary: acc) (auto simp: push_new_def intro: append_prefixD prefix_order.trans)

section \<open>Files\<close>

lemma result_ok_map_filter: "p \<in> set (List.map_filter result_ok rs) \<longleftrightarrow> Inr p \<in> set rs"
  by (induction rs) (auto simp: List.map_filter_simps split: option.splits sum.splits simp: result_ok_def)

lemma parse_modules_mem:
  "parse_modules pp w ps = Some ms \<Longrightarrow>
     set ms = {m. \<exists>p\<in>set ps. parse_module pp w p = Some (Inr m) \<and> (tm_tests m \<noteq> [] \<or> tm_fixtures m \<noteq> [])}"
proof (induction ps arbitrary: ms)
  case (Cons p ps)
  then obtain r ms' where r: "parse_module pp w p = Some r" and ms': "parse_modules pp w ps = Some ms'"
    and ms: "ms = (case r of Inl _ \<Rightarrow> ms'
             | Inr m \<Rightarrow> (if tm_tests m \<noteq> [] \<or> tm_fixtures m \<noteq> [] then m # ms' else ms'))"
    by (auto simp: bind_eq_Some_conv)
  have "set ms' = {m. \<exists>p\<in>set ps. parse_module pp w p = Some (Inr m) \<and> (tm_tests m \<noteq> [] \<or> tm_fixtures m \<noteq> [])}"
    by (rule Cons.IH [OF ms'])
  with r ms show ?case by (cases r) (auto split: if_splits)
qed simp

lemma parse_module_path: "parse_module pp w p = Some (Inr m) \<Longrightarrow> tm_path m = p"
  by (auto simp: parse_module_def split: sum.splits option.splits)

text \<open>A path below the current directory and its part relative to it name the same file.\<close>

lemma file_at_relative:
  assumes "is_absolute (w_cwd w)" and "list_all tail_comp_ok q"
  shows "file_at w (w_cwd w @ q) = file_at w q"
proof -
  have "filter (\<lambda>c. c \<noteq> CurDir) q = q" and "\<not> is_absolute q"
    using assms(2) by (auto simp: filter_id_conv list_all_iff is_absolute_def split: list.splits component.splits)
  moreover have "w_cwd w \<noteq> []" and "is_absolute (w_cwd w @ q)"
    using assms(1) by (auto simp: is_absolute_def split: list.splits component.splits)
  ultimately show ?thesis by (simp add: file_at_def join_def)
qed

section \<open>Examples for the witnesses\<close>

definition ex_def :: "string \<Rightarrow> string list \<Rightarrow> expr list \<Rightarrow> func_def" where
  "ex_def n as ds = \<lparr>fn_name = n, fn_args = \<lparr>posonlyargs = [], args_args = as, kwonlyargs = []\<rparr>,
     fn_decorators = ds, fn_start = 0\<rparr>"

definition ex_suite :: "stmt list" where
  "ex_suite =
     [FunctionDef (ex_def ''db'' [] [Attribute (Name ''pytest'') ''fixture'']),
      FunctionDef (ex_def ''helper'' [] []),
      ClassDef ''TestA'' [FunctionDef (ex_def ''test_m'' [''self'', ''db''] []), SOther,
                          AsyncFunctionDef (ex_def ''test_n'' [''self''] [])],
      ClassDef ''Other'' [FunctionDef (ex_def ''test_hidden'' [''self''] [])],
      AsyncFunctionDef (ex_def ''test_top'' [''m'', ''db'']
        [Call (Name ''patch'') [Constant (CStr ''a.b'')] []])]"

definition ex_world :: world where
  "ex_world = \<lparr>w_cwd = [RootDir, Normal ''p''],
     w_files = [([RootDir, Normal ''p'', Normal ''test_x.py''], ''src''),
                ([RootDir, Normal ''p'', Normal ''util.py''], ''src'')]\<rparr>"

definition ex_walk :: "path \<Rightarrow> (unit, path) result list" where
  "ex_walk root = [Inr root, Inl (), Inr (root @ [Normal ''test_x.py'']), Inr (root @ [Normal ''util.py''])]"

definition ex_parser :: "string \<Rightarrow> string \<Rightarrow> stmt list option" where
  "ex_parser source name = (if source = ''src'' then Some ex_suite else None)"

lemmas disc_eval = ex_suite_def ex_def_def ex_world_def ex_walk_def ex_parser_def starts_with_def
  ends_with_def suffix_to_prefix has_fixture_decorator_def is_test_fn_def qual_name_def extract_args_from_arguments_def
  extract_injected_args_def extract_parametrized_args_def count_patch_decorators_def
  push_new_def make_fixture_def extract_scope_from_decorators_def extract_params_from_decorators_def
  file_at_def join_def is_absolute_def is_test_file_def extension_def file_name_def rsplit_dot_def
  read_to_string_def

section \<open>Claims\<close>

text \<open>C21: Parsing a module finds exactly the tests and fixtures its functions offer, in source order:
  the tests are the functions named \<^verbatim>\<open>test_...\<close> at the top level and in classes named
  \<^verbatim>\<open>Test...\<close>, with their qualified names, argument lists without self and cls, async flags and
  injected arguments; the fixtures are the decorated functions with their class; nothing else is found.\<close>

theorem analyze_suite_exact:
  assumes "analyze_suite suite source ([], []) = Some (ts, fs)"
  shows "let fns = concat (map offered suite); tests = filter is_test_fn fns in
     map tc_name ts = map (\<lambda>(c, f, b). qual_name c f) tests
     \<and> map tc_dependencies ts = map (\<lambda>(c, f, b). extract_args_from_arguments (fn_args f)) tests
     \<and> map tc_is_async ts = map (\<lambda>(c, f, b). b) tests
     \<and> map tc_parametrized_args ts = map (\<lambda>(c, f, b).
          extract_injected_args (fn_decorators f) (extract_args_from_arguments (fn_args f))) tests
     \<and> fs = fixtures_of fns"
proof -
  have ts: "tests_of source (concat (map offered suite)) = Some ts"
    and fs: "fs = fixtures_of (concat (map offered suite))"
    using assms by (auto simp: analyze_suite_extend extend_found_def)
  show ?thesis unfolding Let_def
    by (intro conjI tests_of_map [OF ts] fs) (auto dest: make_test_fields)
qed

theorem analyze_suite_exact_witness:
  "\<exists>ts fs. analyze_suite ex_suite ''src'' ([], []) = Some (ts, fs)
     \<and> map tc_name ts = [''TestA::test_m'', ''TestA::test_n'', ''test_top'']
     \<and> map tc_parametrized_args ts = [[], [], [''m'']] \<and> map fd_name fs = [''db'']"
proof -
  have "\<exists>ts fs. analyze_suite ex_suite ''src'' ([], []) = Some (ts, fs)"
    by (simp add: analyze_suite_extend extend_found_def tests_of_def make_test_def get_line_number_def
        str_slice_to_def is_char_boundary_def is_cont_byte_def disc_eval)
  then obtain ts fs where a: "analyze_suite ex_suite ''src'' ([], []) = Some (ts, fs)" by blast
  then show ?thesis
    using analyze_suite_exact [OF a] by (simp add: Let_def fixtures_of_def disc_eval)
qed

text \<open>Parsing panics exactly when some test function starts at an offset inside a multi-byte
  character; for an ASCII source it never does.\<close>

theorem analyze_suite_panics_iff:
  "analyze_suite suite source ([], []) = None \<longleftrightarrow>
     (\<exists>(c, f, b)\<in>set (concat (map offered suite)).
        starts_with (fn_name f) ''test_'' \<and> \<not> is_char_boundary source (min (fn_start f) (length source)))"
  by (force simp: analyze_suite_extend extend_found_def tests_of_def those_None make_test_def
      get_line_number_def str_slice_to_def is_test_fn_def)

text \<open>The arguments that decorators inject are the parametrized names and, when there are
  enough arguments, the first ones, one for each \<^verbatim>\<open>patch\<close> decorator that has no replacement; what
  is left of the arguments is what resolution treats as fixtures.\<close>

lemma extract_injected_args_set:
  "set (extract_injected_args ds func_args) =
     set (extract_parametrized_args ds) \<union>
     (if count_patch_decorators ds \<le> length func_args
      then set (take (count_patch_decorators ds) func_args) else {})
   \<and> prefix (extract_parametrized_args ds) (extract_injected_args ds func_args)"
  by (auto simp: extract_injected_args_def Let_def fold_push_new fold_push_new_prefix
      dest: in_set_takeD)

text \<open>The line number of a function is one more than the number of newlines before its start.\<close>

theorem get_line_number_counts:
  assumes "is_char_boundary (a @ b) (length a)"
  shows "get_line_number (a @ b) (length a) = Some (length (filter (\<lambda>c. c = CHR 0x0A) a) + 1)"
  using assms by (simp add: get_line_number_def str_slice_to_def)

theorem get_line_number_counts_witness:
  "get_line_number ([CHR 0x0A, CHR ''x'', CHR 0x0A] @ ''def'') 3 = Some 3"
  using get_line_number_counts [of "[CHR 0x0A, CHR ''x'', CHR 0x0A]" "''def''"]
  by (simp add: is_char_boundary_def is_cont_byte_def numeral_eq_Suc)

text \<open>A \<^verbatim>\<open>patch.object\<close> decorator is not recognised as a patch, whatever its arguments, so
  the mock argument it injects is treated as a fixture: the comments in the source list
  \<^verbatim>\<open>patch.object\<close> among the matched forms.\<close>

lemma patch_object_not_recognised:
  "\<not> is_patch_decorator (Call (Attribute (Name ''patch'') ''object'') as kws)
   \<and> extract_injected_args [Call (Attribute (Name ''patch'') ''object'') as kws] func_args = []"
  by (cases as)
     (simp_all add: extract_injected_args_def extract_parametrized_args_def count_patch_decorators_def
       starts_with_def)

text \<open>The JSON listing has one entry for each discovered test, in order, whose id is the file and
  the qualified name.\<close>

theorem json_tests_complete:
  "length (json_tests r) = test_count r
   \<and> map jt_id (json_tests r) =
       concat (map (\<lambda>m. map (\<lambda>t. path_text (tm_path m) @ ''::'' @ tc_name t) (tm_tests m)) (dr_modules r))"
  by (simp add: json_tests_def test_count_def length_concat map_concat comp_def Let_def)

text \<open>C22: Run from the project root, discovery returns exactly the modules of the walked test files
  that parse and hold a test or a fixture, each under its path relative to the root.\<close>

theorem discover_exact:
  assumes "discover walk pp w (w_cwd w) = Some r" and "is_absolute (w_cwd w)"
    and "\<forall>p. Inr p \<in> set (walk (w_cwd w)) \<longrightarrow>
           (\<exists>q. p = w_cwd w @ q \<and> list_all tail_comp_ok q)"
  shows "set (dr_modules r) =
     {m. \<exists>q. Inr (w_cwd w @ q) \<in> set (walk (w_cwd w)) \<and> is_test_file w (w_cwd w @ q)
         \<and> parse_module pp w q = Some (Inr m) \<and> tm_path m = q \<and> file_at w q = file_at w (w_cwd w @ q)
         \<and> (tm_tests m \<noteq> [] \<or> tm_fixtures m \<noteq> [])}"
proof -
  have paths: "q \<in> set (test_paths walk w (w_cwd w)) \<longleftrightarrow>
      Inr (w_cwd w @ q) \<in> set (walk (w_cwd w)) \<and> is_test_file w (w_cwd w @ q)" for q
    using assms(3)
    by (auto simp: test_paths_def strip_prefix_def result_ok_map_filter image_iff)
  have rel: "file_at w q = file_at w (w_cwd w @ q)" if "Inr (w_cwd w @ q) \<in> set (walk (w_cwd w))" for q
    using file_at_relative [OF assms(2)] assms(3) that by auto
  from assms(1) obtain ms where ms: "parse_modules pp w (test_paths walk w (w_cwd w)) = Some ms"
    and r: "dr_modules r = ms"
    by (auto simp: discover_def)
  show ?thesis
    unfolding r parse_modules_mem [OF ms]
    by (rule Collect_cong) (metis paths rel parse_module_path)
qed

theorem discover_exact_witness:
  "\<exists>r. discover ex_walk ex_parser ex_world (w_cwd ex_world) = Some r
     \<and> (\<forall>m. m \<in> set (dr_modules r) \<longrightarrow> tm_path m = [Normal ''test_x.py''])"
proof -
  have "test_paths ex_walk ex_world (w_cwd ex_world) = [[Normal ''test_x.py'']]"
    by (simp add: test_paths_def strip_prefix_def disc_eval List.map_filter_simps Let_def)
  then have "\<exists>r. discover ex_walk ex_parser ex_world (w_cwd ex_world) = Some r"
    by (auto simp: discover_def parse_module_def analyze_suite_extend extend_found_def tests_of_def
        make_test_def get_line_number_def str_slice_to_def is_char_boundary_def is_cont_byte_def
        byte_in_def disc_eval)
  then obtain r where r: "discover ex_walk ex_parser ex_world (w_cwd ex_world) = Some r" by blast
  have w: "\<forall>p. Inr p \<in> set (ex_walk (w_cwd ex_world)) \<longrightarrow>
      (\<exists>q. p = w_cwd ex_world @ q \<and> list_all tail_comp_ok q)"
    by (auto simp: ex_walk_def normal_ok_def)
  have a: "is_absolute (w_cwd ex_world)" by (simp add: disc_eval)
  have "\<forall>m. m \<in> set (dr_modules r) \<longrightarrow> tm_path m = [Normal ''test_x.py'']"
    unfolding discover_exact [OF r a w] by (auto simp: disc_eval)
  with r show ?thesis by blast
qed

end
