(* ===== verification/Resolver.thy ===== *)
theory Resolver
  imports Discovery
begin

text \<open>
  Fixture resolution (\<^verbatim>\<open>src/resolver.rs\<close>): the registry built from the discovered modules, the
  scoped lookup, and the depth-first resolution with cycle detection. The recursion of
  \<^verbatim>\<open>resolve_fixture\<close> is a total function: the fixtures that a lookup can find are finitely many
  and each recursive call puts one more of them on the recursion stack.
\<close>

section \<open>Types\<close>

record ResolvedFixture =
  rf_name :: string
  rf_source_file :: path
  rf_scope :: FixtureScope

record RunnableTest =
  rt_file_path :: path
  rt_test_name :: string
  rt_is_async :: bool
  rt_fixtures :: "ResolvedFixture list"

datatype ResolutionError =
    MissingFixture string string
  | CyclicDependency string "string list"

definition PYTEST_BUILTINS :: "string list" where
  "PYTEST_BUILTINS =
     [''monkeypatch'', ''tmp_path'', ''tmp_path_factory'', ''tmpdir'', ''tmpdir_factory'',
      ''capsys'', ''capfd'', ''capsysbinary'', ''capfdbinary'', ''caplog'', ''request'', ''cache'',
      ''record_property'', ''record_testsuite_property'', ''record_xml_attribute'',
      ''doctest_namespace'', ''recwarn'', ''pytestconfig'']"

definition is_builtin_fixture :: "string \<Rightarrow> bool" where
  "is_builtin_fixture name \<longleftrightarrow> name \<in> set PYTEST_BUILTINS"

section \<open>The registry\<close>

record FixtureRegistry =
  reg_global :: "(string, FixtureDefinition \<times> path) hashmap"
  reg_local :: "(path, (string, FixtureDefinition) hashmap) hashmap"
  reg_class_scoped :: "(path \<times> string, (string, FixtureDefinition) hashmap) hashmap"

definition is_conftest :: "TestModule \<Rightarrow> bool" where
  "is_conftest m = (case file_name (tm_path m) of None \<Rightarrow> False | Some n \<Rightarrow> n = ''conftest.py'')"

definition hm_entry_or_default :: "'k \<Rightarrow> ('k, ('a, 'b) hashmap) hashmap \<Rightarrow> ('a, 'b) hashmap" where
  "hm_entry_or_default k m = (case hm_get m k of None \<Rightarrow> [] | Some v \<Rightarrow> v)"

text \<open>One pass of the inner loop over the fixtures of a module; the second component of the state
  is the local variable \<^verbatim>\<open>module_fixtures\<close>.\<close>

definition add_fixture ::
  "TestModule \<Rightarrow> FixtureDefinition \<Rightarrow> FixtureRegistry \<times> (string, FixtureDefinition) hashmap
     \<Rightarrow> FixtureRegistry \<times> (string, FixtureDefinition) hashmap"
where
  "add_fixture m f = (\<lambda>(reg, module_fixtures).
     case fd_class_scope f of
       Some class_name \<Rightarrow>
         (let key = (tm_path m, class_name) in
          (reg\<lparr>reg_class_scoped :=
             hm_insert key (hm_insert (fd_name f) f (hm_entry_or_default key (reg_class_scoped reg)))
               (reg_class_scoped reg)\<rparr>, module_fixtures))
     | None \<Rightarrow>
         if is_conftest m
         then (reg\<lparr>reg_global := hm_insert (fd_name f) (f, tm_path m) (reg_global reg)\<rparr>, module_fixtures)
         else (reg, hm_insert (fd_name f) f module_fixtures))"

definition add_module :: "TestModule \<Rightarrow> FixtureRegistry \<Rightarrow> FixtureRegistry" where
  "add_module m reg =
     (let (reg', module_fixtures) = fold (add_fixture m) (tm_fixtures m) (reg, [])
      in if module_fixtures \<noteq> []
         then reg'\<lparr>reg_local := hm_insert (tm_path m) module_fixtures (reg_local reg')\<rparr>
         else reg')"

definition from_discovery :: "DiscoveryResult \<Rightarrow> FixtureRegistry" where
  "from_discovery result =
     fold add_module (dr_modules result) \<lparr>reg_global = [], reg_local = [], reg_class_scoped = []\<rparr>"

definition lookup_class ::
  "FixtureRegistry \<Rightarrow> string \<Rightarrow> path \<Rightarrow> string \<Rightarrow> FixtureDefinition option" where
  "lookup_class reg name module_path test_name =
     (let class_name = split_first ''::'' test_name in
      if starts_with class_name ''Test'' \<and> contains_str test_name ''::''
      then Option.bind (hm_get (reg_class_scoped reg) (module_path, class_name)) (\<lambda>fs. hm_get fs name)
      else None)"

definition lookup ::
  "FixtureRegistry \<Rightarrow> string \<Rightarrow> path \<Rightarrow> string \<Rightarrow> (FixtureDefinition \<times> path) option" where
  "lookup reg name module_path test_name =
     (case lookup_class reg name module_path test_name of
        Some f \<Rightarrow> Some (f, module_path)
      | None \<Rightarrow>
         (case Option.bind (hm_get (reg_local reg) module_path) (\<lambda>fs. hm_get fs name) of
            Some f \<Rightarrow> Some (f, module_path)
          | None \<Rightarrow> hm_get (reg_global reg) name))"

section \<open>Resolution\<close>

record rstate =
  st_resolved :: "ResolvedFixture list"
  st_visited :: "string set"
  st_stack :: "string list"

definition finish_fixture ::
  "string \<Rightarrow> FixtureDefinition \<Rightarrow> path \<Rightarrow> rstate \<Rightarrow> rstate" where
  "finish_fixture name fixture source_file st =
     st\<lparr>st_stack := butlast (st_stack st),
        st_visited := insert name (st_visited st),
        st_resolved := st_resolved st @
          [\<lparr>rf_name = name, rf_source_file = source_file, rf_scope = fd_scope fixture\<rparr>]\<rparr>"

function (sequential)
  resolve_fixture ::
    "FixtureRegistry \<Rightarrow> path \<Rightarrow> string \<Rightarrow> string \<Rightarrow> rstate \<Rightarrow> (ResolutionError, rstate) result"
and resolve_deps ::
    "FixtureRegistry \<Rightarrow> path \<Rightarrow> string \<Rightarrow> string list \<Rightarrow> rstate \<Rightarrow> (ResolutionError, rstate) result"
where
  "resolve_fixture reg module_path test_name name st =
     (if name \<in> st_visited st then Inr st
      else if name \<in> set (st_stack st) then Inl (CyclicDependency test_name (st_stack st @ [name]))
      else if is_builtin_fixture name then Inr (st\<lparr>st_visited := insert name (st_visited st)\<rparr>)
      else (case lookup reg name module_path test_name of
              None \<Rightarrow> Inl (MissingFixture test_name name)
            | Some (fixture, source_file) \<Rightarrow>
                (case resolve_deps reg module_path test_name (fd_dependencies fixture)
                        (st\<lparr>st_stack := st_stack st @ [name]\<rparr>) of
                   Inl e \<Rightarrow> Inl e
                 | Inr st' \<Rightarrow> Inr (finish_fixture name fixture source_file st'))))"
| "resolve_deps reg module_path test_name [] st = Inr st"
| "resolve_deps reg module_path test_name (d # ds) st =
     (case resolve_fixture reg module_path test_name d st of
        Inl e \<Rightarrow> Inl e
      | Inr st' \<Rightarrow> resolve_deps reg module_path test_name ds st')"
  by pat_completeness auto

subsection \<open>Termination\<close>

definition known :: "FixtureRegistry \<Rightarrow> path \<Rightarrow> string \<Rightarrow> string set" where
  "known reg module_path test_name = {n. lookup reg n module_path test_name \<noteq> None}"

lemma finite_known: "finite (known reg mp tn)"
proof -
  let ?c = "case hm_get (reg_class_scoped reg) (mp, split_first ''::'' tn) of None \<Rightarrow> [] | Some fs \<Rightarrow> fs"
  let ?l = "case hm_get (reg_local reg) mp of None \<Rightarrow> [] | Some fs \<Rightarrow> fs"
  have "known reg mp tn \<subseteq> dom (hm_get ?c) \<union> dom (hm_get ?l) \<union> dom (hm_get (reg_global reg))"
    by (auto simp: known_def lookup_def lookup_class_def Let_def
        split: option.splits if_splits)
  then show ?thesis
    by (rule finite_subset) (simp add: finite_dom_map_of)
qed

text \<open>A call that returns leaves the recursion stack as it found it.\<close>

lemma resolve_stack_dom:
  "resolve_fixture_resolve_deps_dom (Inl (reg, mp, tn, name, st)) \<Longrightarrow>
     resolve_fixture reg mp tn name st = Inr st1 \<Longrightarrow> st_stack st1 = st_stack st"
  "resolve_fixture_resolve_deps_dom (Inr (reg, mp, tn, ds, st)) \<Longrightarrow>
     resolve_deps reg mp tn ds st = Inr st1 \<Longrightarrow> st_stack st1 = st_stack st"
proof (induction reg mp tn name st and reg mp tn ds st arbitrary: st1 and st1
       rule: resolve_fixture_resolve_deps.pinduct)
  case (1 reg mp tn name st)
  note eq = "1.prems" [unfolded resolve_fixture.psimps [OF "1.hyps"]]
  show ?case
  proof (cases "name \<in> st_visited st \<or> name \<in> set (st_stack st) \<or> is_builtin_fixture name")
    case True
    with eq show ?thesis by (auto split: if_splits)
  next
    case False
    with eq obtain f p where l: "lookup reg name mp tn = Some (f, p)"
      by (cases "lookup reg name mp tn") (simp_all, metis surj_pair)
    let ?r = "resolve_deps reg mp tn (fd_dependencies f) (st\<lparr>st_stack := st_stack st @ [name]\<rparr>)"
    have "(case ?r of Inl e \<Rightarrow> Inl e | Inr st' \<Rightarrow> Inr (finish_fixture name f p st')) = Inr st1"
      using eq False l by simp
    then obtain st' where d: "?r = Inr st'" and st1: "st1 = finish_fixture name f p st'"
      by (auto split: sum.splits)
    have "st_stack st' = st_stack st @ [name]"
      using "1.IH" [OF _ _ _ l refl d] False by auto
    with st1 show ?thesis by (simp add: finish_fixture_def)
  qed
next
  case (2 reg mp tn st)
  then show ?case by (simp add: resolve_deps.psimps)
next
  case (3 reg mp tn d ds st)
  note eq = "3.prems" [unfolded resolve_deps.psimps(2) [OF "3.hyps"]]
  then obtain st' where f: "resolve_fixture reg mp tn d st = Inr st'"
    and r: "resolve_deps reg mp tn ds st' = Inr st1"
    by (auto split: sum.splits)
  from "3.IH"(1) [OF f] "3.IH"(2) [OF f r] show ?case by simp
qed

definition resolve_measure ::
  "(FixtureRegistry \<times> path \<times> string \<times> string \<times> rstate)
     + (FixtureRegistry \<times> path \<times> string \<times> string list \<times> rstate) \<Rightarrow> nat \<times> nat" where
  "resolve_measure x =
     (case x of
        Inl (reg, mp, tn, name, st) \<Rightarrow> (card (known reg mp tn - set (st_stack st)), 0)
      | Inr (reg, mp, tn, ds, st) \<Rightarrow> (card (known reg mp tn - set (st_stack st)), length ds))"

lemma known_push:
  assumes "lookup reg name mp tn = Some y" and "name \<notin> set stk"
  shows "card (known reg mp tn - set (stk @ [name])) < card (known reg mp tn - set stk)"
proof (rule psubset_card_mono)
  show "finite (known reg mp tn - set stk)" using finite_known by blast
  show "known reg mp tn - set (stk @ [name]) \<subset> known reg mp tn - set stk"
    using assms by (auto simp: known_def)
qed

termination resolve_fixture
proof (relation "inv_image (less_than <*lex*> less_than) resolve_measure", goal_cases)
  case 1
  show ?case by auto
next
  case (2 reg mp tn name st y fixture source_file)
  then show ?case using known_push [of reg name mp tn "(fixture, source_file)" "st_stack st"]
    by (simp add: resolve_measure_def)
next
  case (3 reg mp tn d ds st)
  then show ?case by (simp add: resolve_measure_def)
next
  case (4 reg mp tn d ds st st')
  then have "st_stack st' = st_stack st" by (simp add: resolve_stack_dom(1))
  then show ?case by (simp add: resolve_measure_def)
qed

declare resolve_fixture.simps [simp del]

lemmas resolve_induct = resolve_fixture_resolve_deps.induct

text \<open>The ways a call can end, as inversion rules for the proofs below.\<close>

lemma resolve_fixture_InrE:
  assumes "resolve_fixture reg mp tn name st = Inr st1"
  obtains (visited) "name \<in> st_visited st" "st1 = st"
  | (builtin) "name \<notin> st_visited st" "name \<notin> set (st_stack st)" "is_builtin_fixture name"
      "st1 = st\<lparr>st_visited := insert name (st_visited st)\<rparr>"
  | (user) f p st' where "name \<notin> st_visited st" "name \<notin> set (st_stack st)" "\<not> is_builtin_fixture name"
      "lookup reg name mp tn = Some (f, p)"
      "resolve_deps reg mp tn (fd_dependencies f) (st\<lparr>st_stack := st_stack st @ [name]\<rparr>) = Inr st'"
      "st1 = finish_fixture name f p st'"
  using assms
  by (subst (asm) resolve_fixture.simps) (auto split: if_splits option.splits sum.splits)

lemma resolve_fixture_InlE:
  assumes "resolve_fixture reg mp tn name st = Inl e"
  obtains (cyclic) "name \<notin> st_visited st" "name \<in> set (st_stack st)"
      "e = CyclicDependency tn (st_stack st @ [name])"
  | (missing) "name \<notin> st_visited st" "name \<notin> set (st_stack st)" "\<not> is_builtin_fixture name"
      "lookup reg name mp tn = None" "e = MissingFixture tn name"
  | (deps) f p where "name \<notin> st_visited st" "name \<notin> set (st_stack st)" "\<not> is_builtin_fixture name"
      "lookup reg name mp tn = Some (f, p)"
      "resolve_deps reg mp tn (fd_dependencies f) (st\<lparr>st_stack := st_stack st @ [name]\<rparr>) = Inl e"
  using assms
  by (subst (asm) resolve_fixture.simps) (auto split: if_splits option.splits sum.splits)

lemma resolve_stack:
  "resolve_fixture reg mp tn name st = Inr st1 \<Longrightarrow> st_stack st1 = st_stack st"
  "resolve_deps reg mp tn ds st = Inr st1 \<Longrightarrow> st_stack st1 = st_stack st"
proof (induction reg mp tn name st and reg mp tn ds st arbitrary: st1 and st1 rule: resolve_induct)
  case (1 reg mp tn name st)
  from "1.prems" show ?case
  proof (cases rule: resolve_fixture_InrE)
    case (user f p st')
    with "1.IH" [OF user(1,2,3,4) refl user(5)] show ?thesis by (simp add: finish_fixture_def)
  qed simp_all
next
  case (2 reg mp tn st)
  then show ?case by simp
next
  case (3 reg mp tn d ds st)
  from "3.prems" obtain st' where f: "resolve_fixture reg mp tn d st = Inr st'"
    and r: "resolve_deps reg mp tn ds st' = Inr st1"
    by (auto split: sum.splits)
  from "3.IH"(1) [OF f] "3.IH"(2) [OF f r] show ?case by simp
qed

section \<open>Tests\<close>

text \<open>The loop over the direct dependencies of a test, without its parametrized arguments.\<close>

definition resolve_test ::
  "FixtureRegistry \<Rightarrow> TestCase \<Rightarrow> path \<Rightarrow> (ResolutionError, RunnableTest) result" where
  "resolve_test reg test module_path =
     and_then
       (resolve_deps reg module_path (tc_name test)
          (filter (\<lambda>d. d \<notin> set (tc_parametrized_args test)) (tc_dependencies test))
          \<lparr>st_resolved = [], st_visited = {}, st_stack = []\<rparr>)
       (\<lambda>st. Inr \<lparr>rt_file_path = module_path, rt_test_name = tc_name test,
                   rt_is_async = tc_is_async test, rt_fixtures = st_resolved st\<rparr>)"

definition push_outcome ::
  "FixtureRegistry \<Rightarrow> path \<Rightarrow> TestCase \<Rightarrow> RunnableTest list \<times> ResolutionError list
     \<Rightarrow> RunnableTest list \<times> ResolutionError list" where
  "push_outcome reg module_path test = (\<lambda>(runnable, errors).
     case resolve_test reg test module_path of
       Inr resolved \<Rightarrow> (runnable @ [resolved], errors)
     | Inl e \<Rightarrow> (runnable, errors @ [e]))"

definition resolve_all ::
  "FixtureRegistry \<Rightarrow> DiscoveryResult \<Rightarrow> RunnableTest list \<times> ResolutionError list" where
  "resolve_all reg result =
     fold (\<lambda>m. fold (push_outcome reg (tm_path m)) (tm_tests m)) (dr_modules result) ([], [])"

section \<open>Specification: the dependency graph\<close>

text \<open>An edge leads from a fixture that is looked up to each of its arguments; the fixtures a test
  needs are those reachable from its own arguments.\<close>

definition dep_edge :: "FixtureRegistry \<Rightarrow> path \<Rightarrow> string \<Rightarrow> string \<Rightarrow> string \<Rightarrow> bool" where
  "dep_edge reg mp tn a b \<longleftrightarrow>
     \<not> is_builtin_fixture a \<and>
     (\<exists>f p. lookup reg a mp tn = Some (f, p) \<and> b \<in> set (fd_dependencies f))"

definition needed :: "FixtureRegistry \<Rightarrow> path \<Rightarrow> string \<Rightarrow> string list \<Rightarrow> string set" where
  "needed reg mp tn roots = {b. \<exists>a\<in>set roots. (dep_edge reg mp tn)\<^sup>*\<^sup>* a b}"

definition direct_deps :: "TestCase \<Rightarrow> string list" where
  "direct_deps test = filter (\<lambda>d. d \<notin> set (tc_parametrized_args test)) (tc_dependencies test)"

definition entry_ok :: "FixtureRegistry \<Rightarrow> path \<Rightarrow> string \<Rightarrow> ResolvedFixture \<Rightarrow> bool" where
  "entry_ok reg mp tn rf \<longleftrightarrow>
     \<not> is_builtin_fixture (rf_name rf) \<and>
     (\<exists>f. lookup reg (rf_name rf) mp tn = Some (f, rf_source_file rf) \<and> rf_scope rf = fd_scope f)"

text \<open>Dependencies first: whatever an entry depends on is a builtin or stands before it.\<close>

definition topo_sorted :: "FixtureRegistry \<Rightarrow> path \<Rightarrow> string \<Rightarrow> ResolvedFixture list \<Rightarrow> bool" where
  "topo_sorted reg mp tn rs \<longleftrightarrow>
     (\<forall>i<length rs. \<forall>d. dep_edge reg mp tn (rf_name (rs ! i)) d \<longrightarrow>
        is_builtin_fixture d \<or> d \<in> rf_name ` set (take i rs))"

definition error_ok :: "FixtureRegistry \<Rightarrow> path \<Rightarrow> string \<Rightarrow> string list \<Rightarrow> ResolutionError \<Rightarrow> bool" where
  "error_ok reg mp tn roots e \<longleftrightarrow>
     (case e of
        MissingFixture t n \<Rightarrow>
          t = tn \<and> n \<in> needed reg mp tn roots \<and> \<not> is_builtin_fixture n \<and> lookup reg n mp tn = None
      | CyclicDependency t c \<Rightarrow>
          t = tn \<and> c \<noteq> [] \<and> hd c \<in> set roots \<and> successively (dep_edge reg mp tn) c
            \<and> last c \<in> set (butlast c))"

section \<open>The invariant of the search\<close>

definition search_inv :: "FixtureRegistry \<Rightarrow> path \<Rightarrow> string \<Rightarrow> rstate \<Rightarrow> bool" where
  "search_inv reg mp tn st \<longleftrightarrow>
     distinct (map rf_name (st_resolved st)) \<and>
     list_all (entry_ok reg mp tn) (st_resolved st) \<and>
     topo_sorted reg mp tn (st_resolved st) \<and>
     rf_name ` set (st_resolved st) \<subseteq> st_visited st \<and>
     (\<forall>v\<in>st_visited st. is_builtin_fixture v \<or> v \<in> rf_name ` set (st_resolved st)) \<and>
     set (st_stack st) \<inter> st_visited st = {}"

definition explored ::
  "FixtureRegistry \<Rightarrow> path \<Rightarrow> string \<Rightarrow> string list \<Rightarrow> rstate \<Rightarrow> rstate \<Rightarrow> bool" where
  "explored reg mp tn roots st st1 \<longleftrightarrow>
     set roots \<subseteq> st_visited st1 \<and> st_visited st \<subseteq> st_visited st1 \<and>
     st_visited st1 \<subseteq> st_visited st \<union> needed reg mp tn roots \<and> st_stack st1 = st_stack st"

lemma topo_sorted_snoc:
  "topo_sorted reg mp tn (rs @ [x]) \<longleftrightarrow>
     topo_sorted reg mp tn rs \<and>
     (\<forall>d. dep_edge reg mp tn (rf_name x) d \<longrightarrow> is_builtin_fixture d \<or> d \<in> rf_name ` set rs)"
  by (auto simp: topo_sorted_def nth_append less_Suc_eq)

lemma needed_root: "set roots \<subseteq> needed reg mp tn roots"
  by (auto simp: needed_def)

lemma needed_mono: "set a \<subseteq> set b \<Longrightarrow> needed reg mp tn a \<subseteq> needed reg mp tn b"
  by (auto simp: needed_def)

lemma needed_step:
  "dep_edge reg mp tn a b \<Longrightarrow> a \<in> needed reg mp tn roots \<Longrightarrow> b \<in> needed reg mp tn roots"
  by (auto simp: needed_def intro: rtranclp.rtrancl_into_rtrancl)

lemma needed_deps:
  assumes "lookup reg name mp tn = Some (f, p)" and "\<not> is_builtin_fixture name"
  shows "needed reg mp tn (fd_dependencies f) \<subseteq> needed reg mp tn [name]"
  using assms by (auto simp: needed_def dep_edge_def intro: converse_rtranclp_into_rtranclp)

lemma search_inv_push:
  "search_inv reg mp tn st \<Longrightarrow> name \<notin> st_visited st \<Longrightarrow>
     search_inv reg mp tn (st\<lparr>st_stack := st_stack st @ [name]\<rparr>)"
  by (auto simp: search_inv_def)

lemma search_inv_builtin:
  "search_inv reg mp tn st \<Longrightarrow> name \<notin> set (st_stack st) \<Longrightarrow> is_builtin_fixture name \<Longrightarrow>
     search_inv reg mp tn (st\<lparr>st_visited := insert name (st_visited st)\<rparr>)"
  by (auto simp: search_inv_def)

lemma search_inv_finish:
  assumes inv: "search_inv reg mp tn st'"
    and stk: "st_stack st' = stk @ [name]" and new: "name \<notin> set stk"
    and l: "lookup reg name mp tn = Some (f, p)" and nb: "\<not> is_builtin_fixture name"
    and deps: "set (fd_dependencies f) \<subseteq> st_visited st'"
  shows "search_inv reg mp tn (finish_fixture name f p st')"
proof -
  have "name \<notin> st_visited st'" using inv stk by (auto simp: search_inv_def)
  then have "name \<notin> rf_name ` set (st_resolved st')" using inv by (auto simp: search_inv_def)
  moreover have "\<forall>d. dep_edge reg mp tn name d \<longrightarrow>
      is_builtin_fixture d \<or> d \<in> rf_name ` set (st_resolved st')"
    using inv l deps by (auto simp: search_inv_def dep_edge_def)
  ultimately show ?thesis
    using inv stk new l nb
    by (auto simp: search_inv_def finish_fixture_def topo_sorted_snoc entry_ok_def)
qed

lemma resolve_explores:
  "search_inv reg mp tn st \<Longrightarrow> resolve_fixture reg mp tn name st = Inr st1 \<Longrightarrow>
     search_inv reg mp tn st1 \<and> explored reg mp tn [name] st st1"
  "search_inv reg mp tn st \<Longrightarrow> resolve_deps reg mp tn ds st = Inr st1 \<Longrightarrow>
     search_inv reg mp tn st1 \<and> explored reg mp tn ds st st1"
proof (induction reg mp tn name st and reg mp tn ds st arbitrary: st1 and st1 rule: resolve_induct)
  case (1 reg mp tn name st)
  from "1.prems"(2) show ?case
  proof (cases rule: resolve_fixture_InrE)
    case visited
    with "1.prems" show ?thesis by (simp add: explored_def)
  next
    case builtin
    with "1.prems" needed_root [of "[name]" reg mp tn] show ?thesis
      by (auto simp: explored_def intro: search_inv_builtin)
  next
    case (user f p st')
    let ?st = "st\<lparr>st_stack := st_stack st @ [name]\<rparr>"
    have inv: "search_inv reg mp tn ?st" using "1.prems"(1) user(1) by (rule search_inv_push)
    have IH: "search_inv reg mp tn st' \<and> explored reg mp tn (fd_dependencies f) ?st st'"
      using "1.IH" [OF user(1,2,3,4) refl inv user(5)] .
    then have stk: "st_stack st' = st_stack st @ [name]" and deps: "set (fd_dependencies f) \<subseteq> st_visited st'"
      by (auto simp: explored_def)
    have "search_inv reg mp tn st1"
      unfolding user(6) using IH stk user(2,3,4) deps by (blast intro: search_inv_finish)
    moreover have "explored reg mp tn [name] st st1"
      unfolding user(6) using IH stk needed_deps [OF user(4,3)] needed_root [of "[name]" reg mp tn]
      by (auto simp: explored_def finish_fixture_def)
    ultimately show ?thesis by blast
  qed
next
  case (2 reg mp tn st)
  then show ?case by (simp add: explored_def)
next
  case (3 reg mp tn d ds st)
  from "3.prems"(2) obtain st' where f: "resolve_fixture reg mp tn d st = Inr st'"
    and r: "resolve_deps reg mp tn ds st' = Inr st1"
    by (auto split: sum.splits)
  have a: "search_inv reg mp tn st' \<and> explored reg mp tn [d] st st'"
    using "3.IH"(1) [OF "3.prems"(1) f] .
  then have "search_inv reg mp tn st1 \<and> explored reg mp tn ds st' st1"
    using "3.IH"(2) [OF f _ r] by blast
  moreover have "needed reg mp tn [d] \<subseteq> needed reg mp tn (d # ds)"
    and "needed reg mp tn ds \<subseteq> needed reg mp tn (d # ds)"
    by (auto intro!: needed_mono)
  ultimately show ?case using a unfolding explored_def by (simp, blast)
qed

text \<open>The names on the recursion stack, followed by the one being resolved, are a path of the
  graph that starts at an argument of the test.\<close>

definition on_path :: "FixtureRegistry \<Rightarrow> path \<Rightarrow> string \<Rightarrow> string list \<Rightarrow> string list \<Rightarrow> string \<Rightarrow> bool" where
  "on_path reg mp tn roots stk name \<longleftrightarrow>
     successively (dep_edge reg mp tn) (stk @ [name]) \<and> hd (stk @ [name]) \<in> set roots"

lemma successively_rtranclp:
  "successively R (x # xs) \<Longrightarrow> R\<^sup>*\<^sup>* x (last (x # xs))"
  by (induction xs arbitrary: x) (auto simp: successively_Cons intro: converse_rtranclp_into_rtranclp)

lemma on_path_needed: "on_path reg mp tn roots stk name \<Longrightarrow> name \<in> needed reg mp tn roots"
  using successively_rtranclp [of "dep_edge reg mp tn" "hd (stk @ [name])" "tl (stk @ [name])"]
  by (auto simp: on_path_def needed_def)

lemma on_path_push:
  assumes "on_path reg mp tn roots stk name" and "lookup reg name mp tn = Some (f, p)"
    and "\<not> is_builtin_fixture name" and "d \<in> set (fd_dependencies f)"
  shows "on_path reg mp tn roots (stk @ [name]) d"
proof -
  have "dep_edge reg mp tn name d" using assms by (auto simp: dep_edge_def)
  with assms(1) have "successively (dep_edge reg mp tn) ((stk @ [name]) @ [d])"
    unfolding on_path_def by (subst successively_append_iff) simp
  with assms(1) show ?thesis by (cases stk) (simp_all add: on_path_def)
qed

lemma resolve_error:
  "on_path reg mp tn roots (st_stack st) name \<Longrightarrow> resolve_fixture reg mp tn name st = Inl e \<Longrightarrow>
     error_ok reg mp tn roots e"
  "\<forall>d\<in>set ds. on_path reg mp tn roots (st_stack st) d \<Longrightarrow> resolve_deps reg mp tn ds st = Inl e \<Longrightarrow>
     error_ok reg mp tn roots e"
proof (induction reg mp tn name st and reg mp tn ds st rule: resolve_induct)
  case (1 reg mp tn name st)
  from "1.prems"(2) show ?case
  proof (cases rule: resolve_fixture_InlE)
    case cyclic
    with "1.prems"(1) show ?thesis by (auto simp: error_ok_def on_path_def)
  next
    case missing
    with on_path_needed [OF "1.prems"(1)] show ?thesis by (simp add: error_ok_def)
  next
    case (deps f p)
    have "\<forall>d\<in>set (fd_dependencies f). on_path reg mp tn roots (st_stack st @ [name]) d"
      using on_path_push [OF "1.prems"(1) deps(4,3)] by blast
    then show ?thesis using "1.IH" [OF deps(1,2,3,4) refl] deps(5) by simp
  qed
next
  case (2 reg mp tn st)
  then show ?case by simp
next
  case (3 reg mp tn d ds st)
  show ?case
  proof (cases "resolve_fixture reg mp tn d st")
    case (Inl e')
    with "3.prems" have "e' = e" by simp
    with Inl "3.prems"(1) "3.IH"(1) show ?thesis by simp
  next
    case (Inr st')
    from Inr have "st_stack st' = st_stack st" by (rule resolve_stack(1))
    with Inr "3.prems" "3.IH"(2) [OF Inr] show ?thesis by simp
  qed
qed

section \<open>What the registry holds\<close>

text \<open>The definitions a lookup may return, in the order of discovery, and the last one that
  satisfies a predicate.\<close>

fun last_such :: "('a \<Rightarrow> bool) \<Rightarrow> 'a list \<Rightarrow> 'a option" where
  "last_such P [] = None"
| "last_such P (x # xs) =
     (case last_such P xs of Some y \<Rightarrow> Some y | None \<Rightarrow> if P x then Some x else None)"

definition class_defs :: "TestModule list \<Rightarrow> path \<Rightarrow> string \<Rightarrow> FixtureDefinition list" where
  "class_defs ms mp c =
     concat (map (\<lambda>m. filter (\<lambda>f. tm_path m = mp \<and> fd_class_scope f = Some c) (tm_fixtures m)) ms)"

definition local_defs :: "TestModule list \<Rightarrow> path \<Rightarrow> FixtureDefinition list" where
  "local_defs ms mp =
     concat (map (\<lambda>m. filter (\<lambda>f. tm_path m = mp \<and> \<not> is_conftest m \<and> fd_class_scope f = None)
       (tm_fixtures m)) ms)"

definition global_defs :: "TestModule list \<Rightarrow> (FixtureDefinition \<times> path) list" where
  "global_defs ms =
     concat (map (\<lambda>m. map (\<lambda>f. (f, tm_path m))
       (filter (\<lambda>f. is_conftest m \<and> fd_class_scope f = None) (tm_fixtures m))) ms)"

lemma last_such_append:
  "last_such P (xs @ ys) = (case last_such P ys of Some y \<Rightarrow> Some y | None \<Rightarrow> last_such P xs)"
  by (induction xs) (auto split: option.splits)

lemma last_such_None: "last_such P xs = None \<longleftrightarrow> (\<forall>x\<in>set xs. \<not> P x)"
  by (induction xs) (auto split: option.splits)

text \<open>What each of the three tables answers.\<close>

definition class_get :: "FixtureRegistry \<Rightarrow> path \<Rightarrow> string \<Rightarrow> string \<Rightarrow> FixtureDefinition option" where
  "class_get reg mp c n = Option.bind (hm_get (reg_class_scoped reg) (mp, c)) (\<lambda>fs. hm_get fs n)"

definition local_get :: "FixtureRegistry \<Rightarrow> path \<Rightarrow> string \<Rightarrow> FixtureDefinition option" where
  "local_get reg mp n = Option.bind (hm_get (reg_local reg) mp) (\<lambda>fs. hm_get fs n)"

lemma add_fixture_class:
  "class_get (fst (add_fixture m f (reg, mf))) mp c n =
     (if tm_path m = mp \<and> fd_class_scope f = Some c \<and> fd_name f = n then Some f
      else class_get reg mp c n)"
  by (auto simp: add_fixture_def class_get_def Let_def update_conv' hm_entry_or_default_def
      split: option.splits)

lemma add_fixture_fold_class:
  "class_get (fst (fold (add_fixture m) fs (reg, mf))) mp c n =
     (case last_such (\<lambda>f. fd_name f = n) (filter (\<lambda>f. tm_path m = mp \<and> fd_class_scope f = Some c) fs) of
        Some f \<Rightarrow> Some f | None \<Rightarrow> class_get reg mp c n)"
proof (induction fs arbitrary: reg mf)
  case (Cons f fs)
  obtain reg' mf' where a: "add_fixture m f (reg, mf) = (reg', mf')" by fastforce
  show ?case
    using Cons [of reg' mf'] add_fixture_class [of m f reg mf mp c n] a
    by (auto split: option.splits)
qed simp

lemma add_module_class:
  "class_get (add_module m reg) mp c n =
     (case last_such (\<lambda>f. fd_name f = n)
        (filter (\<lambda>f. tm_path m = mp \<and> fd_class_scope f = Some c) (tm_fixtures m)) of
        Some f \<Rightarrow> Some f | None \<Rightarrow> class_get reg mp c n)"
proof -
  obtain reg' mf' where a: "fold (add_fixture m) (tm_fixtures m) (reg, []) = (reg', mf')" by fastforce
  have "class_get (add_module m reg) mp c n = class_get reg' mp c n"
    by (simp add: add_module_def a class_get_def)
  with add_fixture_fold_class [of m "tm_fixtures m" reg "[]" mp c n] a show ?thesis by simp
qed

lemma fold_module_class:
  "class_get (fold add_module ms reg) mp c n =
     (case last_such (\<lambda>f. fd_name f = n) (class_defs ms mp c) of
        Some f \<Rightarrow> Some f | None \<Rightarrow> class_get reg mp c n)"
  by (induction ms arbitrary: reg)
     (simp_all add: class_defs_def add_module_class last_such_append split: option.splits)

lemma add_fixture_fold_global:
  "hm_get (reg_global (fst (fold (add_fixture m) fs (reg, mf)))) n =
     (case last_such (\<lambda>fp. fd_name (fst fp) = n)
        (map (\<lambda>f. (f, tm_path m)) (filter (\<lambda>f. is_conftest m \<and> fd_class_scope f = None) fs)) of
        Some fp \<Rightarrow> Some fp | None \<Rightarrow> hm_get (reg_global reg) n)"
proof (induction fs arbitrary: reg mf)
  case (Cons f fs)
  obtain reg' mf' where a: "add_fixture m f (reg, mf) = (reg', mf')" by fastforce
  then have "hm_get (reg_global reg') n =
      (if is_conftest m \<and> fd_class_scope f = None \<and> fd_name f = n then Some (f, tm_path m)
       else hm_get (reg_global reg) n)"
    by (auto simp: add_fixture_def Let_def update_conv' split: option.splits if_splits)
  with Cons [of reg' mf'] a show ?case by (auto split: option.splits)
qed simp

lemma add_module_global:
  "hm_get (reg_global (add_module m reg)) n =
     (case last_such (\<lambda>fp. fd_name (fst fp) = n)
        (map (\<lambda>f. (f, tm_path m))
          (filter (\<lambda>f. is_conftest m \<and> fd_class_scope f = None) (tm_fixtures m))) of
        Some fp \<Rightarrow> Some fp | None \<Rightarrow> hm_get (reg_global reg) n)"
proof -
  obtain reg' mf' where a: "fold (add_fixture m) (tm_fixtures m) (reg, []) = (reg', mf')" by fastforce
  have "reg_global (add_module m reg) = reg_global reg'" by (simp add: add_module_def a)
  with add_fixture_fold_global [of m "tm_fixtures m" reg "[]" n] a show ?thesis by simp
qed

lemma fold_module_global:
  "hm_get (reg_global (fold add_module ms reg)) n =
     (case last_such (\<lambda>fp. fd_name (fst fp) = n) (global_defs ms) of
        Some fp \<Rightarrow> Some fp | None \<Rightarrow> hm_get (reg_global reg) n)"
  by (induction ms arbitrary: reg)
     (simp_all add: global_defs_def add_module_global last_such_append split: option.splits)

lemma add_fixture_fold_local:
  "reg_local (fst (fold (add_fixture m) fs (reg, mf))) = reg_local reg \<and>
   hm_get (snd (fold (add_fixture m) fs (reg, mf))) n =
     (case last_such (\<lambda>f. fd_name f = n)
        (filter (\<lambda>f. \<not> is_conftest m \<and> fd_class_scope f = None) fs) of
        Some f \<Rightarrow> Some f | None \<Rightarrow> hm_get mf n)"
proof (induction fs arbitrary: reg mf)
  case (Cons f fs)
  obtain reg' mf' where a: "add_fixture m f (reg, mf) = (reg', mf')" by fastforce
  then have "reg_local reg' = reg_local reg \<and> hm_get mf' n =
      (if \<not> is_conftest m \<and> fd_class_scope f = None \<and> fd_name f = n then Some f else hm_get mf n)"
    by (auto simp: add_fixture_def Let_def update_conv' split: option.splits if_splits)
  with Cons [of reg' mf'] a show ?case by (auto split: option.splits)
qed simp

lemma add_module_local:
  assumes "tm_path m = mp \<Longrightarrow> local_get reg mp n = None"
  shows "local_get (add_module m reg) mp n =
     (case last_such (\<lambda>f. fd_name f = n)
        (filter (\<lambda>f. tm_path m = mp \<and> \<not> is_conftest m \<and> fd_class_scope f = None) (tm_fixtures m)) of
        Some f \<Rightarrow> Some f | None \<Rightarrow> local_get reg mp n)"
proof -
  obtain reg' mf' where a: "fold (add_fixture m) (tm_fixtures m) (reg, []) = (reg', mf')" by fastforce
  have l: "reg_local reg' = reg_local reg" and g: "hm_get mf' n = last_such (\<lambda>f. fd_name f = n)
        (filter (\<lambda>f. \<not> is_conftest m \<and> fd_class_scope f = None) (tm_fixtures m))"
    using add_fixture_fold_local [of m "tm_fixtures m" reg "[]" n] a by (auto split: option.splits)
  show ?thesis
  proof (cases "tm_path m = mp")
    case True
    with assms l g show ?thesis
      by (cases "mf' = []") (auto simp: add_module_def a local_get_def update_conv' split: option.splits)
  next
    case False
    with l show ?thesis by (simp add: add_module_def a local_get_def update_conv')
  qed
qed

lemma fold_module_local:
  "distinct (map tm_path ms) \<Longrightarrow> (\<forall>m\<in>set ms. tm_path m = mp \<longrightarrow> local_get reg mp n = None) \<Longrightarrow>
   local_get (fold add_module ms reg) mp n =
     (case last_such (\<lambda>f. fd_name f = n) (local_defs ms mp) of
        Some f \<Rightarrow> Some f | None \<Rightarrow> local_get reg mp n)"
proof (induction ms arbitrary: reg)
  case (Cons m ms)
  have m: "local_get (add_module m reg) mp n =
     (case last_such (\<lambda>f. fd_name f = n)
        (filter (\<lambda>f. tm_path m = mp \<and> \<not> is_conftest m \<and> fd_class_scope f = None) (tm_fixtures m)) of
        Some f \<Rightarrow> Some f | None \<Rightarrow> local_get reg mp n)"
    using Cons.prems(2) by (intro add_module_local) simp
  have "\<forall>m'\<in>set ms. tm_path m' = mp \<longrightarrow> local_get (add_module m reg) mp n = None"
  proof (intro ballI impI)
    fix m' assume "m' \<in> set ms" and mp: "tm_path m' = mp"
    with Cons.prems(1) have "tm_path m \<noteq> mp" by auto
    with m have "local_get (add_module m reg) mp n = local_get reg mp n" by simp
    also have "\<dots> = None" using Cons.prems(2) \<open>m' \<in> set ms\<close> mp by auto
    finally show "local_get (add_module m reg) mp n = None" .
  qed
  with Cons.IH [of "add_module m reg"] Cons.prems(1) m show ?case
    by (simp add: local_defs_def last_such_append split: option.splits)
qed (simp add: local_defs_def)

text \<open>The lookup, over the discovered definitions: the class of the test first, then its module,
  then every conftest file, the last definition winning at each level.\<close>

definition spec_lookup ::
  "TestModule list \<Rightarrow> string \<Rightarrow> path \<Rightarrow> string \<Rightarrow> (FixtureDefinition \<times> path) option" where
  "spec_lookup ms name mp tn =
     (let c = split_first ''::'' tn;
          in_class = (if starts_with c ''Test'' \<and> sublist ''::'' tn
                      then last_such (\<lambda>f. fd_name f = name) (class_defs ms mp c) else None)
      in case in_class of
           Some f \<Rightarrow> Some (f, mp)
         | None \<Rightarrow> (case last_such (\<lambda>f. fd_name f = name) (local_defs ms mp) of
                      Some f \<Rightarrow> Some (f, mp)
                    | None \<Rightarrow> last_such (\<lambda>fp. fd_name (fst fp) = name) (global_defs ms)))"

lemma lookup_from_discovery:
  assumes "distinct (map tm_path (dr_modules r))"
  shows "lookup (from_discovery r) name mp tn = spec_lookup (dr_modules r) name mp tn"
proof -
  let ?e = "\<lparr>reg_global = [], reg_local = [], reg_class_scoped = []\<rparr> :: FixtureRegistry"
  have "class_get ?e mp c name = None" "local_get ?e mp name = None" "hm_get (reg_global ?e) name = None" for c
    by (simp_all add: class_get_def local_get_def)
  then show ?thesis
    using fold_module_local [OF assms, of mp ?e name]
      fold_module_class [of "dr_modules r" ?e mp "split_first ''::'' tn" name]
      fold_module_global [of "dr_modules r" ?e name]
    by (simp add: spec_lookup_def lookup_def lookup_class_def from_discovery_def Let_def
        contains_str_iff class_get_def [symmetric] local_get_def [symmetric] split: option.splits)
qed

section \<open>Properties of resolution\<close>

lemma search_inv_init: "search_inv reg mp tn \<lparr>st_resolved = [], st_visited = {}, st_stack = []\<rparr>"
  by (simp add: search_inv_def topo_sorted_def)

lemma resolve_test_InrE:
  assumes "resolve_test reg test mp = Inr rt"
  obtains st where "search_inv reg mp (tc_name test) st"
    and "explored reg mp (tc_name test) (direct_deps test) \<lparr>st_resolved = [], st_visited = {}, st_stack = []\<rparr> st"
    and "rt = \<lparr>rt_file_path = mp, rt_test_name = tc_name test, rt_is_async = tc_is_async test,
               rt_fixtures = st_resolved st\<rparr>"
proof -
  from assms obtain st where r: "resolve_deps reg mp (tc_name test) (direct_deps test)
      \<lparr>st_resolved = [], st_visited = {}, st_stack = []\<rparr> = Inr st"
    and rt: "rt = \<lparr>rt_file_path = mp, rt_test_name = tc_name test, rt_is_async = tc_is_async test,
               rt_fixtures = st_resolved st\<rparr>"
    by (auto simp: resolve_test_def direct_deps_def result_simps)
  from resolve_explores(2) [OF search_inv_init r] rt that show ?thesis by blast
qed

lemma resolve_test_InlD:
  assumes "resolve_test reg test mp = Inl e"
  shows "error_ok reg mp (tc_name test) (direct_deps test) e"
proof -
  have "resolve_deps reg mp (tc_name test) (direct_deps test)
          \<lparr>st_resolved = [], st_visited = {}, st_stack = []\<rparr> = Inl e"
    using assms by (simp add: resolve_test_def direct_deps_def result_simps)
  then show ?thesis
    by (rule resolve_error(2) [rotated]) (simp add: on_path_def)
qed

lemma fixtures_eq_needed:
  assumes "search_inv reg mp tn st"
    and "explored reg mp tn roots \<lparr>st_resolved = [], st_visited = {}, st_stack = []\<rparr> st"
  shows "rf_name ` set (st_resolved st) = {n \<in> needed reg mp tn roots. \<not> is_builtin_fixture n}"
proof
  show "rf_name ` set (st_resolved st) \<subseteq> {n \<in> needed reg mp tn roots. \<not> is_builtin_fixture n}"
    using assms by (auto simp: search_inv_def explored_def list_all_iff entry_ok_def)
  have "n \<in> rf_name ` set (st_resolved st) \<or> is_builtin_fixture n"
    if "(dep_edge reg mp tn)\<^sup>*\<^sup>* a n" and "a \<in> set roots" for a n
    using that
  proof (induction rule: rtranclp_induct)
    case base
    with assms show ?case by (auto simp: search_inv_def explored_def)
  next
    case (step y z)
    then have y: "y \<in> rf_name ` set (st_resolved st)" by (auto simp: dep_edge_def)
    then obtain i where i: "i < length (st_resolved st)" "y = rf_name (st_resolved st ! i)"
      by (auto simp: in_set_conv_nth)
    with step(2) assms(1) have "is_builtin_fixture z \<or> z \<in> rf_name ` set (take i (st_resolved st))"
      by (auto simp: search_inv_def topo_sorted_def)
    then show ?case by (auto dest: in_set_takeD)
  qed
  then show "{n \<in> needed reg mp tn roots. \<not> is_builtin_fixture n} \<subseteq> rf_name ` set (st_resolved st)"
    by (auto simp: needed_def)
qed

text \<open>In a list sorted in dependency order an edge goes to an earlier position, so there is no
  cycle through its names.\<close>

lemma topo_edge_earlier:
  assumes t: "topo_sorted reg mp tn rs" and d: "distinct (map rf_name rs)"
    and e: "(dep_edge reg mp tn)\<^sup>+\<^sup>+ (rf_name (rs ! i)) n" and i: "i < length rs"
  shows "is_builtin_fixture n \<or> (\<exists>j<i. n = rf_name (rs ! j))"
  using e i
proof (induction rule: tranclp_induct)
  case (base y)
  with t show ?case by (fastforce simp: topo_sorted_def in_set_conv_nth)
next
  case (step y z)
  then obtain j where j: "j < i" "y = rf_name (rs ! j)" by (auto simp: dep_edge_def)
  with step t have "is_builtin_fixture z \<or> z \<in> rf_name ` set (take j rs)"
    by (auto simp: topo_sorted_def)
  with j(1) show ?case using step.prems by (auto simp: in_set_conv_nth) (metis order.strict_trans)
qed

lemma topo_acyclic:
  assumes t: "topo_sorted reg mp tn rs" and d: "distinct (map rf_name rs)"
    and n: "n \<in> rf_name ` set rs" and nb: "\<not> is_builtin_fixture n"
  shows "\<not> (dep_edge reg mp tn)\<^sup>+\<^sup>+ n n"
proof
  assume c: "(dep_edge reg mp tn)\<^sup>+\<^sup>+ n n"
  obtain i where i: "i < length rs" "n = rf_name (rs ! i)" using n by (auto simp: in_set_conv_nth)
  with topo_edge_earlier [OF t d, of i n] c nb obtain j where "j < i" "n = rf_name (rs ! j)" by auto
  with i d show False by (auto simp: distinct_conv_nth)
qed

lemma successively_tranclp:
  "successively R xs \<Longrightarrow> i < j \<Longrightarrow> j < length xs \<Longrightarrow> R\<^sup>+\<^sup>+ (xs ! i) (xs ! j)"
proof (induction j)
  case (Suc j)
  have e: "R (xs ! j) (xs ! Suc j)" using Suc.prems by (simp add: successively_conv_nth)
  show ?case
  proof (cases "i = j")
    case True
    with e show ?thesis by blast
  next
    case False
    with Suc e show ?thesis by (simp add: tranclp.trancl_into_trancl)
  qed
qed simp

lemma cycle_tranclp:
  assumes "successively R c" and "last c \<in> set (butlast c)"
  shows "R\<^sup>+\<^sup>+ (last c) (last c)"
proof -
  obtain i where i: "i < length (butlast c)" "butlast c ! i = last c"
    using assms(2) by (auto simp: in_set_conv_nth)
  then have "c \<noteq> []" "i < length c - 1" "c ! i = last c" by (auto simp: nth_butlast)
  with successively_tranclp [OF assms(1), of i "length c - 1"] show ?thesis
    by (simp add: last_conv_nth)
qed

lemma cycle_needed:
  assumes "successively (dep_edge reg mp tn) c" and "c \<noteq> []" and "hd c \<in> set roots"
  shows "last c \<in> needed reg mp tn roots"
  using assms successively_rtranclp [of "dep_edge reg mp tn" "hd c" "tl c"]
  by (auto simp: needed_def)

text \<open>A small project for the witnesses: a conftest file with a chain of fixtures, a test module
  with an override, a class fixture, a missing fixture and a cycle.\<close>

definition fx :: "string \<Rightarrow> string list \<Rightarrow> string option \<Rightarrow> FixtureDefinition" where
  "fx n ds c = \<lparr>fd_name = n, fd_scope = Function, fd_dependencies = ds, fd_params = None, fd_class_scope = c\<rparr>"

definition tc :: "string \<Rightarrow> string list \<Rightarrow> TestCase" where
  "tc n ds = \<lparr>tc_name = n, tc_dependencies = ds, tc_is_async = False, tc_line_number = 1,
              tc_parametrized_args = [''p'']\<rparr>"

definition ex_conftest :: TestModule where
  "ex_conftest = \<lparr>tm_path = [Normal ''conftest.py''], tm_tests = [],
     tm_fixtures = [fx ''base'' [] None, fx ''db'' [''base'', ''tmp_path''] None,
                    fx ''a'' [''b''] None, fx ''b'' [''a''] None]\<rparr>"

definition ex_module :: TestModule where
  "ex_module = \<lparr>tm_path = [Normal ''test_x.py''],
     tm_tests = [tc ''test_ok'' [''db'', ''p'', ''base''], tc ''test_cycle'' [''a''],
                 tc ''test_missing'' [''nope''], tc ''TestC::test_m'' [''db'']],
     tm_fixtures = [fx ''base'' [] (Some ''TestC''), fx ''local'' [] None]\<rparr>"

definition ex_result :: DiscoveryResult where
  "ex_result = \<lparr>dr_modules = [ex_conftest, ex_module]\<rparr>"

lemmas ex_defs = ex_result_def ex_module_def ex_conftest_def fx_def tc_def

definition ex_registry :: FixtureRegistry where
  "ex_registry =
     \<lparr>reg_global = [(''base'', fx ''base'' [] None, [Normal ''conftest.py'']),
        (''db'', fx ''db'' [''base'', ''tmp_path''] None, [Normal ''conftest.py'']),
        (''a'', fx ''a'' [''b''] None, [Normal ''conftest.py'']),
        (''b'', fx ''b'' [''a''] None, [Normal ''conftest.py''])],
      reg_local = [([Normal ''test_x.py''], [(''local'', fx ''local'' [] None)])],
      reg_class_scoped =
        [(([Normal ''test_x.py''], ''TestC''), [(''base'', fx ''base'' [] (Some ''TestC''))])]\<rparr>"

lemma from_discovery_ex: "from_discovery ex_result = ex_registry"
  by (simp add: from_discovery_def ex_defs ex_registry_def add_module_def add_fixture_def
      is_conftest_def file_name_def hm_entry_or_default_def)

lemmas ex_eval = ex_registry_def fx_def tc_def lookup_def lookup_class_def split_first_def
  starts_with_def contains_str_def is_builtin_fixture_def PYTEST_BUILTINS_def finish_fixture_def
  resolve_fixture.simps resolve_test_def direct_deps_def

lemma resolve_ex_ok:
  "resolve_test ex_registry (tc ''test_ok'' [''db'', ''p'', ''base'']) [Normal ''test_x.py''] =
     Inr \<lparr>rt_file_path = [Normal ''test_x.py''], rt_test_name = ''test_ok'', rt_is_async = False,
          rt_fixtures = [\<lparr>rf_name = ''base'', rf_source_file = [Normal ''conftest.py''], rf_scope = Function\<rparr>,
                         \<lparr>rf_name = ''db'', rf_source_file = [Normal ''conftest.py''], rf_scope = Function\<rparr>]\<rparr>"
  by (simp add: ex_eval)

lemma resolve_ex_cycle:
  "resolve_test ex_registry (tc ''test_cycle'' [''a'']) [Normal ''test_x.py''] =
     Inl (CyclicDependency ''test_cycle'' [''a'', ''b'', ''a''])"
  by (simp add: ex_eval)

text \<open>All tests with the path of their module, in the order of discovery.\<close>

definition all_tests :: "DiscoveryResult \<Rightarrow> (path \<times> TestCase) list" where
  "all_tests r = concat (map (\<lambda>m. map (\<lambda>t. (tm_path m, t)) (tm_tests m)) (dr_modules r))"

lemma fold_push_outcome:
  "fold (push_outcome reg mp) ts (rs, es) =
     (rs @ List.map_filter (\<lambda>t. result_ok (resolve_test reg t mp)) ts,
      es @ List.map_filter (\<lambda>t. case resolve_test reg t mp of Inl e \<Rightarrow> Some e | Inr _ \<Rightarrow> None) ts)"
  by (induction ts arbitrary: rs es)
     (auto simp: push_outcome_def List.map_filter_simps split: sum.splits)

lemma fold_modules_outcome:
  "fold (\<lambda>m. fold (push_outcome reg (tm_path m)) (tm_tests m)) ms (rs, es) =
     (let ts = concat (map (\<lambda>m. map (\<lambda>t. (tm_path m, t)) (tm_tests m)) ms) in
      (rs @ List.map_filter (\<lambda>(mp, t). result_ok (resolve_test reg t mp)) ts,
       es @ List.map_filter (\<lambda>(mp, t). case resolve_test reg t mp of Inl e \<Rightarrow> Some e | Inr _ \<Rightarrow> None) ts))"
  by (induction ms arbitrary: rs es)
     (simp_all add: fold_push_outcome Let_def map_filter_append map_filter_map comp_def
        List.map_filter_simps)

lemma length_map_filter_partition:
  "(\<And>x. x \<in> set xs \<Longrightarrow> f x = None \<longleftrightarrow> g x \<noteq> None) \<Longrightarrow>
     length (List.map_filter f xs) + length (List.map_filter g xs) = length xs"
  by (induction xs) (force simp: List.map_filter_simps split: option.splits)+

lemma length_all_tests: "length (all_tests r) = test_count r"
  by (simp add: all_tests_def test_count_def length_concat comp_def)

section \<open>Claims\<close>

text \<open>C8: A test that resolves gets its fixtures in dependency order: every entry is the definition
  the scoped lookup finds for its name, with its source file and scope, and whatever an entry
  depends on is a pytest builtin or stands before it.\<close>

theorem resolve_test_topological:
  assumes "resolve_test reg test mp = Inr rt"
  shows "topo_sorted reg mp (tc_name test) (rt_fixtures rt)
    \<and> list_all (entry_ok reg mp (tc_name test)) (rt_fixtures rt)
    \<and> rt_file_path rt = mp \<and> rt_test_name rt = tc_name test \<and> rt_is_async rt = tc_is_async test"
proof -
  from assms obtain st where "search_inv reg mp (tc_name test) st"
    and "rt = \<lparr>rt_file_path = mp, rt_test_name = tc_name test, rt_is_async = tc_is_async test,
               rt_fixtures = st_resolved st\<rparr>"
    by (rule resolve_test_InrE)
  then show ?thesis by (simp add: search_inv_def)
qed

theorem resolve_test_topological_witness:
  "\<exists>rt. resolve_test ex_registry (tc ''test_ok'' [''db'', ''p'', ''base'']) [Normal ''test_x.py''] = Inr rt
     \<and> topo_sorted ex_registry [Normal ''test_x.py''] ''test_ok'' (rt_fixtures rt)
     \<and> map rf_name (rt_fixtures rt) = [''base'', ''db'']"
  using resolve_test_topological [OF resolve_ex_ok] resolve_ex_ok by (auto simp: tc_def)



text \<open>C9: Every resolution error is true: a missing fixture is reachable from the test, is no
  builtin and has no definition in scope; a reported cycle is a path of the dependency graph that
  starts at an argument of the test and whose last name occurs on it before.\<close>

theorem resolve_test_error_sound:
  assumes "resolve_test reg test mp = Inl e"
  shows "error_ok reg mp (tc_name test) (direct_deps test) e"
  using assms by (rule resolve_test_InlD)

theorem resolve_test_error_sound_witness:
  "error_ok ex_registry [Normal ''test_x.py''] ''test_cycle'' [''a'']
     (CyclicDependency ''test_cycle'' [''a'', ''b'', ''a''])"
  using resolve_test_error_sound [OF resolve_ex_cycle] by (simp add: tc_def direct_deps_def)

lemma resolved_needed_ok:
  assumes "resolve_test reg test mp = Inr rt" and need: "n \<in> needed reg mp (tc_name test) (direct_deps test)"
  shows "\<not> is_builtin_fixture n \<Longrightarrow> lookup reg n mp (tc_name test) \<noteq> None"
    and "\<not> (dep_edge reg mp (tc_name test))\<^sup>+\<^sup>+ n n"
proof -
  from assms(1) obtain st where inv: "search_inv reg mp (tc_name test) st"
    and ex: "explored reg mp (tc_name test) (direct_deps test) \<lparr>st_resolved = [], st_visited = {}, st_stack = []\<rparr> st"
    by (rule resolve_test_InrE)
  note names = fixtures_eq_needed [OF inv ex]
  show "lookup reg n mp (tc_name test) \<noteq> None" if "\<not> is_builtin_fixture n"
  proof -
    from that need names obtain rf where "rf \<in> set (st_resolved st)" "n = rf_name rf" by blast
    with inv show ?thesis by (auto simp: search_inv_def list_all_iff entry_ok_def)
  qed
  show "\<not> (dep_edge reg mp (tc_name test))\<^sup>+\<^sup>+ n n"
  proof (cases "is_builtin_fixture n")
    case True
    then show ?thesis by (auto simp: dep_edge_def dest: tranclpD)
  next
    case False
    with need names inv show ?thesis
      by (intro topo_acyclic [of _ _ _ "st_resolved st"]) (auto simp: search_inv_def)
  qed
qed

lemma error_needed:
  assumes "resolve_test reg test mp = Inl e"
  shows "\<exists>n\<in>needed reg mp (tc_name test) (direct_deps test).
     (\<not> is_builtin_fixture n \<and> lookup reg n mp (tc_name test) = None) \<or> (dep_edge reg mp (tc_name test))\<^sup>+\<^sup>+ n n"
proof -
  have ok: "error_ok reg mp (tc_name test) (direct_deps test) e" using assms by (rule resolve_test_InlD)
  show ?thesis
  proof (cases e)
    case (MissingFixture t n)
    with ok show ?thesis by (auto simp: error_ok_def)
  next
    case (CyclicDependency t c)
    with ok have "last c \<in> needed reg mp (tc_name test) (direct_deps test)"
        "(dep_edge reg mp (tc_name test))\<^sup>+\<^sup>+ (last c) (last c)"
      by (simp_all add: error_ok_def cycle_needed cycle_tranclp)
    then show ?thesis by blast
  qed
qed

text \<open>C6: Resolution succeeds exactly when every non-builtin fixture reachable from the test has a
  definition in scope and no reachable fixture depends on itself.\<close>

theorem resolve_test_succeeds_iff:
  "(\<exists>rt. resolve_test reg test mp = Inr rt) \<longleftrightarrow>
     (let need = needed reg mp (tc_name test) (direct_deps test) in
      (\<forall>n. n \<in> need \<and> \<not> is_builtin_fixture n \<longrightarrow> lookup reg n mp (tc_name test) \<noteq> None) \<and>
      (\<forall>n. n \<in> need \<longrightarrow> \<not> (dep_edge reg mp (tc_name test))\<^sup>+\<^sup>+ n n))"
  (is "?ok \<longleftrightarrow> ?spec")
proof
  assume ?ok
  then show ?spec using resolved_needed_ok by (auto simp: Let_def)
next
  assume ?spec
  then show ?ok using error_needed [of reg test mp] by (cases "resolve_test reg test mp") (auto simp: Let_def)
qed

theorem resolve_test_succeeds_iff_witness:
  "{n \<in> needed ex_registry [Normal ''test_x.py''] ''test_ok'' [''db'', ''base''].
      \<not> is_builtin_fixture n \<and> lookup ex_registry n [Normal ''test_x.py''] ''test_ok'' = None} = {} \<and>
   {n \<in> needed ex_registry [Normal ''test_x.py''] ''test_ok'' [''db'', ''base''].
      (dep_edge ex_registry [Normal ''test_x.py''] ''test_ok'')\<^sup>+\<^sup>+ n n} = {}"
proof -
  have deps: "direct_deps (tc ''test_ok'' [''db'', ''p'', ''base'']) = [''db'', ''base'']"
    and nm: "tc_name (tc ''test_ok'' [''db'', ''p'', ''base'']) = ''test_ok''"
    by (simp_all add: tc_def direct_deps_def)
  show ?thesis
    using resolve_test_succeeds_iff [THEN iffD1, OF exI, OF resolve_ex_ok]
    unfolding Let_def deps nm by blast
qed

lemma resolve_all_runnable:
  "fst (resolve_all reg r) = List.map_filter (\<lambda>(mp, t). result_ok (resolve_test reg t mp)) (all_tests r)"
  by (simp add: resolve_all_def fold_modules_outcome all_tests_def Let_def)

text \<open>\<^verbatim>\<open>resolve_all\<close> sorts the tests of all modules into runnable tests and errors, each list in
  the order of discovery, and loses none: the two lengths add up to the number of tests.\<close>

lemma resolve_all_partition:
  "resolve_all reg r =
     (List.map_filter (\<lambda>(mp, t). result_ok (resolve_test reg t mp)) (all_tests r),
      List.map_filter (\<lambda>(mp, t). case resolve_test reg t mp of Inl e \<Rightarrow> Some e | Inr _ \<Rightarrow> None) (all_tests r))
   \<and> length (fst (resolve_all reg r)) + length (snd (resolve_all reg r)) = test_count r"
proof -
  have "resolve_all reg r =
     (List.map_filter (\<lambda>(mp, t). result_ok (resolve_test reg t mp)) (all_tests r),
      List.map_filter (\<lambda>(mp, t). case resolve_test reg t mp of Inl e \<Rightarrow> Some e | Inr _ \<Rightarrow> None) (all_tests r))"
    by (simp add: resolve_all_def fold_modules_outcome all_tests_def Let_def)
  moreover have "length (List.map_filter (\<lambda>(mp, t). result_ok (resolve_test reg t mp)) (all_tests r))
      + length (List.map_filter (\<lambda>(mp, t). case resolve_test reg t mp of Inl e \<Rightarrow> Some e | Inr _ \<Rightarrow> None) (all_tests r))
      = length (all_tests r)"
    by (rule length_map_filter_partition) (auto split: sum.splits)
  ultimately show ?thesis by (simp add: length_all_tests)
qed

text \<open>C10: The registry built from a discovery with distinct module paths answers a lookup as the
  specification does: the class of the test first, then its module, then the conftest files, with
  the last discovered definition of a name winning at each level.\<close>

theorem lookup_from_discovery_spec:
  assumes "distinct (map tm_path (dr_modules r))"
  shows "lookup (from_discovery r) name mp tn = spec_lookup (dr_modules r) name mp tn"
  using assms by (rule lookup_from_discovery)

theorem lookup_from_discovery_spec_witness:
  "lookup (from_discovery ex_result) ''base'' [Normal ''test_x.py''] ''TestC::test_m''
     = Some (fx ''base'' [] (Some ''TestC''), [Normal ''test_x.py''])
   \<and> spec_lookup [ex_conftest, ex_module] ''base'' [Normal ''test_x.py''] ''test_ok''
     = Some (fx ''base'' [] None, [Normal ''conftest.py''])"
proof -
  have d: "distinct (map tm_path (dr_modules ex_result))" by (simp add: ex_defs)
  show ?thesis
    using lookup_from_discovery_spec [OF d, of "''base''" "[Normal ''test_x.py'']" "''test_ok''"]
    by (simp add: from_discovery_ex) (simp add: ex_eval ex_defs)
qed

end
