(* ===== verification/Protocol.thy ===== *)
theory Protocol
  imports Rust_Str Sockets Discovery
begin

text \<open>
  The binary protocol between supervisor, zygote and workers (\<^verbatim>\<open>protocol.rs\<close>): command bytes,
  payloads and results, and the length-prefixed encoding. \<^verbatim>\<open>bincode\<close> is not part of the repository:
  its serializer and deserializer are parameters. \<^verbatim>\<open>duration_ms\<close>, a floating point conversion for
  display, is left out.
\<close>

section \<open>Constants and messages\<close>

definition CMD_EXIT :: u8 where "CMD_EXIT = 0x00"
definition CMD_FORK :: u8 where "CMD_FORK = 0x01"
definition MSG_READY :: u8 where "MSG_READY = 0x42"

definition STATUS_PASS :: u8 where "STATUS_PASS = 0"
definition STATUS_FAIL :: u8 where "STATUS_FAIL = 1"
definition STATUS_SKIP :: u8 where "STATUS_SKIP = 2"
definition STATUS_CRASH :: u8 where "STATUS_CRASH = 3"
definition STATUS_ERROR :: u8 where "STATUS_ERROR = 4"
definition STATUS_HARNESS_ERROR :: u8 where "STATUS_HARNESS_ERROR = 5"

lemmas cmd_defs = CMD_EXIT_def CMD_FORK_def MSG_READY_def

lemmas status_defs = STATUS_PASS_def STATUS_FAIL_def STATUS_SKIP_def STATUS_CRASH_def
  STATUS_ERROR_def STATUS_HARNESS_ERROR_def

record FixtureInfo =
  fi_name :: string
  fi_scope :: string

record TestPayload =
  tp_test_id :: u32
  tp_file_path :: string
  tp_test_name :: string
  tp_is_async :: bool
  tp_fixtures :: "FixtureInfo list"
  tp_log_fd :: int
  tp_debug_socket_path :: string

record TestResult =
  tr_test_id :: u32
  tr_status :: u8
  tr_duration_ns :: u64
  tr_message :: string

fun scope_text :: "FixtureScope \<Rightarrow> string" where
  "scope_text Function = ''function''"
| "scope_text Class = ''class''"
| "scope_text Module = ''module''"
| "scope_text Session = ''session''"

definition from_scope :: "string \<Rightarrow> FixtureScope \<Rightarrow> FixtureInfo" where
  "from_scope name scope = \<lparr>fi_name = name, fi_scope = scope_text scope\<rparr>"

text \<open>\<^const>\<open>None\<close> is the panic of a slice that cuts a multi-byte character.\<close>

definition truncate_message :: "string \<Rightarrow> string option" where
  "truncate_message msg =
     (if length msg > 4096
      then map_option (\<lambda>p. p @ ''... [truncated]'') (str_slice_to msg 4096)
      else Some msg)"

definition pass_result :: "u32 \<Rightarrow> u64 \<Rightarrow> TestResult" where
  "pass_result test_id duration_ns =
     \<lparr>tr_test_id = test_id, tr_status = STATUS_PASS, tr_duration_ns = duration_ns, tr_message = []\<rparr>"

definition fail_result :: "u32 \<Rightarrow> u64 \<Rightarrow> string \<Rightarrow> TestResult option" where
  "fail_result test_id duration_ns message =
     map_option (\<lambda>m. \<lparr>tr_test_id = test_id, tr_status = STATUS_FAIL, tr_duration_ns = duration_ns,
                      tr_message = m\<rparr>) (truncate_message message)"

definition crash_result :: "u32 \<Rightarrow> TestResult" where
  "crash_result test_id =
     \<lparr>tr_test_id = test_id, tr_status = STATUS_CRASH, tr_duration_ns = 0,
      tr_message = ''Worker crashed (EOF on socket)''\<rparr>"

definition status_str :: "TestResult \<Rightarrow> string" where
  "status_str r =
     (if tr_status r = STATUS_PASS then ''PASS''
      else if tr_status r = STATUS_FAIL then ''FAIL''
      else if tr_status r = STATUS_SKIP then ''SKIP''
      else if tr_status r = STATUS_CRASH then ''CRASH''
      else if tr_status r = STATUS_ERROR then ''ERROR''
      else if tr_status r = STATUS_HARNESS_ERROR then ''HARNESS_ERROR''
      else ''UNKNOWN'')"

text \<open>The icons are given by their UTF-8 bytes.\<close>

definition status_icon :: "TestResult \<Rightarrow> string" where
  "status_icon r =
     (if tr_status r = STATUS_PASS then [CHR 0xE2, CHR 0x9C, CHR 0x93]
      else if tr_status r = STATUS_FAIL then [CHR 0xE2, CHR 0x9C, CHR 0x97]
      else if tr_status r = STATUS_SKIP then [CHR 0xE2, CHR 0x97, CHR 0x8B]
      else if tr_status r = STATUS_CRASH then [CHR 0xF0, CHR 0x9F, CHR 0x92, CHR 0xA5]
      else if tr_status r = STATUS_ERROR then ''!''
      else if tr_status r = STATUS_HARNESS_ERROR then [CHR 0xE2, CHR 0x9A, CHR 0xA0]
      else ''?'')"

text \<open>\<^const>\<open>None\<close> is an error of the serializer.\<close>

definition encode_with_length :: "('a \<Rightarrow> u8 list option) \<Rightarrow> 'a \<Rightarrow> u8 list option" where
  "encode_with_length ser value =
     map_option (\<lambda>payload. u32_to_le (of_nat (length payload)) @ payload) (ser value)"

section \<open>Streams of frames\<close>

text \<open>
  The interface of a framing: decoding an encoded message that is short enough gives the message
  and leaves the rest of the stream. A stream of frames then decodes to the messages in order.
\<close>

fun decode_n :: "('s \<Rightarrow> 'a option \<times> 's) \<Rightarrow> nat \<Rightarrow> 's \<Rightarrow> 'a list \<times> 's" where
  "decode_n d 0 s = ([], s)"
| "decode_n d (Suc n) s =
     (case d s of
        (None, s') \<Rightarrow> ([], s')
      | (Some m, s') \<Rightarrow> (let (ms, s'') = decode_n d n s' in (m # ms, s'')))"

locale framing =
  fixes enc :: "'m \<Rightarrow> 'b list"
    and dec :: "'b list \<Rightarrow> 'm option \<times> 'b list"
    and fits :: "'m \<Rightarrow> bool"
  assumes dec_enc: "fits m \<Longrightarrow> dec (enc m @ s) = (Some m, s)"
begin

lemma decode_stream:
  "list_all fits ms \<Longrightarrow> decode_n dec (length ms) (concat (map enc ms) @ s) = (ms, s)"
  by (induction ms) (simp_all add: dec_enc)

lemma enc_inj: "fits a \<Longrightarrow> fits b \<Longrightarrow> enc a @ s = enc b @ t \<Longrightarrow> a = b \<and> s = t"
  by (metis dec_enc option.inject prod.inject)

end

definition enc_frame :: "u8 list \<Rightarrow> rd_item list" where
  "enc_frame payload = map Byte (frame payload)"

interpretation fr: framing enc_frame read_frame "\<lambda>p. length p < 2 ^ 32"
  by unfold_locales (simp add: enc_frame_def read_frame_frame)

lemma read_exact_take:
  "n \<le> length bs \<Longrightarrow> read_exact n (map Byte bs @ s) = (Some (take n bs), map Byte (drop n bs) @ s)"
  by (metis append.assoc append_take_drop_id length_take map_append min.absorb2 read_exact_bytes)

lemma read_frame_any:
  "read_frame (map Byte (frame p) @ s) =
     (Some (take (length p mod 2 ^ 32) p), map Byte (drop (length p mod 2 ^ 32) p) @ s)"
proof -
  have "read_exact 4 (map Byte (frame p) @ s) =
      (Some (u32_to_le (of_nat (length p))), map Byte p @ s)"
    using read_exact_bytes [of "u32_to_le (of_nat (length p))" "map Byte p @ s"]
    by (simp add: frame_def)
  then show ?thesis
    by (simp add: read_frame_def unat_of_nat read_exact_take)
qed

lemma read_frame_cut:
  assumes "length bs < length (frame p)" and "prefix bs (frame p)" and "length p < 2 ^ 32"
  shows "read_frame (map Byte bs) = (None, [])"
proof (cases "length bs < 4")
  case True
  then show ?thesis by (simp add: read_frame_def read_exact_short)
next
  case False
  from assms(2) obtain r where "frame p = bs @ r" by (auto elim: prefixE)
  then have bs: "bs = take (length bs) (frame p)" by simp
  define q where "q = take (length bs - 4) p"
  have "bs = u32_to_le (of_nat (length p)) @ q"
    using False by (subst bs) (simp add: frame_def q_def)
  moreover have "length q < length p" using assms(1) False by (simp add: q_def frame_def)
  ultimately show ?thesis using assms(3)
    using read_exact_bytes [of "u32_to_le (of_nat (length p))" "map Byte q"]
    by (simp add: read_frame_def unat_of_nat_u32 read_exact_short)
qed

section \<open>Properties\<close>

text \<open>C24: Messages encoded with their length prefix arrive in order and unchanged: reading as many
  frames as were written from the concatenated encodings gives the serialized payloads, and leaves
  whatever follows on the stream.\<close>

theorem encode_with_length_stream:
  assumes "list_all (\<lambda>v. \<exists>p. ser v = Some p \<and> length p < 2 ^ 32) vs"
  shows "decode_n read_frame (length vs)
           (concat (map (\<lambda>v. map Byte (the (encode_with_length ser v))) vs) @ rest)
         = (map (\<lambda>v. the (ser v)) vs, rest)"
proof -
  have "map (\<lambda>v. map Byte (the (encode_with_length ser v))) vs = map enc_frame (map (\<lambda>v. the (ser v)) vs)"
    using assms by (induction vs) (auto simp: encode_with_length_def enc_frame_def frame_def)
  moreover have "list_all (\<lambda>p. length p < 2 ^ 32) (map (\<lambda>v. the (ser v)) vs)"
    using assms by (induction vs) auto
  ultimately show ?thesis
    using fr.decode_stream [of "map (\<lambda>v. the (ser v)) vs" rest] by (metis length_map)
qed

theorem encode_with_length_stream_witness:
  "decode_n read_frame 2
     (concat (map (\<lambda>v. map Byte (the (encode_with_length (\<lambda>w. Some [w, w]) v))) [7, 9]) @ [Timeout])
   = ([[7, 7], [9, 9]], [Timeout])"
  using encode_with_length_stream [of "\<lambda>w. Some [w, w]" "[7, 9 :: u8]" "[Timeout]"]
  by (simp del: decode_n.simps add: numeral_2_eq_2 [symmetric])

text \<open>The length prefix has 32 bits: the reader of an encoded message gets as many bytes of the
  payload as its length modulo two to the power of 32 says, the whole payload when it is shorter
  than that, and the next read starts inside the payload otherwise.\<close>

lemma encode_with_length_wraps:
  assumes "ser v = Some p"
  shows "\<exists>bs. encode_with_length ser v = Some bs \<and> length bs = 4 + length p \<and>
     read_frame (map Byte bs @ rest) =
       (Some (take (length p mod 2 ^ 32) p), map Byte (drop (length p mod 2 ^ 32) p) @ rest)"
  using assms read_frame_any [of p rest] by (simp add: encode_with_length_def frame_def)

text \<open>A message cut short by the end of the stream is never taken for a complete one: the
  reader gets an error and consumes what was there.\<close>

lemma encode_with_length_cut:
  assumes "encode_with_length ser v = Some bs" and "length bs < 2 ^ 32" and "n < length bs"
  shows "read_frame (map Byte (take n bs)) = (None, [])"
proof -
  from assms(1) obtain p where p: "bs = frame p" by (auto simp: encode_with_length_def frame_def)
  have "length p < 2 ^ 32" using assms(2) by (simp add: p frame_def)
  then show ?thesis using assms(3) take_is_prefix by (intro read_frame_cut [of _ p]) (auto simp: p)
qed



end
