(* ===== verification/Logcapture.thy ===== *)
theory Logcapture
  imports Rust_Str Prelude
begin

text \<open>
  Capture of the workers' output (\<^verbatim>\<open>logcapture.rs\<close>) in memory files, one per worker slot.

  The part of the kernel the code uses is modelled explicitly: a process has a table from file
  descriptors to open files; an open file has its bytes and one position that all descriptors
  made from it by \<^verbatim>\<open>dup\<close>, \<^verbatim>\<open>dup2\<close> and \<^verbatim>\<open>fork\<close> share. Which numbers the kernel hands out and which
  calls fail is input, as lists of coming outcomes. Two processes share the open files and have
  tables of their own. The buffering mode set with \<^verbatim>\<open>setvbuf\<close> has no effect in the model.
\<close>

section \<open>Files and descriptors\<close>

record memfile =
  mf_data :: string
  mf_pos :: nat

record os =
  os_fds :: "int \<Rightarrow> nat option"
  os_files :: "nat \<Rightarrow> memfile"
  os_next :: nat
  os_memfd :: "int list"
  os_dup :: "int list"
  os_trunc_fail :: "bool list"
  os_dup2_ok :: "int \<Rightarrow> bool"

definition NUL :: char where "NUL = CHR 0x00"

definition resize :: "nat \<Rightarrow> string \<Rightarrow> string" where
  "resize n d = take n d @ replicate (n - length d) NUL"

definition sys_memfd_create :: "os \<Rightarrow> int \<times> os" where
  "sys_memfd_create s =
     (case os_memfd s of
        [] \<Rightarrow> (- 1, s)
      | fd # fds \<Rightarrow>
          if fd < 0 then (fd, s\<lparr>os_memfd := fds\<rparr>)
          else (fd, s\<lparr>os_memfd := fds, os_fds := (os_fds s)(fd \<mapsto> os_next s),
                      os_files := (os_files s)(os_next s := \<lparr>mf_data = [], mf_pos = 0\<rparr>),
                      os_next := Suc (os_next s)\<rparr>))"

definition upd_file :: "int \<Rightarrow> (memfile \<Rightarrow> memfile) \<Rightarrow> os \<Rightarrow> os" where
  "upd_file fd f s =
     (case os_fds s fd of
        None \<Rightarrow> s
      | Some i \<Rightarrow> s\<lparr>os_files := (os_files s)(i := f (os_files s i))\<rparr>)"

definition sys_ftruncate :: "int \<Rightarrow> nat \<Rightarrow> os \<Rightarrow> int \<times> os" where
  "sys_ftruncate fd n s =
     (case os_trunc_fail s of
        True # fs \<Rightarrow> (- 1, s\<lparr>os_trunc_fail := fs\<rparr>)
      | fs \<Rightarrow>
        (let s' = s\<lparr>os_trunc_fail := tl fs\<rparr> in
         if os_fds s fd = None then (- 1, s')
         else (0, upd_file fd (\<lambda>m. m\<lparr>mf_data := resize n (mf_data m)\<rparr>) s')))"

definition sys_lseek0 :: "int \<Rightarrow> os \<Rightarrow> os" where
  "sys_lseek0 fd = upd_file fd (\<lambda>m. m\<lparr>mf_pos := 0\<rparr>)"

definition sys_dup :: "int \<Rightarrow> os \<Rightarrow> int \<times> os" where
  "sys_dup fd s =
     (case os_dup s of
        [] \<Rightarrow> (- 1, s)
      | d # ds \<Rightarrow>
        (case os_fds s fd of
           None \<Rightarrow> (- 1, s\<lparr>os_dup := ds\<rparr>)
         | Some i \<Rightarrow>
             if d < 0 then (d, s\<lparr>os_dup := ds\<rparr>)
             else (d, s\<lparr>os_dup := ds, os_fds := (os_fds s)(d \<mapsto> i)\<rparr>)))"

definition sys_dup2 :: "int \<Rightarrow> int \<Rightarrow> os \<Rightarrow> int \<times> os" where
  "sys_dup2 fd target s =
     (case os_fds s fd of
        None \<Rightarrow> (- 1, s)
      | Some i \<Rightarrow> if os_dup2_ok s target then (target, s\<lparr>os_fds := (os_fds s)(target \<mapsto> i)\<rparr>) else (- 1, s))"

definition sys_close :: "int \<Rightarrow> os \<Rightarrow> os" where
  "sys_close fd s = s\<lparr>os_fds := (os_fds s)(fd := None)\<rparr>"

definition write_at :: "string \<Rightarrow> memfile \<Rightarrow> memfile" where
  "write_at bs m =
     m\<lparr>mf_data := resize (mf_pos m) (mf_data m) @ bs @ drop (mf_pos m + length bs) (mf_data m),
       mf_pos := mf_pos m + length bs\<rparr>"

definition sys_write :: "int \<Rightarrow> string \<Rightarrow> os \<Rightarrow> os" where
  "sys_write fd bs = upd_file fd (write_at bs)"

text \<open>\<^verbatim>\<open>Read::read_to_string\<close> into an empty buffer: everything from the position to the end; when that
  is not UTF-8, an error, and the buffer stays empty.\<close>

definition file_read_to_string :: "int \<Rightarrow> os \<Rightarrow> string \<times> os" where
  "file_read_to_string fd s =
     (case os_fds s fd of
        None \<Rightarrow> ([], s)
      | Some i \<Rightarrow>
        (let m = os_files s i; rest = drop (mf_pos m) (mf_data m) in
         (if utf8_valid rest then rest else [],
          upd_file fd (\<lambda>m. m\<lparr>mf_pos := max (mf_pos m) (length (mf_data m))\<rparr>) s)))"

section \<open>LogCapture\<close>

definition LOG_BUFFER_SIZE :: nat where "LOG_BUFFER_SIZE = 1024 * 1024"

record LogCapture =
  lc_fds :: "(nat, int) hashmap"
  lc_num_slots :: nat

datatype log_error =
  NulInName | MemfdFailed | FtruncateFailed nat | InvalidSlot | DupFailed | Dup2Stdout | Dup2Stderr

definition create_memfd :: "string \<Rightarrow> os \<Rightarrow> (log_error, int) result \<times> os" where
  "create_memfd name s =
     (if NUL \<in> set name then (Inl NulInName, s)
      else let (fd, s') = sys_memfd_create s in
           if fd < 0 then (Inl MemfdFailed, s') else (Inr fd, s'))"

fun new_slots ::
  "nat list \<Rightarrow> (nat, int) hashmap \<Rightarrow> os \<Rightarrow> (log_error, (nat, int) hashmap) result \<times> os" where
  "new_slots [] fds s = (Inr fds, s)"
| "new_slots (slot # slots) fds s =
     (case create_memfd (''tach_log_'' @ show_nat slot) s of
        (Inl e, s') \<Rightarrow> (Inl e, s')
      | (Inr fd, s') \<Rightarrow>
        (case sys_ftruncate fd LOG_BUFFER_SIZE s' of
           (r, s'') \<Rightarrow> if r \<noteq> 0 then (Inl (FtruncateFailed slot), s'')
                      else new_slots slots (hm_insert slot fd fds) s''))"

definition new_capture :: "nat \<Rightarrow> os \<Rightarrow> (log_error, LogCapture) result \<times> os" where
  "new_capture max_slots s =
     (case new_slots [0..<max_slots] [] s of
        (Inl e, s') \<Rightarrow> (Inl e, s')
      | (Inr fds, s') \<Rightarrow> (Inr \<lparr>lc_fds = fds, lc_num_slots = max_slots\<rparr>, s'))"

definition get_fd :: "LogCapture \<Rightarrow> nat \<Rightarrow> int option" where
  "get_fd lc slot = hm_get (lc_fds lc) slot"

definition slot_count :: "LogCapture \<Rightarrow> nat" where
  "slot_count lc = lc_num_slots lc"

definition read_and_clear :: "LogCapture \<Rightarrow> nat \<Rightarrow> os \<Rightarrow> (log_error, string) result \<times> os" where
  "read_and_clear lc slot s =
     (case hm_get (lc_fds lc) slot of
        None \<Rightarrow> (Inl InvalidSlot, s)
      | Some fd \<Rightarrow>
        (let s1 = sys_lseek0 fd s; (dup_fd, s2) = sys_dup fd s1 in
         if dup_fd < 0 then (Inl DupFailed, s2)
         else let (content, s3) = file_read_to_string dup_fd s2;
                  (_, s4) = sys_ftruncate fd 0 s3;
                  (_, s5) = sys_ftruncate fd LOG_BUFFER_SIZE s4;
                  s6 = sys_close dup_fd s5
              in (Inr (trim_end (trim_end_matches_char NUL content)), s6)))"

definition drop_capture :: "LogCapture \<Rightarrow> os \<Rightarrow> os" where
  "drop_capture lc s = fold (\<lambda>(_, fd). sys_close fd) (lc_fds lc) s"

text \<open>In the worker, after the fork.\<close>

definition redirect_output :: "int \<Rightarrow> os \<Rightarrow> (log_error, unit) result \<times> os" where
  "redirect_output fd s =
     (if fd < 0 then (Inr (), s)
      else let s1 = sys_lseek0 fd s; (r1, s2) = sys_dup2 fd 1 s1 in
           if r1 < 0 then (Inl Dup2Stdout, s2)
           else let (r2, s3) = sys_dup2 fd 2 s2 in
                if r2 < 0 then (Inl Dup2Stderr, s3) else (Inr (), s3))"

section \<open>Facts\<close>

lemma resize_0 [simp]: "resize 0 d = []"
  by (simp add: resize_def)

lemma resize_Nil [simp]: "resize n [] = replicate n NUL"
  by (simp add: resize_def)

text \<open>A slot that is ready: its descriptor is open and the file is empty, that is, all NUL.\<close>

definition slot_ready :: "LogCapture \<Rightarrow> nat \<Rightarrow> int \<Rightarrow> nat \<Rightarrow> os \<Rightarrow> bool" where
  "slot_ready lc slot fd f s \<longleftrightarrow>
     get_fd lc slot = Some fd \<and> 0 \<le> fd \<and> os_fds s fd = Some f \<and>
     mf_data (os_files s f) = replicate LOG_BUFFER_SIZE NUL"

text \<open>The next \<^verbatim>\<open>dup\<close> returns an unused descriptor and truncation does not fail.\<close>

definition kernel_ok :: "os \<Rightarrow> bool" where
  "kernel_ok s \<longleftrightarrow>
     (case os_dup s of [] \<Rightarrow> False | d # _ \<Rightarrow> 0 \<le> d \<and> os_fds s d = None) \<and> os_trunc_fail s = []"

definition log_text :: "string \<Rightarrow> string" where
  "log_text d = trim_end (trim_end_matches_char NUL (if utf8_valid d then d else []))"

lemma read_and_clear_ok:
  assumes "get_fd lc slot = Some fd" and "os_fds s fd = Some f" and "kernel_ok s"
  shows "read_and_clear lc slot s =
     (Inr (log_text (mf_data (os_files s f))),
      s\<lparr>os_dup := tl (os_dup s),
        os_files := (os_files s)(f := \<lparr>mf_data = replicate LOG_BUFFER_SIZE NUL,
                                       mf_pos = length (mf_data (os_files s f))\<rparr>)\<rparr>)"
proof -
  from assms(3) obtain d ds where d: "os_dup s = d # ds" "\<not> d < 0" "os_fds s d = None" "os_trunc_fail s = []"
    by (auto simp: kernel_ok_def split: list.splits)
  have fd: "fd \<noteq> d" using assms(2) d(3) by auto
  have upd: "(os_fds s)(d \<mapsto> f, d := None) = os_fds s" using d(3) by auto
  show ?thesis
    using assms(1,2) d fd upd
    by (simp add: read_and_clear_def get_fd_def sys_lseek0_def upd_file_def sys_dup_def
        file_read_to_string_def sys_ftruncate_def sys_close_def log_text_def Let_def)
       (auto intro!: os.equality memfile.equality)
qed

lemma redirect_output_ok:
  assumes "0 \<le> fd" and "os_fds w fd = Some f" and "os_dup2_ok w 1" and "os_dup2_ok w 2"
  shows "redirect_output fd w =
     (Inr (), w\<lparr>os_fds := (os_fds w)(1 \<mapsto> f, 2 \<mapsto> f),
                os_files := (os_files w)(f := (os_files w f)\<lparr>mf_pos := 0\<rparr>)\<rparr>)"
  using assms by (auto simp: redirect_output_def sys_lseek0_def upd_file_def sys_dup2_def Let_def)

lemma write_at_clean:
  assumes "mf_data m = out @ replicate (n - length out) NUL" and "mf_pos m = length out"
  shows "write_at bs m = m\<lparr>mf_data := (out @ bs) @ replicate (n - length (out @ bs)) NUL,
                           mf_pos := length (out @ bs)\<rparr>"
  using assms by (simp add: write_at_def resize_def add.commute)

lemma writes_collect:
  assumes "set (map fst ws) \<subseteq> {1, 2}" and "os_fds w 1 = Some f" and "os_fds w 2 = Some f"
    and "mf_data (os_files w f) = out @ replicate (n - length out) NUL" and "mf_pos (os_files w f) = length out"
  shows "mf_data (os_files (fold (\<lambda>(t, bs). sys_write t bs) ws w) f) =
       (out @ concat (map snd ws)) @ replicate (n - length (out @ concat (map snd ws))) NUL
     \<and> (\<forall>g. g \<noteq> f \<longrightarrow> os_files (fold (\<lambda>(t, bs). sys_write t bs) ws w) g = os_files w g)"
  using assms
proof (induction ws arbitrary: w out)
  case Nil
  then show ?case by simp
next
  case (Cons x ws)
  obtain t bs where x: "x = (t, bs)" by fastforce
  let ?w = "sys_write t bs w"
  from Cons.prems x have t: "os_fds w t = Some f" by auto
  have w: "?w = w\<lparr>os_files := (os_files w)(f := write_at bs (os_files w f))\<rparr>"
    by (simp add: sys_write_def upd_file_def t)
  note wa = write_at_clean [OF Cons.prems(4,5), of bs]
  have "mf_data (os_files ?w f) = (out @ bs) @ replicate (n - length (out @ bs)) NUL"
    and "mf_pos (os_files ?w f) = length (out @ bs)"
    and "os_fds ?w 1 = Some f" "os_fds ?w 2 = Some f"
    unfolding w wa using Cons.prems by simp_all
  then show ?case
    using Cons.IH [of ?w "out @ bs"] Cons.prems(1) by (simp add: x) (simp add: w)
qed

lemma is_cont_NUL [simp]: "\<not> is_cont_byte NUL"
  by (simp add: NUL_def is_cont_byte_def)

lemma byte_in_NUL: "0 < lo \<Longrightarrow> \<not> byte_in NUL lo hi"
  by (simp add: NUL_def byte_in_def)

lemma byte_in_NUL_0 [simp]: "byte_in NUL 0 hi"
  by (simp add: NUL_def byte_in_def)

lemma utf8_valid_nuls [simp]: "utf8_valid (replicate n NUL)"
  by (induction n) (simp_all add: NUL_def byte_in_def)

lemma utf8_valid_snoc_NUL: "utf8_valid (s @ [NUL]) = utf8_valid s"
proof (induction s rule: utf8_valid.induct)
  case 1
  then show ?case by (simp add: NUL_def byte_in_def)
next
  case (2 a r)
  consider "r = []" | b where "r = [b]" | b c where "r = [b, c]" | b c d r4 where "r = b # c # d # r4"
    by (metis list.exhaust)
  then show ?case
    by cases (use 2 in \<open>simp_all add: byte_in_NUL\<close>)
qed

lemma utf8_valid_append_nuls: "utf8_valid (s @ replicate n NUL) = utf8_valid s"
proof (induction n)
  case (Suc n)
  then show ?case
    using utf8_valid_snoc_NUL [of "s @ replicate n NUL"] by (simp add: replicate_append_same [symmetric])
qed simp

lemma trim_nuls_append:
  "trim_end_matches_char NUL (s @ replicate n NUL) = trim_end_matches_char NUL s"
  by (induction n) (simp_all add: trim_end_matches_char_def dropWhile_append)

lemma log_text_nuls: "log_text (s @ replicate n NUL) = log_text s"
  using trim_nuls_append [of "[]" n] trim_nuls_append [of s n]
  by (auto simp: log_text_def utf8_valid_append_nuls trim_end_matches_char_def)

text \<open>Slots under construction: open, empty, and no two on one file.\<close>

definition slots_ok :: "(nat, int) hashmap \<Rightarrow> os \<Rightarrow> bool" where
  "slots_ok fds s \<longleftrightarrow>
     (\<forall>i fd. hm_get fds i = Some fd \<longrightarrow> 0 \<le> fd \<and>
        (\<exists>f<os_next s. os_fds s fd = Some f \<and> mf_data (os_files s f) = replicate LOG_BUFFER_SIZE NUL)) \<and>
     (\<forall>i j fd fd'. i \<noteq> j \<longrightarrow> hm_get fds i = Some fd \<longrightarrow> hm_get fds j = Some fd' \<longrightarrow> os_fds s fd \<noteq> os_fds s fd')"

definition fresh_memfds :: "os \<Rightarrow> bool" where
  "fresh_memfds s \<longleftrightarrow> distinct (os_memfd s) \<and> (\<forall>fd\<in>set (os_memfd s). os_fds s fd = None)"

lemma slot_created:
  assumes "create_memfd name s = (Inr fd, s1)" and "sys_ftruncate fd LOG_BUFFER_SIZE s1 = (0, s2)"
    and "slots_ok fds s" and "fresh_memfds s"
  shows "slots_ok (hm_insert slot fd fds) s2 \<and> fresh_memfds s2"
proof -
  from assms(1) have fd: "\<not> fd < 0"
    by (auto simp: create_memfd_def split: if_splits prod.splits)
  from assms(1) obtain rest where m: "os_memfd s = fd # rest"
    and s1: "s1 = s\<lparr>os_memfd := rest, os_fds := (os_fds s)(fd \<mapsto> os_next s),
                os_files := (os_files s)(os_next s := \<lparr>mf_data = [], mf_pos = 0\<rparr>),
                os_next := Suc (os_next s)\<rparr>"
    by (auto simp: create_memfd_def sys_memfd_create_def split: if_splits list.splits)
  from assms(2) have s2: "os_fds s2 = os_fds s1" "os_memfd s2 = rest" "os_next s2 = Suc (os_next s)"
      "os_files s2 = (os_files s)(os_next s := \<lparr>mf_data = replicate LOG_BUFFER_SIZE NUL, mf_pos = 0\<rparr>)"
    by (auto simp: sys_ftruncate_def s1 upd_file_def Let_def split: list.splits bool.splits)
  have fresh: "os_fds s fd = None" "fd \<notin> set rest" "distinct rest" "\<forall>x\<in>set rest. os_fds s x = None"
    using assms(4) m by (auto simp: fresh_memfds_def)
  have old: "fd' \<noteq> fd \<and> 0 \<le> fd' \<and> (\<exists>f<os_next s. os_fds s fd' = Some f \<and>
      mf_data (os_files s f) = replicate LOG_BUFFER_SIZE NUL)" if "hm_get fds i = Some fd'" for i fd'
    using assms(3) that fresh(1) by (fastforce simp: slots_ok_def)
  have sep: "os_fds s a \<noteq> os_fds s b" if "i \<noteq> j" "hm_get fds i = Some a" "hm_get fds j = Some b" for i j a b
    using assms(3) that by (auto simp: slots_ok_def)
  have "fresh_memfds s2" using fresh by (auto simp: fresh_memfds_def s1 s2)
  moreover have "slots_ok (hm_insert slot fd fds) s2"
    unfolding slots_ok_def
  proof (intro conjI allI impI)
    fix i fd' assume "hm_get (hm_insert slot fd fds) i = Some fd'"
    then show "0 \<le> fd'" and "\<exists>f<os_next s2. os_fds s2 fd' = Some f \<and>
        mf_data (os_files s2 f) = replicate LOG_BUFFER_SIZE NUL"
      using old [of i fd'] fd
      by (auto simp: s1 s2 hm_get_insert split: if_splits intro: less_SucI dest: less_imp_neq)
  next
    fix i j a b assume "i \<noteq> j" "hm_get (hm_insert slot fd fds) i = Some a" "hm_get (hm_insert slot fd fds) j = Some b"
    then show "os_fds s2 a \<noteq> os_fds s2 b"
      using old [of i a] old [of j b] sep [of i j a b]
      by (auto simp: s1 s2 hm_get_insert split: if_splits)
  qed
  ultimately show ?thesis by blast
qed

lemma new_slots_ready:
  assumes "new_slots slots fds s = (Inr fds', s')" and "slots_ok fds s" and "fresh_memfds s"
  shows "slots_ok fds' s' \<and> dom (hm_get fds') = dom (hm_get fds) \<union> set slots"
  using assms
proof (induction slots fds s rule: new_slots.induct)
  case (2 slot slots fds s)
  from "2.prems"(1) obtain fd s1 s2 where
    c: "create_memfd (''tach_log_'' @ show_nat slot) s = (Inr fd, s1)"
    and t: "sys_ftruncate fd LOG_BUFFER_SIZE s1 = (0, s2)"
    and n: "new_slots slots (hm_insert slot fd fds) s2 = (Inr fds', s')"
    by (auto split: prod.splits sum.splits if_splits)
  from slot_created [OF c t "2.prems"(2,3)]
  have "slots_ok (hm_insert slot fd fds) s2" "fresh_memfds s2" by auto
  with "2.IH" [OF c [symmetric] refl t [symmetric] _ n]
  have "slots_ok fds' s' \<and> dom (hm_get fds') = dom (hm_get (hm_insert slot fd fds)) \<union> set slots"
    by simp
  then show ?case by (auto simp: hm_get_insert split: if_splits)
qed simp

section \<open>Descriptors are given back\<close>

text \<open>The kernel hands out only numbers that are not in use, for memory files and for copies.\<close>

definition fresh_dups :: "os \<Rightarrow> bool" where
  "fresh_dups s \<longleftrightarrow> set (os_dup s) \<inter> (dom (os_fds s) \<union> set (os_memfd s)) = {}"

lemma upd_file_fds [simp]:
  "os_fds (upd_file fd f s) = os_fds s" "os_dup (upd_file fd f s) = os_dup s" "os_memfd (upd_file fd f s) = os_memfd s"
  by (simp_all add: upd_file_def split: option.split)

lemma sys_ftruncate_fds:
  "sys_ftruncate fd n s = (r, s') \<Longrightarrow> os_fds s' = os_fds s \<and> os_dup s' = os_dup s \<and> os_memfd s' = os_memfd s"
  by (auto simp: sys_ftruncate_def Let_def split: list.splits bool.splits if_splits)

lemma file_read_fds [simp]:
  "os_fds (snd (file_read_to_string fd s)) = os_fds s" "os_dup (snd (file_read_to_string fd s)) = os_dup s"
  "os_memfd (snd (file_read_to_string fd s)) = os_memfd s"
  by (simp_all add: file_read_to_string_def Let_def split: option.split)

text \<open>Reading a log opens a copy of the descriptor and closes it again.\<close>

lemma read_and_clear_fds:
  assumes "read_and_clear lc slot s = (r, s')" and "set (os_dup s) \<inter> dom (os_fds s) = {}"
  shows "os_fds s' = os_fds s \<and> set (os_dup s') \<subseteq> set (os_dup s)"
proof (cases "hm_get (lc_fds lc) slot")
  case None
  with assms show ?thesis by (simp add: read_and_clear_def)
next
  case (Some fd)
  obtain d s2 where d: "sys_dup fd (sys_lseek0 fd s) = (d, s2)" by fastforce
  then have d2: "set (os_dup s2) \<subseteq> set (os_dup s)" "d < 0 \<Longrightarrow> os_fds s2 = os_fds s"
      "\<not> d < 0 \<Longrightarrow> (os_fds s2)(d := None) = os_fds s"
    using assms(2) by (auto simp: sys_dup_def sys_lseek0_def split: list.splits option.splits if_splits)
  show ?thesis
  proof (cases "d < 0")
    case True
    with assms(1) Some d d2 show ?thesis by (simp add: read_and_clear_def Let_def)
  next
    case False
    obtain c s3 where c: "file_read_to_string d s2 = (c, s3)" by fastforce
    obtain t s4 where t: "sys_ftruncate fd 0 s3 = (t, s4)" by fastforce
    obtain u s5 where u: "sys_ftruncate fd LOG_BUFFER_SIZE s4 = (u, s5)" by fastforce
    have "s' = sys_close d s5" using assms(1) Some d False c t u by (simp add: read_and_clear_def Let_def)
    moreover have "os_fds s5 = os_fds s2" "os_dup s5 = os_dup s2"
      using file_read_fds [of d s2] sys_ftruncate_fds [OF t] sys_ftruncate_fds [OF u] c by simp_all
    ultimately show ?thesis using False d2 by (simp add: sys_close_def)
  qed
qed

lemma update_new: "k \<notin> fst ` set m \<Longrightarrow> AList.update k v m = m @ [(k, v)]"
  by (induction m) auto

lemma new_slots_fds:
  assumes "new_slots slots fds s = (Inr fds', s')" and "fresh_memfds s" and "distinct slots"
    and "set slots \<inter> fst ` set fds = {}"
  shows "os_dup s' = os_dup s \<and> set (os_memfd s') \<subseteq> set (os_memfd s) \<and> fresh_memfds s' \<and>
     (\<exists>new. snd ` set fds' = snd ` set fds \<union> new \<and> new \<subseteq> set (os_memfd s) \<and> os_fds s' |` (- new) = os_fds s)"
  using assms
proof (induction slots fds s rule: new_slots.induct)
  case (1 fds s)
  then show ?case by (auto intro!: exI [of _ "{}"])
next
  case (2 slot slots fds s)
  from "2.prems"(1) obtain fd s1 s2 where
    c: "create_memfd (''tach_log_'' @ show_nat slot) s = (Inr fd, s1)"
    and t: "sys_ftruncate fd LOG_BUFFER_SIZE s1 = (0, s2)"
    and n: "new_slots slots (hm_insert slot fd fds) s2 = (Inr fds', s')"
    by (auto split: prod.splits sum.splits if_splits)
  from c obtain rest where m: "os_memfd s = fd # rest" and s1: "os_memfd s1 = rest" "os_fds s1 = (os_fds s)(fd \<mapsto> os_next s)"
      "os_dup s1 = os_dup s"
    by (auto simp: create_memfd_def sys_memfd_create_def split: if_splits list.splits)
  have s2: "os_fds s2 = os_fds s1" "os_dup s2 = os_dup s1" "os_memfd s2 = rest"
    using sys_ftruncate_fds [OF t] s1 by auto
  have fresh: "os_fds s fd = None" "fd \<notin> set rest" "fresh_memfds s2"
    using "2.prems"(2) m by (auto simp: fresh_memfds_def s1 s2)
  have ins: "hm_insert slot fd fds = fds @ [(slot, fd)]"
    using "2.prems"(4) by (intro update_new) auto
  have "os_dup s' = os_dup s2 \<and> set (os_memfd s') \<subseteq> set (os_memfd s2) \<and> fresh_memfds s' \<and>
     (\<exists>new. snd ` set fds' = snd ` set (hm_insert slot fd fds) \<union> new \<and> new \<subseteq> set (os_memfd s2) \<and> os_fds s' |` (- new) = os_fds s2)"
    using "2.prems" fresh by (intro "2.IH" [OF c [symmetric] refl t [symmetric] _ n]) (auto simp: ins)
  then obtain new where new: "os_dup s' = os_dup s" "set (os_memfd s') \<subseteq> set rest" "fresh_memfds s'"
      "snd ` set fds' = snd ` set fds \<union> insert fd new" "new \<subseteq> set rest" "os_fds s' |` (- new) = (os_fds s)(fd \<mapsto> os_next s)"
    by (auto simp: ins s1 s2)
  have "os_fds s' |` (- insert fd new) = (os_fds s' |` (- new)) |` (- {fd})" by (auto simp: restrict_map_def)
  also have "\<dots> = os_fds s" unfolding new(6) using fresh(1) by (auto simp: restrict_map_def)
  finally show ?case using new m by (auto intro!: exI [of _ "insert fd new"])
qed

lemma drop_capture_fds: "os_fds (drop_capture lc s) = os_fds s |` (- snd ` set (lc_fds lc))"
proof -
  have "os_fds (fold (\<lambda>(_, fd). sys_close fd) l s) = os_fds s |` (- snd ` set l)" for l :: "(nat \<times> int) list"
    by (induction l arbitrary: s) (auto simp: sys_close_def restrict_map_def)
  then show ?thesis by (simp add: drop_capture_def)
qed

text \<open>Dropping the capture closes what setting it up has opened, and nothing else.\<close>

lemma new_capture_fds:
  assumes "new_capture n s = (Inr lc, s1)" and "fresh_memfds s" and "fresh_dups s"
  shows "set (os_dup s1) \<inter> dom (os_fds s1) = {} \<and> (os_fds s2 = os_fds s1 \<longrightarrow> os_fds (drop_capture lc s2) = os_fds s)"
proof -
  from assms(1) obtain fds where n: "new_slots [0..<n] [] s = (Inr fds, s1)" and lc: "lc_fds lc = fds"
    by (auto simp: new_capture_def split: prod.splits sum.splits)
  obtain new where new: "os_dup s1 = os_dup s" "snd ` set fds = new" "new \<subseteq> set (os_memfd s)" "os_fds s1 |` (- new) = os_fds s"
    using new_slots_fds [OF n assms(2)] by auto
  have disj: "A \<inter> C = {} \<Longrightarrow> B \<subseteq> C \<Longrightarrow> A \<inter> B = {}" for A B C :: "int set" by blast
  have "dom (os_fds s1) \<subseteq> dom (os_fds s1 |` (- new)) \<union> new" by auto
  then have "dom (os_fds s1) \<subseteq> dom (os_fds s) \<union> set (os_memfd s)" unfolding new(4) using new(3) by (meson Un_mono order_refl order_trans)
  then have "set (os_dup s1) \<inter> dom (os_fds s1) = {}"
    unfolding new(1) by (rule disj [OF assms(3) [unfolded fresh_dups_def]])
  moreover have "os_fds (drop_capture lc s2) = os_fds s2 |` (- new)" by (simp only: drop_capture_fds lc new(2))
  ultimately show ?thesis using new(4) by metis
qed

section \<open>Properties\<close>

text \<open>Setting up the capture with n slots, on a kernel that hands out unused descriptors, gives
  slots 0 to n - 1 and no others, each with an open, empty file of its own.\<close>

lemma new_capture_ready:
  assumes "new_capture n s = (Inr lc, s')" and "fresh_memfds s"
  shows "slot_count lc = n \<and>
     (\<forall>i. if i < n then \<exists>fd f. slot_ready lc i fd f s' else get_fd lc i = None) \<and>
     (\<forall>i<n. \<forall>j<n. i \<noteq> j \<longrightarrow> Option.bind (get_fd lc i) (os_fds s') \<noteq> Option.bind (get_fd lc j) (os_fds s'))"
proof -
  from assms(1) obtain fds where n: "new_slots [0..<n] [] s = (Inr fds, s')"
    and lc: "lc = \<lparr>lc_fds = fds, lc_num_slots = n\<rparr>"
    by (auto simp: new_capture_def split: prod.splits sum.splits)
  have ok: "slots_ok fds s'" and d: "dom (hm_get fds) = {..<n}"
    using new_slots_ready [OF n _ assms(2)] by (auto simp: slots_ok_def)
  have get: "\<exists>fd f. hm_get fds i = Some fd \<and> slot_ready lc i fd f s'" if "i < n" for i
  proof -
    from that d have "i \<in> dom (hm_get fds)" by simp
    then obtain fd where "hm_get fds i = Some fd" by blast
    with ok show ?thesis by (simp add: slots_ok_def slot_ready_def get_fd_def lc) blast
  qed
  moreover have "hm_get fds i = None" if "\<not> i < n" for i
    using that d by (auto simp: domIff)
  moreover have "Option.bind (get_fd lc i) (os_fds s') \<noteq> Option.bind (get_fd lc j) (os_fds s')"
    if "i < n" "j < n" "i \<noteq> j" for i j
    using get [OF that(1)] get [OF that(2)] ok that(3) by (auto simp: slots_ok_def get_fd_def lc)
  moreover have "slot_count lc = n" by (simp add: slot_count_def lc)
  moreover have "get_fd lc i = hm_get fds i" for i by (simp add: get_fd_def lc)
  ultimately show ?thesis by (metis (full_types))
qed

definition ex_os :: os where
  "ex_os = \<lparr>os_fds = (\<lambda>_. None), os_files = (\<lambda>_. \<lparr>mf_data = [], mf_pos = 0\<rparr>), os_next = 0,
            os_memfd = [3, 4], os_dup = [9], os_trunc_fail = [], os_dup2_ok = (\<lambda>_. True)\<rparr>"

text \<open>C26: What a worker prints is what the supervisor reads: after a worker redirects its output to
  the file of its slot and writes to stdout and stderr, reading the slot gives what was written, in
  order, without trailing NULs and whitespace (and nothing at all when it is not UTF-8), leaves the slot ready for
  the next worker and touches no other slot's file.\<close>

theorem capture_roundtrip:
  assumes "slot_ready lc slot fd f spv" and "kernel_ok spv"
    and "os_fds wk fd = Some f" and "os_files wk = os_files spv" and "os_dup2_ok wk 1" and "os_dup2_ok wk 2"
    and "redirect_output fd wk = (r, wk1)" and "set (map fst ws) \<subseteq> {1, 2}"
    and "spv1 = spv\<lparr>os_files := os_files (fold (\<lambda>(t, bs). sys_write t bs) ws wk1)\<rparr>"
    and "read_and_clear lc slot spv1 = (logs, spv2)"
  shows "r = Inr () \<and> logs = Inr (log_text (concat (map snd ws))) \<and> slot_ready lc slot fd f spv2 \<and>
     (\<forall>g. g \<noteq> f \<longrightarrow> os_files spv2 g = os_files spv g)"
proof -
  from assms(1) have ready: "get_fd lc slot = Some fd" "0 \<le> fd" "os_fds spv fd = Some f"
      "mf_data (os_files spv f) = replicate LOG_BUFFER_SIZE NUL"
    by (auto simp: slot_ready_def)
  have wk1: "r = Inr ()" "wk1 = wk\<lparr>os_fds := (os_fds wk)(1 \<mapsto> f, 2 \<mapsto> f),
                os_files := (os_files wk)(f := (os_files wk f)\<lparr>mf_pos := 0\<rparr>)\<rparr>"
    using redirect_output_ok [OF ready(2) assms(3,5,6)] assms(7) by auto
  have w: "mf_data (os_files spv1 f) = concat (map snd ws) @ replicate (LOG_BUFFER_SIZE - length (concat (map snd ws))) NUL"
    and o: "\<forall>g. g \<noteq> f \<longrightarrow> os_files spv1 g = os_files spv g"
    using writes_collect [OF assms(8), of wk1 f "[]" LOG_BUFFER_SIZE] ready assms(4,9)
    by (auto simp: wk1)
  have "get_fd lc slot = Some fd" "os_fds spv1 fd = Some f" "kernel_ok spv1"
    using ready assms(2,9) by (auto simp: kernel_ok_def split: list.splits)
  from read_and_clear_ok [OF this] assms(10)
  have "logs = Inr (log_text (concat (map snd ws)))"
    and spv2: "spv2 = spv1\<lparr>os_dup := tl (os_dup spv1),
        os_files := (os_files spv1)(f := \<lparr>mf_data = replicate LOG_BUFFER_SIZE NUL,
                                       mf_pos = length (mf_data (os_files spv1 f))\<rparr>)\<rparr>"
    by (auto simp: w log_text_nuls)
  moreover have "slot_ready lc slot fd f spv2"
    using ready assms(9) by (simp add: slot_ready_def spv2)
  ultimately show ?thesis using wk1 o by (simp add: spv2)
qed

definition ex_lc :: LogCapture where
  "ex_lc = \<lparr>lc_fds = [(0, 3)], lc_num_slots = 1\<rparr>"

definition ex_spv :: os where
  "ex_spv = ex_os\<lparr>os_fds := (\<lambda>_. None)(3 \<mapsto> 0),
                  os_files := (\<lambda>_. \<lparr>mf_data = replicate LOG_BUFFER_SIZE NUL, mf_pos = 0\<rparr>), os_next := 1\<rparr>"

definition ex_writes :: "(int \<times> string) list" where
  "ex_writes = [(1, ''out ''), (2, ''err''), (1, [CHR 0x0A])]"

lemma log_text_ex: "log_text (concat (map snd ex_writes)) = ''out err''"
proof -
  have "trim_end (''out err'' @ [CHR 0x0A]) = ''out err''"
    by (simp add: trim_end.simps ws_suffix_def ws_chars_def suffix_def append_eq_Cons_conv Cons_eq_append_conv)
  then show ?thesis
    by (simp add: ex_writes_def log_text_def byte_in_def trim_end_matches_char_def NUL_def)
qed

theorem capture_roundtrip_witness:
  "\<exists>s2. read_and_clear ex_lc 0 (ex_spv\<lparr>os_files :=
       os_files (fold (\<lambda>(t, bs). sys_write t bs) ex_writes (snd (redirect_output 3 ex_spv)))\<rparr>)
     = (Inr ''out err'', s2) \<and> slot_ready ex_lc 0 3 0 s2"
proof -
  have h: "slot_ready ex_lc 0 3 0 ex_spv" "kernel_ok ex_spv" "os_fds ex_spv 3 = Some 0"
      "os_dup2_ok ex_spv 1" "os_dup2_ok ex_spv 2" "set (map fst ex_writes) \<subseteq> {1, 2}"
    by (simp_all add: slot_ready_def ex_lc_def ex_spv_def ex_os_def kernel_ok_def get_fd_def ex_writes_def)
  show ?thesis
    using capture_roundtrip [OF h(1,2,3) refl h(4,5) _ h(6) refl]
    by (metis log_text_ex surj_pair snd_conv)
qed

text \<open>Reading a slot leaves the file's position at the end of what it read: the position is
  shared with the duplicate descriptor the reader uses. A worker that does not redirect its
  output again would write behind the cleared buffer.\<close>

theorem read_and_clear_moves_position:
  assumes "get_fd lc slot = Some fd" and "os_fds s fd = Some f" and "kernel_ok s"
  shows "mf_pos (os_files (snd (read_and_clear lc slot s)) f) = length (mf_data (os_files s f))"
  using read_and_clear_ok [OF assms] by simp

theorem read_and_clear_moves_position_witness:
  "mf_pos (os_files (snd (read_and_clear ex_lc 0 ex_spv)) 0) = LOG_BUFFER_SIZE"
  using read_and_clear_moves_position [of ex_lc 0 3 ex_spv 0]
  by (simp add: ex_lc_def ex_spv_def ex_os_def kernel_ok_def get_fd_def)

end
