(* ===== verification/Reporter.thy ===== *)
theory Reporter
  imports Rust_Str Rust_Path
begin

text \<open>
  The reporters of \<^verbatim>\<open>reporter.rs\<close>: the events of a run, the JSON reporter and the human one. A
  callback of the \<^verbatim>\<open>Reporter\<close> trait is an event; a reporter is a function from events and the
  outside world (the two output streams and the files) to the world. \<^verbatim>\<open>serde_json::to_string\<close> is
  a parameter that may fail; the code unwraps its result, so \<^const>\<open>None\<close> as a result is a panic.
\<close>

datatype MachineEvent =
  RunStart nat
| TestStart string string
| TestFinished string string u64 "string option"
| RunFinished nat nat nat u64
| ErrorEvent string

text \<open>The streams and files the reporters write. Creating a file or writing to it may fail, with the
  text of the error.\<close>

record io =
  io_stdout :: string
  io_stderr :: string
  io_files :: "path \<Rightarrow> string option"
  io_create_err :: "path \<Rightarrow> string option"
  io_write_err :: "path \<Rightarrow> string option"

definition print :: "string \<Rightarrow> io \<Rightarrow> io" where
  "print t w = w\<lparr>io_stdout := io_stdout w @ t\<rparr>"

definition eprint :: "string \<Rightarrow> io \<Rightarrow> io" where
  "eprint t w = w\<lparr>io_stderr := io_stderr w @ t\<rparr>"

definition NL :: string where "NL = [CHR 0x0A]"

definition show_u64 :: "u64 \<Rightarrow> string" where
  "show_u64 d = show_nat (unat d)"

section \<open>JsonReporter\<close>

text \<open>All five callbacks build the event and print its serialization and a newline.\<close>

definition json_event :: "(MachineEvent \<Rightarrow> string option) \<Rightarrow> MachineEvent \<Rightarrow> io \<Rightarrow> io option" where
  "json_event to_json e w = map_option (\<lambda>t. print (t @ NL) w) (to_json e)"

section \<open>HumanReporter\<close>

definition check_mark :: string where "check_mark = [CHR 0xE2, CHR 0x9C, CHR 0x93]"
definition cross_mark :: string where "cross_mark = [CHR 0xE2, CHR 0x9C, CHR 0x97]"
definition circled_slash :: string where "circled_slash = [CHR 0xE2, CHR 0x8A, CHR 0x98]"

definition human_finished :: "string \<Rightarrow> u64 \<Rightarrow> string option \<Rightarrow> string" where
  "human_finished status duration_ms message =
     (if status = ''pass'' then check_mark @ '' ('' @ show_u64 duration_ms @ ''ms)'' @ NL
      else if status = ''fail'' then
        cross_mark @ '' ('' @ show_u64 duration_ms @ ''ms)'' @ NL @
        (case message of
           None \<Rightarrow> []
         | Some msg \<Rightarrow> concat (map (\<lambda>line. ''    '' @ line @ NL) (take 10 (str_lines msg))))
      else if status = ''skip'' then circled_slash @ '' skipped'' @ NL
      else status @ NL)"

fun human_event :: "MachineEvent \<Rightarrow> io \<Rightarrow> io" where
  "human_event (RunStart count) = eprint (''[tach] Running '' @ show_nat count @ '' tests...'' @ NL @ NL)"
| "human_event (TestStart tid file) = eprint (''  '' @ tid @ '' ... '')"
| "human_event (TestFinished tid status duration_ms message) =
     eprint (human_finished status duration_ms message)"
| "human_event (RunFinished passed failed skipped duration_ms) =
     eprint (NL @ ''[tach] '' @ show_nat passed @ '' passed, '' @ show_nat failed @ '' failed, '' @
             show_nat skipped @ '' skipped in '' @ show_u64 duration_ms @ ''ms'' @ NL)"
| "human_event (ErrorEvent message) = eprint (''[tach] FATAL ERROR: '' @ message @ NL)"

lemma human_event_stdout [simp]: "io_stdout (human_event e w) = io_stdout w"
  by (cases e) (simp_all add: eprint_def)

lemma human_event_files [simp]: "io_files (human_event e w) = io_files w"
  by (cases e) (simp_all add: eprint_def)

end
