(* ===== verification/Junit.thy ===== *)
theory Junit
  imports Reporter
begin

text \<open>
  The JUnit reporter (\<^verbatim>\<open>junit.rs\<close>), which buffers the results and writes an XML file at the end of
  the run, and \<^verbatim>\<open>MultiReporter\<close> (\<^verbatim>\<open>reporter.rs\<close>), which passes every event to all its reporters.
  The XML serializer \<^verbatim>\<open>quick_xml\<close> is a parameter that may fail. Times are kept as the milliseconds
  they are computed from; the division by 1000 in floating point is left out.
\<close>

section \<open>Cleaning messages\<close>

definition ESC :: char where "ESC = CHR 0x1B"

definition is_ascii_alphabetic :: "char \<Rightarrow> bool" where
  "is_ascii_alphabetic c \<longleftrightarrow>
     (let n = (of_char c :: nat) in (65 \<le> n \<and> n \<le> 90) \<or> (97 \<le> n \<and> n \<le> 122))"

text \<open>What is left after an escape sequence: everything behind the first letter.\<close>

fun skip_csi :: "string \<Rightarrow> string" where
  "skip_csi [] = []"
| "skip_csi (c # cs) = (if is_ascii_alphabetic c then cs else skip_csi cs)"

lemma length_skip_csi: "length (skip_csi s) \<le> length s"
  by (induction s) auto

function strip_ansi_codes :: "string \<Rightarrow> string" where
  "strip_ansi_codes [] = []"
| "strip_ansi_codes (c # cs) =
     (if c = ESC then
        (case cs of
           [] \<Rightarrow> []
         | d # ds \<Rightarrow> if d = CHR ''['' then strip_ansi_codes (skip_csi ds) else strip_ansi_codes (d # ds))
      else if c \<noteq> CHR 0x00 then c # strip_ansi_codes cs
      else strip_ansi_codes cs)"
  by pat_completeness auto
termination
  by (relation "measure length") (auto simp: less_Suc_eq_le intro: le_SucI length_skip_csi)

section \<open>The report\<close>

record Failure =
  jf_message :: string
  jf_body :: string

record JunitCase =
  jc_name :: string
  jc_classname :: string
  jc_time_ms :: u64
  jc_failure :: "Failure option"

record TestSuite =
  ts_name :: string
  ts_tests :: nat
  ts_failures :: nat
  ts_errors :: nat
  ts_skipped :: nat
  ts_time_ms :: u64
  ts_cases :: "JunitCase list"

record TestSuites =
  tss_suites :: "TestSuite list"

record JunitReporter =
  jr_output_path :: path
  jr_cases :: "JunitCase list"
  jr_error_message :: "string option"

definition new_junit :: "path \<Rightarrow> JunitReporter" where
  "new_junit path = \<lparr>jr_output_path = path, jr_cases = [], jr_error_message = None\<rparr>"

definition junit_case :: "string \<Rightarrow> string \<Rightarrow> u64 \<Rightarrow> string option \<Rightarrow> JunitCase" where
  "junit_case tid status duration_ms message =
     (let (first, second) = (case split_once ''::'' tid of
                               None \<Rightarrow> (tid, None) | Some (a, b) \<Rightarrow> (a, Some b));
          classname = replace_str (replace_str first ''/'' ''.'') ''.py'' [];
          name = (case second of None \<Rightarrow> tid | Some b \<Rightarrow> b);
          failure = (if status \<noteq> ''pass''
                     then Some \<lparr>jf_message = ''Test failed'',
                                jf_body = strip_ansi_codes
                                  (case message of None \<Rightarrow> ''Test failed'' | Some raw \<Rightarrow> raw)\<rparr>
                     else None)
      in \<lparr>jc_name = name, jc_classname = classname, jc_time_ms = duration_ms, jc_failure = failure\<rparr>)"

definition xml_declaration :: string where
  "xml_declaration =
     ''<?xml version='' @ [CHR 0x22] @ ''1.0'' @ [CHR 0x22] @ '' encoding='' @ [CHR 0x22] @ ''UTF-8''
       @ [CHR 0x22] @ ''?>'' @ NL"

text \<open>The capacity of a \<^verbatim>\<open>BufWriter\<close>: a write that fits the buffer cannot fail, and an error of the
  final flush is dropped with the writer.\<close>

definition buf_capacity :: nat where "buf_capacity = 8192"

definition write_report ::
  "(TestSuites \<Rightarrow> (string, string) result) \<Rightarrow> path \<Rightarrow> TestSuites \<Rightarrow> io \<Rightarrow> io" where
  "write_report to_xml path root w =
     (case io_create_err w path of
        Some e \<Rightarrow> eprint (''[tach] Failed to create JUnit report: '' @ e @ NL) w
      | None \<Rightarrow>
        (let disk = (\<lambda>content. w\<lparr>io_files := (io_files w)(path \<mapsto>
                       (case io_write_err w path of None \<Rightarrow> content | Some _ \<Rightarrow> []))\<rparr>) in
         case to_xml root of
           Inl e \<Rightarrow> eprint (''[tach] Failed to serialize JUnit report: '' @ e @ NL) (disk xml_declaration)
         | Inr xml \<Rightarrow>
             let w' = disk (xml_declaration @ xml) in
             (case io_write_err w path of
                Some e \<Rightarrow>
                  if length xml < buf_capacity - length xml_declaration
                  then eprint (''[tach] JUnit report written to '' @ path_text path @ NL) w'
                  else eprint (''[tach] Failed to write JUnit report: '' @ e @ NL) w'
              | None \<Rightarrow> eprint (''[tach] JUnit report written to '' @ path_text path @ NL) w')))"

definition junit_suite :: "JunitReporter \<Rightarrow> nat \<Rightarrow> nat \<Rightarrow> nat \<Rightarrow> u64 \<Rightarrow> TestSuite" where
  "junit_suite r passed failed skipped duration_ms =
     \<lparr>ts_name = ''tach'', ts_tests = passed + failed + skipped, ts_failures = failed, ts_errors = 0,
      ts_skipped = skipped, ts_time_ms = duration_ms, ts_cases = jr_cases r\<rparr>"

fun junit_event ::
  "(TestSuites \<Rightarrow> (string, string) result) \<Rightarrow> MachineEvent \<Rightarrow> JunitReporter \<Rightarrow> io \<Rightarrow> JunitReporter \<times> io"
where
  "junit_event to_xml (RunStart count) r w = (r\<lparr>jr_cases := [], jr_error_message := None\<rparr>, w)"
| "junit_event to_xml (TestStart tid file) r w = (r, w)"
| "junit_event to_xml (TestFinished tid status duration_ms message) r w =
     (r\<lparr>jr_cases := jr_cases r @ [junit_case tid status duration_ms message]\<rparr>, w)"
| "junit_event to_xml (RunFinished passed failed skipped duration_ms) r w =
     (r\<lparr>jr_cases := []\<rparr>,
      write_report to_xml (jr_output_path r)
        \<lparr>tss_suites = [junit_suite r passed failed skipped duration_ms]\<rparr> w)"
| "junit_event to_xml (ErrorEvent message) r w = (r\<lparr>jr_error_message := Some message\<rparr>, w)"

section \<open>MultiReporter\<close>

text \<open>A boxed reporter is one of the program's implementations of the trait.\<close>

datatype reporter = JsonRep | HumanRep | JunitRep JunitReporter | MultiRep "reporter list"

fun on_event ::
  "(MachineEvent \<Rightarrow> string option) \<Rightarrow> (TestSuites \<Rightarrow> (string, string) result) \<Rightarrow> MachineEvent
     \<Rightarrow> reporter \<Rightarrow> io \<Rightarrow> (reporter \<times> io) option"
  and multi_event ::
  "(MachineEvent \<Rightarrow> string option) \<Rightarrow> (TestSuites \<Rightarrow> (string, string) result) \<Rightarrow> MachineEvent
     \<Rightarrow> reporter list \<Rightarrow> io \<Rightarrow> (reporter list \<times> io) option"
where
  "on_event to_json to_xml e JsonRep w = map_option (\<lambda>w'. (JsonRep, w')) (json_event to_json e w)"
| "on_event to_json to_xml e HumanRep w = Some (HumanRep, human_event e w)"
| "on_event to_json to_xml e (JunitRep r) w =
     (let (r', w') = junit_event to_xml e r w in Some (JunitRep r', w'))"
| "on_event to_json to_xml e (MultiRep rs) w =
     map_option (\<lambda>(rs', w'). (MultiRep rs', w')) (multi_event to_json to_xml e rs w)"
| "multi_event to_json to_xml e [] w = Some ([], w)"
| "multi_event to_json to_xml e (r # rs) w =
     (case on_event to_json to_xml e r w of
        None \<Rightarrow> None
      | Some (r', w') \<Rightarrow>
        (case multi_event to_json to_xml e rs w' of
           None \<Rightarrow> None
         | Some (rs', w'') \<Rightarrow> Some (r' # rs', w'')))"

section \<open>The reporter interface\<close>

fun run_events :: "('e \<Rightarrow> 's \<Rightarrow> 'w \<Rightarrow> ('s \<times> 'w) option) \<Rightarrow> 'e list \<Rightarrow> 's \<Rightarrow> 'w \<Rightarrow> ('s \<times> 'w) option" where
  "run_events step [] s w = Some (s, w)"
| "run_events step (e # es) s w =
     (case step e s w of None \<Rightarrow> None | Some (s', w') \<Rightarrow> run_events step es s' w')"

text \<open>
  What a reporter promises about standard output: an event adds one line for each machine reader
  attached, and attaches or detaches none.
\<close>

locale event_sink =
  fixes step :: "'e \<Rightarrow> 's \<Rightarrow> 'w \<Rightarrow> ('s \<times> 'w) option"
    and out :: "'w \<Rightarrow> string"
    and readers :: "'s \<Rightarrow> nat"
    and line :: "'e \<Rightarrow> string"
  assumes step_out: "step e s w = Some (s', w') \<Longrightarrow>
    out w' = out w @ concat (replicate (readers s) (line e)) \<and> readers s' = readers s"
begin

lemma run_out:
  "run_events step es s w = Some (s', w') \<Longrightarrow>
     out w' = out w @ concat (map (\<lambda>e. concat (replicate (readers s) (line e))) es) \<and> readers s' = readers s"
proof (induction es arbitrary: s w)
  case (Cons e es)
  then obtain s1 w1 where "step e s w = Some (s1, w1)" "run_events step es s1 w1 = Some (s', w')"
    by (auto split: option.splits prod.splits)
  with Cons.IH step_out show ?case by fastforce
qed simp

end

fun json_leaves :: "reporter \<Rightarrow> nat" where
  "json_leaves JsonRep = 1"
| "json_leaves HumanRep = 0"
| "json_leaves (JunitRep _) = 0"
| "json_leaves (MultiRep rs) = sum_list (map json_leaves rs)"

definition json_line :: "(MachineEvent \<Rightarrow> string option) \<Rightarrow> MachineEvent \<Rightarrow> string" where
  "json_line to_json e = (case to_json e of None \<Rightarrow> [] | Some t \<Rightarrow> t @ NL)"

lemma write_report_stdout [simp]: "io_stdout (write_report to_xml p root w) = io_stdout w"
  by (simp add: write_report_def eprint_def Let_def split: option.split sum.split)

lemma junit_event_stdout: "junit_event to_xml e r w = (r', w') \<Longrightarrow> io_stdout w' = io_stdout w"
  by (cases e) auto

lemma on_event_out:
  "on_event to_json to_xml e r w = Some (r', w') \<Longrightarrow>
     io_stdout w' = io_stdout w @ concat (replicate (json_leaves r) (json_line to_json e))
     \<and> json_leaves r' = json_leaves r"
  "multi_event to_json to_xml e rs w = Some (rs', w') \<Longrightarrow>
     io_stdout w' = io_stdout w @ concat (replicate (sum_list (map json_leaves rs)) (json_line to_json e))
     \<and> sum_list (map json_leaves rs') = sum_list (map json_leaves rs)"
proof (induction to_json to_xml e r w and to_json to_xml e rs w arbitrary: r' w' and rs' w'
    rule: on_event_multi_event.induct)
  case (1 to_json to_xml e w)
  then show ?case by (auto simp: json_event_def print_def json_line_def)
next
  case (3 to_json to_xml e r w)
  then show ?case by (auto split: prod.splits simp: junit_event_stdout)
next
  case (6 to_json to_xml e r rs w)
  from "6.prems" obtain r1 w1 rs1 where 1: "on_event to_json to_xml e r w = Some (r1, w1)"
    and 2: "multi_event to_json to_xml e rs w1 = Some (rs1, w')" and rs': "rs' = r1 # rs1"
    by (auto split: option.splits)
  from "6.IH"(1) [OF 1] "6.IH"(2) [OF 1 refl 2] show ?case by (simp add: rs' replicate_add)
qed auto

interpretation rp: event_sink "on_event to_json to_xml" io_stdout json_leaves "json_line to_json"
  for to_json to_xml
  by unfold_locales (rule on_event_out(1))

text \<open>When every event can be serialized, no reporter panics.\<close>

lemma on_event_total:
  "\<forall>e. to_json e \<noteq> None \<Longrightarrow> on_event to_json to_xml e r w \<noteq> None"
  "\<forall>e. to_json e \<noteq> None \<Longrightarrow> multi_event to_json to_xml e rs w \<noteq> None"
  by (induction to_json to_xml e r w and to_json to_xml e rs w rule: on_event_multi_event.induct)
     (auto simp: json_event_def split: option.splits prod.splits, blast)

lemma run_events_total:
  assumes "\<forall>e. to_json e \<noteq> None"
  shows "\<exists>r' w'. run_events (on_event to_json to_xml) es r w = Some (r', w')"
proof (induction es arbitrary: r w)
  case (Cons e es)
  obtain r1 w1 where "on_event to_json to_xml e r w = Some (r1, w1)"
    using on_event_total(1) [OF assms, of to_xml e r w] by auto
  with Cons.IH [of r1 w1] show ?case by simp
qed simp

section \<open>Facts about the JUnit report\<close>

fun finished_case :: "MachineEvent \<Rightarrow> JunitCase option" where
  "finished_case (TestFinished tid status duration_ms message) =
     Some (junit_case tid status duration_ms message)"
| "finished_case _ = None"

fun is_run_event :: "MachineEvent \<Rightarrow> bool" where
  "is_run_event (RunStart _) = True"
| "is_run_event (RunFinished _ _ _ _) = True"
| "is_run_event _ = False"

lemma junit_step:
  "\<not> is_run_event e \<Longrightarrow>
   \<exists>m. on_event to_json to_xml e (JunitRep r) w =
     Some (JunitRep (r\<lparr>jr_cases := jr_cases r @ List.map_filter finished_case [e], jr_error_message := m\<rparr>), w)"
proof (cases e)
  case (TestStart tid fl)
  then show ?thesis by (intro exI [of _ "jr_error_message r"]) (simp add: List.map_filter_simps)
next
  case (TestFinished tid st d msg)
  then show ?thesis by (intro exI [of _ "jr_error_message r"]) (simp add: List.map_filter_simps)
next
  case (ErrorEvent msg)
  then show ?thesis by (intro exI [of _ "Some msg"]) (simp add: List.map_filter_simps)
qed simp_all

lemma junit_body:
  "list_all (\<lambda>e. \<not> is_run_event e) es \<Longrightarrow>
   \<exists>m. run_events (on_event to_json to_xml) es (JunitRep r) w =
     Some (JunitRep (r\<lparr>jr_cases := jr_cases r @ List.map_filter finished_case es, jr_error_message := m\<rparr>), w)"
proof (induction es arbitrary: r)
  case Nil
  show ?case by (rule exI [of _ "jr_error_message r"]) (simp add: List.map_filter_simps)
next
  case (Cons e es)
  then have "\<not> is_run_event e" by simp
  then obtain m where m: "on_event to_json to_xml e (JunitRep r) w =
     Some (JunitRep (r\<lparr>jr_cases := jr_cases r @ List.map_filter finished_case [e], jr_error_message := m\<rparr>), w)"
    using junit_step by blast
  have "List.map_filter finished_case (e # es) =
      List.map_filter finished_case [e] @ List.map_filter finished_case es"
    by (simp add: List.map_filter_def)
  with Cons.IH [of "r\<lparr>jr_cases := jr_cases r @ List.map_filter finished_case [e], jr_error_message := m\<rparr>"]
    Cons.prems m
  show ?case by simp
qed

section \<open>Properties\<close>

text \<open>C38: Standard output carries machine output only: whatever combination of reporters is used,
  a run adds to it exactly one serialized line for each event and each JSON reporter, in the order
  of the events. The human and JUnit reporters write nothing to it.\<close>

theorem stdout_purity:
  assumes "run_events (on_event to_json to_xml) es r w = Some (r', w')"
  shows "io_stdout w' = io_stdout w @
           concat (map (\<lambda>e. concat (replicate (json_leaves r) (json_line to_json e))) es)"
  using rp.run_out [OF assms] by blast

definition ex_io :: io where
  "ex_io = \<lparr>io_stdout = [], io_stderr = [], io_files = (\<lambda>_. None), io_create_err = (\<lambda>_. None),
            io_write_err = (\<lambda>_. None)\<rparr>"

definition ex_json :: "MachineEvent \<Rightarrow> string option" where
  "ex_json e = Some (case e of RunStart n \<Rightarrow> ''start'' | _ \<Rightarrow> ''other'')"

theorem stdout_purity_witness:
  "\<exists>w'. run_events (on_event ex_json (\<lambda>_. Inl ''no xml'')) [RunStart 0, RunFinished 0 0 0 5]
       (MultiRep [HumanRep, JsonRep]) ex_io = Some (MultiRep [HumanRep, JsonRep], w')
     \<and> io_stdout w' = ''start'' @ NL @ ''other'' @ NL"
proof -
  have "\<exists>w'. run_events (on_event ex_json (\<lambda>_. Inl ''no xml'')) [RunStart 0, RunFinished 0 0 0 5]
       (MultiRep [HumanRep, JsonRep]) ex_io = Some (MultiRep [HumanRep, JsonRep], w')"
    by (simp add: json_event_def ex_json_def)
  then obtain w' where w': "run_events (on_event ex_json (\<lambda>_. Inl ''no xml'')) [RunStart 0, RunFinished 0 0 0 5]
       (MultiRep [HumanRep, JsonRep]) ex_io = Some (MultiRep [HumanRep, JsonRep], w')" by blast
  from stdout_purity [OF w'] have "io_stdout w' = ''start'' @ NL @ ''other'' @ NL"
    by (simp add: ex_io_def ex_json_def json_line_def)
  with w' show ?thesis by blast
qed

text \<open>C39: The JUnit file has one case for every test that finished in the run, in order, with the
  name split at the first double colon and a failure exactly for a status other than pass; the
  counters are those of the end-of-run event. What was buffered before the run is not in it.\<close>

theorem junit_report_written:
  assumes "list_all (\<lambda>e. \<not> is_run_event e) es"
    and "io_create_err w (jr_output_path r) = None" and "io_write_err w (jr_output_path r) = None"
    and "to_xml \<lparr>tss_suites = [\<lparr>ts_name = ''tach'', ts_tests = p + f + sk, ts_failures = f, ts_errors = 0,
            ts_skipped = sk, ts_time_ms = d, ts_cases = List.map_filter finished_case es\<rparr>]\<rparr> = Inr xml"
  shows "\<exists>r' w'. run_events (on_event to_json to_xml) (RunStart n # es @ [RunFinished p f sk d]) (JunitRep r) w
           = Some (JunitRep r', w')
         \<and> io_files w' = (io_files w)(jr_output_path r \<mapsto> xml_declaration @ xml) \<and> jr_cases r' = []"
proof -
  have app: "run_events st (xs @ ys) s u =
      (case run_events st xs s u of None \<Rightarrow> None | Some (s', u') \<Rightarrow> run_events st ys s' u')"
    for st :: "MachineEvent \<Rightarrow> reporter \<Rightarrow> io \<Rightarrow> (reporter \<times> io) option" and xs ys s u
    by (induction xs arbitrary: s u) (auto split: option.splits)
  let ?r0 = "r\<lparr>jr_cases := [], jr_error_message := None\<rparr>"
  obtain m where "run_events (on_event to_json to_xml) es (JunitRep ?r0) w =
      Some (JunitRep (?r0\<lparr>jr_cases := jr_cases ?r0 @ List.map_filter finished_case es, jr_error_message := m\<rparr>), w)"
    using junit_body [OF assms(1)] by blast
  then show ?thesis
    using assms(2-4) by (simp add: app junit_suite_def write_report_def eprint_def Let_def)
qed

definition ex_junit_events :: "MachineEvent list" where
  "ex_junit_events = [TestStart ''a.py::t'' ''a.py'', TestFinished ''a.py::t'' ''fail'' 7 None]"

definition ex_junit_suite :: TestSuite where
  "ex_junit_suite = \<lparr>ts_name = ''tach'', ts_tests = 0 + 1 + 0, ts_failures = 1, ts_errors = 0, ts_skipped = 0,
     ts_time_ms = 9, ts_cases = List.map_filter finished_case ex_junit_events\<rparr>"

theorem junit_report_written_witness:
  "\<exists>r' w'. run_events (on_event ex_json (\<lambda>x. if x = \<lparr>tss_suites = [ex_junit_suite]\<rparr> then Inr ''XML'' else Inl []))
       (RunStart 1 # ex_junit_events @ [RunFinished 0 1 0 9]) (JunitRep (new_junit [Normal ''out.xml''])) ex_io
     = Some (JunitRep r', w')
     \<and> io_files w' = (io_files ex_io)([Normal ''out.xml''] \<mapsto> xml_declaration @ ''XML'') \<and> jr_cases r' = []"
  using junit_report_written [of ex_junit_events ex_io "new_junit [Normal ''out.xml'']"
      "\<lambda>x. if x = \<lparr>tss_suites = [ex_junit_suite]\<rparr> then Inr ''XML'' else Inl []" 0 1 0 9 "''XML''" ex_json 1]
  by (simp add: ex_junit_suite_def new_junit_def ex_io_def ex_junit_events_def)

text \<open>Cleaning a message removes escape sequences and NULs and nothing else: no escape and no NUL
  is left, the result is a subsequence of the message, cleaning twice changes nothing more, and a
  message without escapes and NULs is kept.\<close>

theorem strip_ansi_codes_clean:
  "ESC \<notin> set (strip_ansi_codes s) \<and> CHR 0x00 \<notin> set (strip_ansi_codes s)
   \<and> subseq (strip_ansi_codes s) s
   \<and> strip_ansi_codes (strip_ansi_codes s) = strip_ansi_codes s
   \<and> (ESC \<notin> set s \<and> CHR 0x00 \<notin> set s \<longrightarrow> strip_ansi_codes s = s)"
proof -
  have keep: "ESC \<notin> set t \<Longrightarrow> CHR 0x00 \<notin> set t \<Longrightarrow> strip_ansi_codes t = t" for t
    by (induction t) auto
  have skip: "subseq (skip_csi t) t" for t
    by (induction t) auto
  have skip_sub: "subseq u (skip_csi t) \<Longrightarrow> subseq u (a # b # t)" for u t a b
    using skip [of t] by (meson list_emb_Cons subseq_order.trans)
  have "ESC \<notin> set (strip_ansi_codes s) \<and> CHR 0x00 \<notin> set (strip_ansi_codes s)
      \<and> subseq (strip_ansi_codes s) s"
  proof (induction s rule: strip_ansi_codes.induct)
    case (2 c cs)
    show ?case
    proof (cases "c = ESC")
      case True
      then show ?thesis
        using 2 skip_sub by (cases cs) auto
    next
      case False
      then show ?thesis using 2 by auto
    qed
  qed simp
  with keep show ?thesis by simp
qed

theorem strip_ansi_codes_clean_witness:
  "strip_ansi_codes ''plain'' = ''plain''"
  using strip_ansi_codes_clean [of "''plain''"] by (simp add: ESC_def)

end
