(* ===== verification/Scheduler.thy ===== *)
theory Scheduler
  imports Protocol Logcapture Resolver Reporter
begin

text \<open>
  The scheduler (\<^verbatim>\<open>scheduler.rs\<close>): it sends tests to the zygote, at most one per worker slot at a
  time, collects the results from the result socket and reports them.

  The calls to the reporter are recorded as the list of their events. What the outside does is
  input: the bytes and read timeouts of the sockets, the outcomes of the writes, the readings of
  the clock (in nanoseconds, one for each call of \<^verbatim>\<open>Instant::now\<close>) and the shutdown flag at each
  iteration of the dispatch loop. The two loops that wait for results are partial functions:
  \<^const>\<open>None\<close> means that the loop never ends. \<^verbatim>\<open>try_collect_result\<close>, the older variant that prints the result itself and
  that nothing calls any more, is compared with the one in use.
\<close>

section \<open>State\<close>

record ActiveWorker =
  aw_test_name :: string
  aw_slot :: nat
  aw_start_time :: nat

record Scheduler =
  sc_cmd_socket :: sock
  sc_result_socket :: "rd_item list"
  sc_log_capture :: LogCapture
  sc_active_workers :: "(u32, ActiveWorker) hashmap"
  sc_max_workers :: nat
  sc_debug_socket_path :: path
  sc_os :: os
  sc_clock :: "nat \<Rightarrow> nat"
  sc_tick :: nat

record SchedulerStats =
  st_total :: nat
  st_passed :: nat
  st_failed :: nat
  st_duration_ms :: u64

datatype dispatch_error = SerializeFailed | WriteFailed | ReadPidFailed

definition new_scheduler ::
  "sock \<Rightarrow> rd_item list \<Rightarrow> LogCapture \<Rightarrow> path \<Rightarrow> os \<Rightarrow> (nat \<Rightarrow> nat) \<Rightarrow> Scheduler" where
  "new_scheduler cmd result_in capture debug_path s clock =
     \<lparr>sc_cmd_socket = cmd, sc_result_socket = result_in, sc_log_capture = capture,
      sc_active_workers = [], sc_max_workers = slot_count capture, sc_debug_socket_path = debug_path,
      sc_os = s, sc_clock = clock, sc_tick = 0\<rparr>"

text \<open>Making a scheduler fails when the read timeout of the result socket cannot be set.\<close>

definition scheduler_new ::
  "bool \<Rightarrow> sock \<Rightarrow> rd_item list \<Rightarrow> LogCapture \<Rightarrow> path \<Rightarrow> os \<Rightarrow> (nat \<Rightarrow> nat) \<Rightarrow> Scheduler option" where
  "scheduler_new timeout_ok cmd result_in capture debug_path s clock =
     (if \<not> timeout_ok then None else Some (new_scheduler cmd result_in capture debug_path s clock))"

text \<open>\<^verbatim>\<open>Instant::now()\<close>; \<^verbatim>\<open>elapsed\<close> saturates at zero, as subtraction of \<^typ>\<open>nat\<close> does.\<close>

definition instant_now :: "Scheduler \<Rightarrow> nat \<times> Scheduler" where
  "instant_now s = (sc_clock s (sc_tick s), s\<lparr>sc_tick := Suc (sc_tick s)\<rparr>)"

definition secs :: "nat \<Rightarrow> nat" where "secs n = n * 1000000000"

section \<open>Collecting a result\<close>

type_synonym report = "string \<times> string \<times> u64 \<times> string option"

definition format_result :: "string \<Rightarrow> TestResult \<Rightarrow> report" where
  "format_result test_name r =
     (test_name, if tr_status r = STATUS_PASS then ''pass'' else ''fail'',
      tr_duration_ns r div 1000000, if tr_message r = [] then None else Some (tr_message r))"

definition try_collect_result_for_reporter ::
  "(u8 list \<Rightarrow> TestResult option) \<Rightarrow> Scheduler \<Rightarrow> report option \<times> Scheduler" where
  "try_collect_result_for_reporter de s =
     (case read_frame (sc_result_socket s) of
        (None, rest) \<Rightarrow> (None, s\<lparr>sc_result_socket := rest\<rparr>)
      | (Some result_buf, rest) \<Rightarrow>
        (case de result_buf of
           None \<Rightarrow> (None, s\<lparr>sc_result_socket := rest\<rparr>)
         | Some r \<Rightarrow>
           (let workers = sc_active_workers s;
                (test_name, slot) = (case hm_get workers (tr_test_id r) of
                    Some w \<Rightarrow> (aw_test_name w, aw_slot w)
                  | None \<Rightarrow> (''test_'' @ show_nat (unat (tr_test_id r)), 0));
                (_, s') = read_and_clear (sc_log_capture s) slot (sc_os s)
            in (Some (format_result test_name r),
                s\<lparr>sc_result_socket := rest, sc_active_workers := hm_remove (tr_test_id r) workers,
                  sc_os := s'\<rparr>))))"

text \<open>
  The variant that prints to stdout. A log line is cut by slicing at byte 80, which panics inside a
  character: \<^term>\<open>Inl ()\<close>, with what was printed before. Printing a number of milliseconds with two
  decimals is a parameter.
\<close>

definition println :: "string \<Rightarrow> string" where "println s = s @ [CHR 0x0A]"

fun print_logs :: "string list \<Rightarrow> bool \<times> string" where
  "print_logs [] = (True, [])"
| "print_logs (line # rest) =
     (case str_slice_to line (min (length line) 80) of
        None \<Rightarrow> (False, [])
      | Some l \<Rightarrow>
        (let (ok, text) = print_logs rest
         in (ok, println (''    '' @ [CHR 0xE2, CHR 0x94, CHR 0x82] @ '' '' @ l) @ text)))"

definition try_collect_result ::
  "(u64 \<Rightarrow> string) \<Rightarrow> (u8 list \<Rightarrow> TestResult option) \<Rightarrow> Scheduler
     \<Rightarrow> (unit, TestResult option) result \<times> string \<times> Scheduler" where
  "try_collect_result fmt_ms de s =
     (case read_exact 4 (sc_result_socket s) of
        (None, rest) \<Rightarrow> (Inr None, [], s\<lparr>sc_result_socket := rest\<rparr>)
      | (Some len_buf, rest) \<Rightarrow>
        (case read_exact (unat (u32_from_le len_buf)) rest of
           (None, rest') \<Rightarrow> (Inr None, [], s\<lparr>sc_result_socket := rest'\<rparr>)
         | (Some result_buf, rest') \<Rightarrow>
           (case de result_buf of
              None \<Rightarrow> (Inr None, [], s\<lparr>sc_result_socket := rest'\<rparr>)
            | Some result \<Rightarrow>
              (let (test_name, slot) = (case hm_get (sc_active_workers s) (tr_test_id result) of
                       Some w \<Rightarrow> (aw_test_name w, aw_slot w)
                     | None \<Rightarrow> (''test_'' @ show_nat (unat (tr_test_id result)), 0));
                   (read, k) = read_and_clear (sc_log_capture s) slot (sc_os s);
                   logs = (case read of Inr l \<Rightarrow> l | Inl _ \<Rightarrow> []);
                   s' = s\<lparr>sc_result_socket := rest', sc_os := k,
                          sc_active_workers := hm_remove (tr_test_id result) (sc_active_workers s)\<rparr>;
                   header = println (''  '' @ status_icon result @ '' '' @ test_name @ '' ('' @ fmt_ms (tr_duration_ns result) @ ''ms)'');
                   (ok, log_text) = (if logs = [] then (True, []) else print_logs (take 3 (str_lines logs)));
                   message = (if tr_message result = [] then []
                              else println (''    '' @ [CHR 0xE2, CHR 0x94, CHR 0x94, CHR 0xE2, CHR 0x94, CHR 0x80] @ '' '' @ tr_message result))
               in if ok then (Inr (Some result), header @ log_text @ message, s')
                  else (Inl (), header @ log_text, s')))))"

section \<open>Dispatching a test\<close>

definition test_payload :: "Scheduler \<Rightarrow> RunnableTest \<Rightarrow> u32 \<Rightarrow> nat \<Rightarrow> TestPayload" where
  "test_payload s test test_id slot =
     \<lparr>tp_test_id = test_id, tp_file_path = path_text (rt_file_path test),
      tp_test_name = rt_test_name test, tp_is_async = rt_is_async test,
      tp_fixtures = map (\<lambda>f. from_scope (rf_name f) (rf_scope f)) (rt_fixtures test),
      tp_log_fd = (case get_fd (sc_log_capture s) slot of None \<Rightarrow> - 1 | Some fd \<Rightarrow> fd),
      tp_debug_socket_path = path_text (sc_debug_socket_path s)\<rparr>"

text \<open>The writes of a command, each of which may fail; the ones before it have been sent.\<close>

fun write_each :: "u8 list list \<Rightarrow> sock \<Rightarrow> bool \<times> sock" where
  "write_each [] c = (True, c)"
| "write_each (bs # rest) c =
     (let (ok, c') = write_all bs c in if ok then write_each rest c' else (False, c'))"

definition dispatch_test ::
  "(TestPayload \<Rightarrow> u8 list option) \<Rightarrow> RunnableTest \<Rightarrow> u32 \<Rightarrow> nat \<Rightarrow> Scheduler
     \<Rightarrow> (dispatch_error, unit) result \<times> Scheduler" where
  "dispatch_test ser test test_id slot s =
     (case ser (test_payload s test test_id slot) of
        None \<Rightarrow> (Inl SerializeFailed, s)
      | Some payload_bytes \<Rightarrow>
        (let len = of_nat (length payload_bytes) :: u32;
             (ok, cmd) = write_each [[CMD_FORK], u32_to_le len, payload_bytes] (sc_cmd_socket s) in
         if \<not> ok then (Inl WriteFailed, s\<lparr>sc_cmd_socket := cmd\<rparr>)
         else
           (case read_exact 4 (s_in cmd) of
              (None, rest) \<Rightarrow> (Inl ReadPidFailed, s\<lparr>sc_cmd_socket := cmd\<lparr>s_in := rest\<rparr>\<rparr>)
            | (Some pid_buf, rest) \<Rightarrow>
              (let (now, s') = instant_now (s\<lparr>sc_cmd_socket := cmd\<lparr>s_in := rest\<rparr>\<rparr>) in
               (Inr (), s'\<lparr>sc_active_workers :=
                  hm_insert test_id \<lparr>aw_test_name = rt_test_name test, aw_slot = slot, aw_start_time = now\<rparr>
                    (sc_active_workers s')\<rparr>)))))"

section \<open>Stale workers\<close>

text \<open>The workers that have run for longer than the timeout; the clock is read for each.\<close>

fun scan_stale :: "nat \<Rightarrow> (u32 \<times> ActiveWorker) list \<Rightarrow> Scheduler \<Rightarrow> (u32 \<times> string \<times> nat) list \<times> Scheduler" where
  "scan_stale timeout [] s = ([], s)"
| "scan_stale timeout ((i, w) # ws) s =
     (let (now, s1) = instant_now s; (rest, s2) = scan_stale timeout ws s1 in
      (if now - aw_start_time w > timeout then (i, aw_test_name w, aw_slot w) # rest else rest, s2))"

definition get_stale_workers :: "nat \<Rightarrow> Scheduler \<Rightarrow> (u32 \<times> string \<times> nat) list \<times> Scheduler" where
  "get_stale_workers timeout s = scan_stale timeout (sc_active_workers s) s"

definition sched_shutdown :: "Scheduler \<Rightarrow> bool \<times> Scheduler" where
  "sched_shutdown s =
     (let (ok, c) = write_all [CMD_EXIT] (sc_cmd_socket s) in (ok, s\<lparr>sc_cmd_socket := c\<rparr>))"

section \<open>The run\<close>

text \<open>The scheduler with the local variables of \<^verbatim>\<open>run\<close> and the events reported so far.\<close>

record running =
  rn_sched :: Scheduler
  rn_passed :: nat
  rn_failed :: nat
  rn_collected :: nat
  rn_events :: "MachineEvent list"

definition report_event :: "MachineEvent \<Rightarrow> running \<Rightarrow> running" where
  "report_event e r = r\<lparr>rn_events := rn_events r @ [e]\<rparr>"

definition count_result :: "report \<Rightarrow> running \<Rightarrow> running" where
  "count_result rep r =
     (case rep of (test_name, status, duration_ms, msg) \<Rightarrow>
        let r' = report_event (TestFinished test_name status duration_ms msg) r in
        (if status = ''pass'' then r'\<lparr>rn_passed := rn_passed r' + 1\<rparr>
         else r'\<lparr>rn_failed := rn_failed r' + 1\<rparr>)
        \<lparr>rn_collected := rn_collected r' + 1\<rparr>)"

partial_function (option) wait_capacity ::
  "(u8 list \<Rightarrow> TestResult option) \<Rightarrow> running \<Rightarrow> running option" where
  "wait_capacity de r =
     (if length (sc_active_workers (rn_sched r)) \<ge> sc_max_workers (rn_sched r)
      then (case try_collect_result_for_reporter de (rn_sched r) of
              (Some rep, s) \<Rightarrow> wait_capacity de (count_result rep (r\<lparr>rn_sched := s\<rparr>))
            | (None, s) \<Rightarrow> wait_capacity de (r\<lparr>rn_sched := s\<rparr>))
      else Some r)"

definition start_test ::
  "(TestPayload \<Rightarrow> u8 list option) \<Rightarrow> (dispatch_error \<Rightarrow> string) \<Rightarrow> u32 \<Rightarrow> RunnableTest \<Rightarrow> nat \<Rightarrow> running \<Rightarrow> running"
where
  "start_test ser err_text test_id test slot r =
     (let r1 = report_event (TestStart (rt_test_name test) (path_text (rt_file_path test))) r;
          (res, s) = dispatch_test ser test test_id slot (rn_sched r1);
          r2 = r1\<lparr>rn_sched := s\<rparr>
      in case res of
           Inr () \<Rightarrow> r2
         | Inl e \<Rightarrow> count_result (rt_test_name test, ''fail'', 0, Some (err_text e)) r2)"

text \<open>The dispatch loop: \<^term>\<open>Inl ()\<close> is the panic of the division when there are no slots.\<close>

fun dispatch_all ::
  "(u8 list \<Rightarrow> TestResult option) \<Rightarrow> (TestPayload \<Rightarrow> u8 list option) \<Rightarrow> (dispatch_error \<Rightarrow> string)
     \<Rightarrow> (u32 \<Rightarrow> bool) \<Rightarrow> (u32 \<times> RunnableTest) list \<Rightarrow> running \<Rightarrow> (unit, running) result option"
where
  "dispatch_all de ser err_text shut [] r = Some (Inr r)"
| "dispatch_all de ser err_text shut ((test_id, test) # queue) r =
     (if shut test_id then Some (Inr (report_event (ErrorEvent ''Shutdown requested'') r))
      else if sc_max_workers (rn_sched r) = 0 then Some (Inl ())
      else let slot = unat test_id mod sc_max_workers (rn_sched r) in
           Option.bind (wait_capacity de r) (\<lambda>r'.
             dispatch_all de ser err_text shut queue (start_test ser err_text test_id test slot r')))"

fun report_stale :: "(u32 \<times> string \<times> nat) list \<Rightarrow> running \<Rightarrow> running" where
  "report_stale [] r = r"
| "report_stale ((test_id, test_name, slot) # stale) r =
     (let r1 = report_event (TestFinished test_name ''fail'' 0 (Some ''CRASHED - no response'')) r;
          s = rn_sched r1;
          (_, k) = read_and_clear (sc_log_capture s) slot (sc_os s);
          s' = s\<lparr>sc_os := k, sc_active_workers := hm_remove test_id (sc_active_workers s)\<rparr>
      in report_stale stale
           (r1\<lparr>rn_sched := s', rn_failed := rn_failed r1 + 1, rn_collected := rn_collected r1 + 1\<rparr>))"

definition collect_step :: "(u8 list \<Rightarrow> TestResult option) \<Rightarrow> running \<Rightarrow> running" where
  "collect_step de r =
     (case try_collect_result_for_reporter de (rn_sched r) of
        (Some rep, s) \<Rightarrow> count_result rep (r\<lparr>rn_sched := s\<rparr>)
      | (None, s) \<Rightarrow>
        (let (stale, s') = get_stale_workers (secs 3) s in report_stale stale (r\<lparr>rn_sched := s'\<rparr>)))"

partial_function (option) collect_remaining ::
  "(u8 list \<Rightarrow> TestResult option) \<Rightarrow> nat \<Rightarrow> nat \<Rightarrow> running \<Rightarrow> running option" where
  "collect_remaining de n_total deadline r =
     (if rn_collected r < n_total
      then (let (now, s) = instant_now (rn_sched r); r' = r\<lparr>rn_sched := s\<rparr> in
            if now < deadline then collect_remaining de n_total deadline (collect_step de r')
            else Some r')
      else Some r)"

definition enumerate_tests :: "RunnableTest list \<Rightarrow> (u32 \<times> RunnableTest) list" where
  "enumerate_tests tests = map (\<lambda>(i, t). (of_nat i, t)) (enumerate 0 tests)"

definition run_scheduler ::
  "(u8 list \<Rightarrow> TestResult option) \<Rightarrow> (TestPayload \<Rightarrow> u8 list option) \<Rightarrow> (dispatch_error \<Rightarrow> string)
     \<Rightarrow> (u32 \<Rightarrow> bool) \<Rightarrow> RunnableTest list \<Rightarrow> Scheduler
     \<Rightarrow> (unit, SchedulerStats \<times> running) result option"
where
  "run_scheduler de ser err_text shut tests s =
     (let (start, s1) = instant_now s; n_total = length tests;
          r0 = \<lparr>rn_sched = s1, rn_passed = 0, rn_failed = 0, rn_collected = 0, rn_events = [RunStart n_total]\<rparr>
      in case dispatch_all de ser err_text shut (enumerate_tests tests) r0 of
           None \<Rightarrow> None
         | Some (Inl ()) \<Rightarrow> Some (Inl ())
         | Some (Inr r1) \<Rightarrow>
           (let (now, s2) = instant_now (rn_sched r1); deadline = now + secs 10 in
            case collect_remaining de n_total deadline (r1\<lparr>rn_sched := s2\<rparr>) of
              None \<Rightarrow> None
            | Some r2 \<Rightarrow>
              (let (fin, s3) = instant_now (rn_sched r2);
                   duration_ms = of_nat ((fin - start) div 1000000) :: u64;
                   r3 = report_event (RunFinished (rn_passed r2) (rn_failed r2) 0 duration_ms) (r2\<lparr>rn_sched := s3\<rparr>)
               in Some (Inr (\<lparr>st_total = n_total, st_passed = rn_passed r3, st_failed = rn_failed r3,
                              st_duration_ms = duration_ms\<rparr>, r3)))))"

section \<open>Invariants of a run\<close>

lemma instant_now_simps [simp]:
  "fst (instant_now s) = sc_clock s (sc_tick s)"
  "snd (instant_now s) = s\<lparr>sc_tick := Suc (sc_tick s)\<rparr>"
  by (simp_all add: instant_now_def)

lemma scan_stale_state: "snd (scan_stale t ws s) = s\<lparr>sc_tick := sc_tick s + length ws\<rparr>"
proof (induction t ws s rule: scan_stale.induct)
  case (2 t i w ws s)
  show ?case using "2.IH" [OF refl prod.collapse]
    by (cases "scan_stale t ws (snd (instant_now s))") (simp add: instant_now_def Let_def)
qed simp

lemma get_stale_workers_state:
  "get_stale_workers t s = (stale, s') \<Longrightarrow> s' = s\<lparr>sc_tick := sc_tick s + length (sc_active_workers s)\<rparr>"
  by (metis get_stale_workers_def scan_stale_state snd_conv)

text \<open>Only the names of active workers are called stale.\<close>

lemma scan_stale_names:
  "x \<in> set (fst (scan_stale t ws s)) \<Longrightarrow> \<exists>w\<in>snd ` set ws. fst (snd x) = aw_test_name w"
proof (induction t ws s rule: scan_stale.induct)
  case (2 t i w ws s)
  show ?case using "2.IH" [OF refl prod.collapse] "2.prems"
    by (cases "scan_stale t ws (snd (instant_now s))") (auto simp: instant_now_def Let_def split: if_splits)
qed simp

lemma report_stale_Cons: "report_stale (x # xs) r = report_stale xs (report_stale [x] r)"
  by (cases x) (simp add: Let_def split: prod.split)

lemma wait_capacity_keeps:
  assumes "wait_capacity de r = Some r'" and "P r"
    and hit: "\<And>r rep s. P r \<Longrightarrow> try_collect_result_for_reporter de (rn_sched r) = (Some rep, s) \<Longrightarrow>
               P (count_result rep (r\<lparr>rn_sched := s\<rparr>))"
    and miss: "\<And>r s. P r \<Longrightarrow> try_collect_result_for_reporter de (rn_sched r) = (None, s) \<Longrightarrow> P (r\<lparr>rn_sched := s\<rparr>)"
  shows "P r' \<and> length (sc_active_workers (rn_sched r')) < sc_max_workers (rn_sched r')"
proof -
  let ?Q = "\<lambda>d r r'. d = de \<longrightarrow> P r \<longrightarrow>
      P r' \<and> length (sc_active_workers (rn_sched r')) < sc_max_workers (rn_sched r')"
  have "?Q de r r'"
  proof (rule wait_capacity.raw_induct [where P = ?Q, OF _ assms(1)], intro impI)
    fix f d r y assume IH: "\<And>d r y. f d r = Some y \<Longrightarrow> ?Q d r y" and d: "d = de" and P: "P r"
      and eq: "(if length (sc_active_workers (rn_sched r)) \<ge> sc_max_workers (rn_sched r)
        then (case try_collect_result_for_reporter d (rn_sched r) of
              (Some rep, s) \<Rightarrow> f d (count_result rep (r\<lparr>rn_sched := s\<rparr>))
            | (None, s) \<Rightarrow> f d (r\<lparr>rn_sched := s\<rparr>))
        else Some r) = Some y"
    obtain rep s where t: "try_collect_result_for_reporter d (rn_sched r) = (rep, s)" by fastforce
    show "P y \<and> length (sc_active_workers (rn_sched y)) < sc_max_workers (rn_sched y)"
      using eq IH P t d hit [OF P] miss [OF P]
      by (cases "length (sc_active_workers (rn_sched r)) \<ge> sc_max_workers (rn_sched r)"; cases rep) force+
  qed
  with assms(2) show ?thesis by simp
qed

lemma try_collect_max [simp]:
  "try_collect_result_for_reporter de s = (rep, s') \<Longrightarrow> sc_max_workers s' = sc_max_workers s"
  by (auto simp: try_collect_result_for_reporter_def Let_def split: prod.splits option.splits)

lemma count_result_sched [simp]: "rn_sched (count_result rep r) = rn_sched r"
  by (simp add: count_result_def report_event_def Let_def split: prod.split)

lemma wait_capacity_max:
  assumes "wait_capacity de r = Some r'"
  shows "sc_max_workers (rn_sched r') = sc_max_workers (rn_sched r)"
proof -
  have "sc_max_workers (rn_sched r') = sc_max_workers (rn_sched r)
      \<and> length (sc_active_workers (rn_sched r')) < sc_max_workers (rn_sched r')"
    by (rule wait_capacity_keeps [OF assms]) simp_all
  then show ?thesis by blast
qed

lemma collect_step_keeps:
  assumes "P r"
    and hit: "\<And>r rep s. P r \<Longrightarrow> try_collect_result_for_reporter de (rn_sched r) = (Some rep, s) \<Longrightarrow>
               P (count_result rep (r\<lparr>rn_sched := s\<rparr>))"
    and miss: "\<And>r s. P r \<Longrightarrow> try_collect_result_for_reporter de (rn_sched r) = (None, s) \<Longrightarrow> P (r\<lparr>rn_sched := s\<rparr>)"
    and tick: "\<And>r n. P r \<Longrightarrow> P (r\<lparr>rn_sched := (rn_sched r)\<lparr>sc_tick := n\<rparr>\<rparr>)"
    and stale: "\<And>r x. P r \<Longrightarrow> Q (fst (snd x)) \<Longrightarrow> P (report_stale [x] r)"
    and names: "\<And>r w. P r \<Longrightarrow> w \<in> snd ` set (sc_active_workers (rn_sched r)) \<Longrightarrow> Q (aw_test_name w)"
  shows "P (collect_step de r)"
proof -
  have st: "P r \<Longrightarrow> list_all (\<lambda>x. Q (fst (snd x))) xs \<Longrightarrow> P (report_stale xs r)" for xs r
    by (induction xs arbitrary: r) (simp, metis list.pred_inject(2) report_stale_Cons stale)
  obtain rep s where t: "try_collect_result_for_reporter de (rn_sched r) = (rep, s)" by fastforce
  show ?thesis
  proof (cases rep)
    case None
    obtain sl s' where g: "get_stale_workers (secs 3) s = (sl, s')" by fastforce
    have P: "P (r\<lparr>rn_sched := s'\<rparr>)"
      using tick [OF miss [OF assms(1)], of s] t None get_stale_workers_state [OF g] by simp
    have "sl = fst (scan_stale (secs 3) (sc_active_workers s) s)" using g by (simp add: get_stale_workers_def)
    moreover have "Q (aw_test_name w)" if "w \<in> snd ` set (sc_active_workers s)" for w
      using names [OF miss [OF assms(1)], of s w] t None that by simp
    ultimately have "list_all (\<lambda>x. Q (fst (snd x))) sl" using scan_stale_names by (fastforce simp: list_all_iff)
    with P show ?thesis by (simp add: collect_step_def t None g st)
  next
    case (Some x)
    with hit [OF assms(1), of x s] t show ?thesis by (simp add: collect_step_def)
  qed
qed

lemma collect_remaining_keeps:
  assumes "collect_remaining de n deadline r = Some r'" and "P r"
    and hit: "\<And>r rep s. P r \<Longrightarrow> try_collect_result_for_reporter de (rn_sched r) = (Some rep, s) \<Longrightarrow>
               P (count_result rep (r\<lparr>rn_sched := s\<rparr>))"
    and miss: "\<And>r s. P r \<Longrightarrow> try_collect_result_for_reporter de (rn_sched r) = (None, s) \<Longrightarrow> P (r\<lparr>rn_sched := s\<rparr>)"
    and tick: "\<And>r n. P r \<Longrightarrow> P (r\<lparr>rn_sched := (rn_sched r)\<lparr>sc_tick := n\<rparr>\<rparr>)"
    and stale: "\<And>r x. P r \<Longrightarrow> Q (fst (snd x)) \<Longrightarrow> P (report_stale [x] r)"
    and names: "\<And>r w. P r \<Longrightarrow> w \<in> snd ` set (sc_active_workers (rn_sched r)) \<Longrightarrow> Q (aw_test_name w)"
  shows "P r'"
proof -
  let ?Q = "\<lambda>d (n::nat) (dl::nat) r r'. d = de \<longrightarrow> P r \<longrightarrow> P r'"
  have "?Q de n deadline r r'"
  proof (rule collect_remaining.raw_induct [where P = ?Q, OF _ assms(1)], intro impI)
    fix f d n dl r y assume IH: "\<And>d n dl r y. f d n dl r = Some y \<Longrightarrow> ?Q d n dl r y" and d: "d = de" and P: "P r"
      and eq: "(if rn_collected r < n
        then let (now, s) = instant_now (rn_sched r); r' = r\<lparr>rn_sched := s\<rparr>
             in if now < dl then f d n dl (collect_step d r') else Some r'
        else Some r) = Some y"
    let ?r = "r\<lparr>rn_sched := (rn_sched r)\<lparr>sc_tick := Suc (sc_tick (rn_sched r))\<rparr>\<rparr>"
    have "P ?r" by (rule tick [OF P])
    moreover have "P (collect_step de ?r)"
      by (rule collect_step_keeps [where P = P and Q = Q, OF tick [OF P]]) (fact hit miss tick stale names)+
    ultimately show "P y" using eq IH P d
      by (auto simp: instant_now_def Let_def split: if_splits)
  qed
  with assms(2) show ?thesis by simp
qed

text \<open>The phases of a run that returns.\<close>

definition run_init :: "RunnableTest list \<Rightarrow> Scheduler \<Rightarrow> running" where
  "run_init tests s = \<lparr>rn_sched = s\<lparr>sc_tick := Suc (sc_tick s)\<rparr>, rn_passed = 0, rn_failed = 0, rn_collected = 0,
     rn_events = [RunStart (length tests)]\<rparr>"

lemma run_phases:
  assumes "run_scheduler de ser err_text shut tests s = Some (Inr (stats, r))"
  obtains r1 r2 n d where
    "dispatch_all de ser err_text shut (enumerate_tests tests) (run_init tests s) = Some (Inr r1)"
    and "collect_remaining de (length tests) (sc_clock (rn_sched r1) (sc_tick (rn_sched r1)) + secs 10)
      (r1\<lparr>rn_sched := (rn_sched r1)\<lparr>sc_tick := Suc (sc_tick (rn_sched r1))\<rparr>\<rparr>) = Some r2"
    and "rn_events r = rn_events r2 @ [RunFinished (rn_passed r2) (rn_failed r2) 0 d]"
    and "stats = \<lparr>st_total = length tests, st_passed = rn_passed r2, st_failed = rn_failed r2, st_duration_ms = d\<rparr>"
    and "rn_sched r = (rn_sched r2)\<lparr>sc_tick := n\<rparr>" and "rn_collected r = rn_collected r2"
proof -
  let ?tick = "\<lambda>r. r\<lparr>rn_sched := (rn_sched r)\<lparr>sc_tick := Suc (sc_tick (rn_sched r))\<rparr>\<rparr>"
  note run = assms [unfolded run_scheduler_def instant_now_def Let_def prod.case, folded run_init_def]
  obtain r1 where d: "dispatch_all de ser err_text shut (enumerate_tests tests) (run_init tests s) = Some (Inr r1)"
    using run by (cases "dispatch_all de ser err_text shut (enumerate_tests tests) (run_init tests s)")
      (auto split: sum.splits unit.splits)
  obtain r2 where c: "collect_remaining de (length tests)
      (sc_clock (rn_sched r1) (sc_tick (rn_sched r1)) + secs 10) (?tick r1) = Some r2"
    using run d by (cases "collect_remaining de (length tests)
      (sc_clock (rn_sched r1) (sc_tick (rn_sched r1)) + secs 10) (?tick r1)") auto
  show ?thesis
    by (rule that [OF d c, where n = "Suc (sc_tick (rn_sched r2))"]) (use run d c in \<open>auto simp: report_event_def\<close>)
qed

text \<open>
  The contract that the steps of a run share: a property of the running scheduler that every
  single step keeps, for the tests that satisfy a condition, is kept by the loops and holds when a run
  of such tests ends. It may rest on a property of the names of the active workers.
\<close>

locale test_invariant =
  fixes I :: "running \<Rightarrow> bool"
    and ok :: "RunnableTest \<Rightarrow> bool"
    and name_ok :: "string \<Rightarrow> bool"
    and de :: "u8 list \<Rightarrow> TestResult option"
    and ser :: "TestPayload \<Rightarrow> u8 list option"
    and err_text :: "dispatch_error \<Rightarrow> string"
  assumes collect: "I r \<Longrightarrow> try_collect_result_for_reporter de (rn_sched r) = (Some rep, s) \<Longrightarrow>
      I (count_result rep (r\<lparr>rn_sched := s\<rparr>))"
    and miss: "I r \<Longrightarrow> try_collect_result_for_reporter de (rn_sched r) = (None, s) \<Longrightarrow> I (r\<lparr>rn_sched := s\<rparr>)"
    and tick: "I r \<Longrightarrow> I (r\<lparr>rn_sched := (rn_sched r)\<lparr>sc_tick := n\<rparr>\<rparr>)"
    and start: "I r \<Longrightarrow> ok t \<Longrightarrow> length (sc_active_workers (rn_sched r)) < sc_max_workers (rn_sched r) \<Longrightarrow>
      slot = unat i mod sc_max_workers (rn_sched r) \<Longrightarrow> I (start_test ser err_text i t slot r)"
    and stale: "I r \<Longrightarrow> name_ok (fst (snd x)) \<Longrightarrow> I (report_stale [x] r)"
    and names: "I r \<Longrightarrow> w \<in> snd ` set (sc_active_workers (rn_sched r)) \<Longrightarrow> name_ok (aw_test_name w)"
    and error: "I r \<Longrightarrow> I (report_event (ErrorEvent ''Shutdown requested'') r)"
begin

lemma wait_keeps:
  "wait_capacity de r = Some r' \<Longrightarrow> I r \<Longrightarrow>
     I r' \<and> length (sc_active_workers (rn_sched r')) < sc_max_workers (rn_sched r')"
  by (rule wait_capacity_keeps) (auto intro: collect miss)

lemma dispatch_keeps:
  "dispatch_all de ser err_text shut queue r = Some (Inr r') \<Longrightarrow> list_all (\<lambda>x. ok (snd x)) queue \<Longrightarrow> I r \<Longrightarrow> I r'"
proof (induction queue arbitrary: r)
  case (Cons x queue)
  obtain i t where x: "x = (i, t)" by fastforce
  show ?case
  proof (cases "shut i")
    case True
    with Cons.prems x error show ?thesis by auto
  next
    case False
    with Cons.prems x have "sc_max_workers (rn_sched r) \<noteq> 0" by (auto split: if_splits)
    with False Cons.prems x obtain r1 where w: "wait_capacity de r = Some r1"
      and d: "dispatch_all de ser err_text shut queue
                (start_test ser err_text i t (unat i mod sc_max_workers (rn_sched r)) r1) = Some (Inr r')"
      by (auto simp: Let_def bind_eq_Some_conv)
    with Cons.prems(2) x wait_keeps [OF w Cons.prems(3)] Cons.IH [OF d] start wait_capacity_max [OF w] show ?thesis
      by simp
  qed
qed simp

lemma collect_keeps:
  "collect_remaining de n deadline r = Some r' \<Longrightarrow> I r \<Longrightarrow> I r'"
  by (rule collect_remaining_keeps [where Q = name_ok]) (auto intro: collect miss tick stale names)

text \<open>The end of a run.\<close>

lemma run_end:
  assumes "run_scheduler de ser err_text shut tests s = Some (Inr (stats, r))"
    and "list_all ok tests" and "I (run_init tests s)"
  obtains r2 n d where "I r2" and "rn_events r = rn_events r2 @ [RunFinished (rn_passed r2) (rn_failed r2) 0 d]"
    and "stats = \<lparr>st_total = length tests, st_passed = rn_passed r2, st_failed = rn_failed r2, st_duration_ms = d\<rparr>"
    and "rn_sched r = (rn_sched r2)\<lparr>sc_tick := n\<rparr>" and "rn_collected r = rn_collected r2"
proof -
  from assms(1) obtain r1 r2 n d where
    d: "dispatch_all de ser err_text shut (enumerate_tests tests) (run_init tests s) = Some (Inr r1)"
    and c: "collect_remaining de (length tests) (sc_clock (rn_sched r1) (sc_tick (rn_sched r1)) + secs 10)
      (r1\<lparr>rn_sched := (rn_sched r1)\<lparr>sc_tick := Suc (sc_tick (rn_sched r1))\<rparr>\<rparr>) = Some r2"
    and o: "rn_events r = rn_events r2 @ [RunFinished (rn_passed r2) (rn_failed r2) 0 d]"
      "stats = \<lparr>st_total = length tests, st_passed = rn_passed r2, st_failed = rn_failed r2, st_duration_ms = d\<rparr>"
      "rn_sched r = (rn_sched r2)\<lparr>sc_tick := n\<rparr>" "rn_collected r = rn_collected r2"
    by (rule run_phases)
  have "list_all (\<lambda>x. ok (snd x)) (enumerate_tests tests)"
    using assms(2) by (auto simp: enumerate_tests_def list_all_iff in_set_enumerate_eq)
  then have "I r2" by (intro collect_keeps [OF c tick [OF dispatch_keeps [OF d]]] assms(3))
  from that [OF this o] show ?thesis .
qed

end

text \<open>The case without conditions.\<close>

locale run_invariant =
  fixes I :: "running \<Rightarrow> bool"
    and de :: "u8 list \<Rightarrow> TestResult option"
    and ser :: "TestPayload \<Rightarrow> u8 list option"
    and err_text :: "dispatch_error \<Rightarrow> string"
  assumes collect: "I r \<Longrightarrow> try_collect_result_for_reporter de (rn_sched r) = (Some rep, s) \<Longrightarrow>
      I (count_result rep (r\<lparr>rn_sched := s\<rparr>))"
    and miss: "I r \<Longrightarrow> try_collect_result_for_reporter de (rn_sched r) = (None, s) \<Longrightarrow> I (r\<lparr>rn_sched := s\<rparr>)"
    and tick: "I r \<Longrightarrow> I (r\<lparr>rn_sched := (rn_sched r)\<lparr>sc_tick := n\<rparr>\<rparr>)"
    and start: "I r \<Longrightarrow> length (sc_active_workers (rn_sched r)) < sc_max_workers (rn_sched r) \<Longrightarrow>
      slot = unat i mod sc_max_workers (rn_sched r) \<Longrightarrow> I (start_test ser err_text i t slot r)"
    and stale: "I r \<Longrightarrow> I (report_stale [x] r)"
    and error: "I r \<Longrightarrow> I (report_event (ErrorEvent m) r)"

sublocale run_invariant \<subseteq> gen: test_invariant I "\<lambda>_. True" "\<lambda>_. True" de ser err_text
  by unfold_locales (fact collect miss tick start stale error | simp add: start)+

context run_invariant
begin

lemma dispatch_keeps: "dispatch_all de ser err_text shut queue r = Some (Inr r') \<Longrightarrow> I r \<Longrightarrow> I r'"
  by (rule gen.dispatch_keeps) (simp_all add: list_all_iff)

lemma run_end:
  assumes "run_scheduler de ser err_text shut tests s = Some (Inr (stats, r))"
    and "I (run_init tests s)"
  obtains r2 n d where "I r2" and "rn_events r = rn_events r2 @ [RunFinished (rn_passed r2) (rn_failed r2) 0 d]"
    and "stats = \<lparr>st_total = length tests, st_passed = rn_passed r2, st_failed = rn_failed r2, st_duration_ms = d\<rparr>"
    and "rn_sched r = (rn_sched r2)\<lparr>sc_tick := n\<rparr>" and "rn_collected r = rn_collected r2"
proof -
  have "list_all (\<lambda>_. True) tests" by (simp add: list_all_iff)
  from gen.run_end [OF assms(1) this assms(2)] that show ?thesis by blast
qed

end

lemma dispatch_test_Inl:
  "dispatch_test ser t i slot s = (Inl e, s') \<Longrightarrow>
     sc_active_workers s' = sc_active_workers s \<and> sc_max_workers s' = sc_max_workers s"
  by (auto simp: dispatch_test_def Let_def instant_now_def split: option.splits prod.splits if_splits)

lemma dispatch_test_Inr:
  "dispatch_test ser t i slot s = (Inr u, s') \<Longrightarrow>
     (\<exists>now. sc_active_workers s' = hm_insert i \<lparr>aw_test_name = rt_test_name t, aw_slot = slot, aw_start_time = now\<rparr>
        (sc_active_workers s)) \<and> sc_max_workers s' = sc_max_workers s"
  by (auto simp: dispatch_test_def Let_def instant_now_def split: option.splits prod.splits if_splits)

lemma try_collect_active:
  "try_collect_result_for_reporter de s = (rep, s') \<Longrightarrow>
     sc_active_workers s' = sc_active_workers s \<or> (\<exists>i. sc_active_workers s' = hm_remove i (sc_active_workers s))"
  by (auto simp: try_collect_result_for_reporter_def Let_def split: prod.splits option.splits)

lemma report_stale_single:
  "rn_events (report_stale [x] r) = rn_events r @ [TestFinished (fst (snd x)) ''fail'' 0 (Some ''CRASHED - no response'')]"
  "rn_passed (report_stale [x] r) = rn_passed r"
  "rn_failed (report_stale [x] r) = rn_failed r + 1"
  "rn_collected (report_stale [x] r) = rn_collected r + 1"
  "sc_active_workers (rn_sched (report_stale [x] r)) = hm_remove (fst x) (sc_active_workers (rn_sched r))"
  "sc_max_workers (rn_sched (report_stale [x] r)) = sc_max_workers (rn_sched r)"
  by (cases x; simp add: Let_def report_event_def split: prod.split)+

subsection \<open>The counters\<close>

fun event_status :: "MachineEvent \<Rightarrow> string option" where
  "event_status (TestFinished _ st _ _) = Some st"
| "event_status _ = None"

definition passes :: "MachineEvent list \<Rightarrow> nat" where
  "passes es = length (filter (\<lambda>e. event_status e = Some ''pass'') es)"

definition failures :: "MachineEvent list \<Rightarrow> nat" where
  "failures es = length (filter (\<lambda>e. event_status e \<noteq> None \<and> event_status e \<noteq> Some ''pass'') es)"

definition counted :: "running \<Rightarrow> bool" where
  "counted r \<longleftrightarrow> rn_passed r = passes (rn_events r) \<and> rn_failed r = failures (rn_events r) \<and>
     rn_collected r = rn_passed r + rn_failed r"

lemma counted_simps:
  "counted (r\<lparr>rn_sched := s\<rparr>) = counted r"
  "counted r \<Longrightarrow> counted (count_result rep r)"
  "event_status e = None \<Longrightarrow> counted r \<Longrightarrow> counted (report_event e r)"
  by (auto simp: counted_def count_result_def report_event_def passes_def failures_def Let_def split: prod.splits)

lemma counted_start: "counted r \<Longrightarrow> counted (start_test ser err_text i t slot r)"
  by (auto simp: start_test_def Let_def counted_simps split: prod.split sum.split unit.split)

lemma counted_stale: "counted r \<Longrightarrow> counted (report_stale [x] r)"
  by (simp add: counted_def report_stale_single passes_def failures_def del: report_stale.simps)

text \<open>Events are only ever added, behind the one that opened the run.\<close>

definition counted_since :: "MachineEvent \<Rightarrow> running \<Rightarrow> bool" where
  "counted_since e r \<longleftrightarrow> counted r \<and> (\<exists>es. rn_events r = e # es)"

lemma events_grow:
  "\<exists>es. rn_events (count_result rep r) = rn_events r @ es"
  "\<exists>es. rn_events (report_stale [x] r) = rn_events r @ es"
  "\<exists>es. rn_events (start_test ser err_text i t slot r) = rn_events r @ es"
proof -
  show "\<exists>es. rn_events (report_stale [x] r) = rn_events r @ es" by (simp add: report_stale_single(1) del: report_stale.simps)
qed (auto simp: count_result_def start_test_def report_event_def Let_def split: prod.split sum.split unit.split)

interpretation cnt: run_invariant "counted_since e" de ser err_text for e de ser err_text
proof unfold_locales
  fix r rep s n slot i t x m
  let ?goal = "\<lambda>r'. counted r' \<and> (\<exists>es. rn_events r' = e # es)"
  show "counted_since e r \<Longrightarrow> counted_since e (count_result rep (r\<lparr>rn_sched := s\<rparr>))"
    using events_grow(1) [of rep "r\<lparr>rn_sched := s\<rparr>"] by (auto simp: counted_since_def counted_simps)
  show "counted_since e r \<Longrightarrow> counted_since e (r\<lparr>rn_sched := s\<rparr>)"
    by (simp add: counted_since_def counted_simps)
  then show "counted_since e r \<Longrightarrow> counted_since e (r\<lparr>rn_sched := (rn_sched r)\<lparr>sc_tick := n\<rparr>\<rparr>)"
    by (simp add: counted_since_def counted_simps)
  show "counted_since e r \<Longrightarrow> counted_since e (start_test ser err_text i t slot r)"
    using events_grow(3) [of ser err_text i t slot r] by (auto simp: counted_since_def counted_start)
  show "counted_since e r \<Longrightarrow> counted_since e (report_stale [x] r)"
    using events_grow(2) [of x r] by (auto simp: counted_since_def counted_stale simp del: report_stale.simps)
  show "counted_since e r \<Longrightarrow> counted_since e (report_event (ErrorEvent m) r)"
    by (auto simp: counted_since_def counted_simps) (simp add: report_event_def)
qed

subsection \<open>The capacity\<close>

definition workers_ok :: "nat \<Rightarrow> running \<Rightarrow> bool" where
  "workers_ok m r \<longleftrightarrow>
     (let ws = sc_active_workers (rn_sched r) in
      sc_max_workers (rn_sched r) = m \<and> hm_ok ws \<and> length ws \<le> m \<and> (\<forall>i w. hm_get ws i = Some w \<longrightarrow> aw_slot w = unat i mod m))"

lemma workers_ok_remove:
  assumes "workers_ok m r" and "sc_max_workers s = sc_max_workers (rn_sched r)"
    and "sc_active_workers s = sc_active_workers (rn_sched r) \<or>
         (\<exists>i. sc_active_workers s = hm_remove i (sc_active_workers (rn_sched r)))"
  shows "workers_ok m (r\<lparr>rn_sched := s\<rparr>)"
  using assms hm.len_del_le [of "sc_active_workers (rn_sched r)"]
  by (auto simp: workers_ok_def Let_def hm.wf_del hm.get_del split: if_splits) (metis order_trans)

lemma workers_ok_cong:
  "rn_sched r' = rn_sched r \<Longrightarrow> workers_ok m r' = workers_ok m r"
  by (simp add: workers_ok_def)

lemma workers_ok_start:
  assumes "workers_ok m r" and "length (sc_active_workers (rn_sched r)) < sc_max_workers (rn_sched r)"
    and "slot = unat i mod sc_max_workers (rn_sched r)"
  shows "workers_ok m (start_test ser err_text i t slot r)"
proof -
  let ?s = "rn_sched r"
  obtain res s' where d: "dispatch_test ser t i slot ?s = (res, s')" by fastforce
  have sched: "rn_sched (start_test ser err_text i t slot r) = s'"
    by (simp add: start_test_def report_event_def d Let_def split: sum.split unit.split)
  show ?thesis
  proof (cases res)
    case (Inl e)
    with dispatch_test_Inl [of ser t i slot ?s e s'] d assms(1) show ?thesis
      by (simp add: workers_ok_def sched)
  next
    case (Inr u)
    then obtain now where "sc_active_workers s' = hm_insert i \<lparr>aw_test_name = rt_test_name t, aw_slot = slot, aw_start_time = now\<rparr>
        (sc_active_workers ?s)" "sc_max_workers s' = sc_max_workers ?s"
      using dispatch_test_Inr d by blast
    then show ?thesis
      using assms hm.len_ins_le [of "sc_active_workers ?s"] unfolding workers_ok_def sched Let_def
      by (auto simp: hm.wf_ins hm.get_ins) (metis Suc_leI order_trans)
  qed
qed

interpretation cap: run_invariant "workers_ok m" de ser err_text for m de ser err_text
proof unfold_locales
  fix r rep s x slot i t n msg
  show "workers_ok m r \<Longrightarrow> try_collect_result_for_reporter de (rn_sched r) = (Some rep, s) \<Longrightarrow>
      workers_ok m (count_result rep (r\<lparr>rn_sched := s\<rparr>))"
    by (subst workers_ok_cong [of _ "r\<lparr>rn_sched := s\<rparr>"]) (auto intro!: workers_ok_remove dest: try_collect_active)
  show "workers_ok m r \<Longrightarrow> try_collect_result_for_reporter de (rn_sched r) = (None, s) \<Longrightarrow>
      workers_ok m (r\<lparr>rn_sched := s\<rparr>)"
    by (auto intro!: workers_ok_remove dest: try_collect_active)
  show "workers_ok m r \<Longrightarrow> workers_ok m (r\<lparr>rn_sched := (rn_sched r)\<lparr>sc_tick := n\<rparr>\<rparr>)"
    by (auto intro: workers_ok_remove)
  show "workers_ok m r \<Longrightarrow> workers_ok m (report_stale [x] r)"
    using workers_ok_remove [of m r "rn_sched (report_stale [x] r)"] report_stale_single(5,6) [of x r]
    by (auto simp: workers_ok_def simp del: report_stale.simps)
  show "workers_ok m r \<Longrightarrow> workers_ok m (report_event (ErrorEvent msg) r)"
    by (simp add: workers_ok_def report_event_def)
qed (rule workers_ok_start)

subsection \<open>The open files\<close>

text \<open>The run opens copies of the log descriptors and closes them again.\<close>

definition fds_kept :: "(int \<Rightarrow> nat option) \<Rightarrow> running \<Rightarrow> bool" where
  "fds_kept F r \<longleftrightarrow> os_fds (sc_os (rn_sched r)) = F \<and> set (os_dup (sc_os (rn_sched r))) \<inter> dom F = {}"

lemma fds_kept_cong: "sc_os (rn_sched r') = sc_os (rn_sched r) \<Longrightarrow> fds_kept F r' = fds_kept F r"
  by (simp add: fds_kept_def)

lemma fds_kept_read:
  assumes "fds_kept F r" and "read_and_clear lc slot (sc_os (rn_sched r)) = (x, k)" and "sc_os (rn_sched r') = k"
  shows "fds_kept F r'"
  using read_and_clear_fds [OF assms(2)] assms(1,3) by (auto simp: fds_kept_def)

lemma try_collect_os:
  assumes "try_collect_result_for_reporter de s = (rep, s')"
  shows "sc_os s' = sc_os s \<or> (\<exists>slot x. read_and_clear (sc_log_capture s) slot (sc_os s) = (x, sc_os s'))"
  using assms by (auto simp: try_collect_result_for_reporter_def Let_def split: prod.splits option.splits)

lemma fds_kept_collect:
  assumes "fds_kept F r" and "try_collect_result_for_reporter de (rn_sched r) = (rep, s)" and "sc_os (rn_sched r') = sc_os s"
  shows "fds_kept F r'"
  using try_collect_os [OF assms(2)] assms(1,3) fds_kept_read [OF assms(1)] fds_kept_cong [of r' r] by auto

lemma start_test_os: "sc_os (rn_sched (start_test ser err_text i t slot r)) = sc_os (rn_sched r)"
  by (auto simp: start_test_def dispatch_test_def report_event_def instant_now_def Let_def
      split: prod.split sum.split unit.split option.split)

lemma report_stale_os:
  "\<exists>x' k. read_and_clear (sc_log_capture (rn_sched r)) (snd (snd x)) (sc_os (rn_sched r)) = (x', k) \<and>
     sc_os (rn_sched (report_stale [x] r)) = k"
  by (cases x) (simp add: Let_def report_event_def split: prod.split)

interpretation fds: run_invariant "fds_kept F" de ser err_text for F de ser err_text
proof unfold_locales
  fix r rep s n slot i t x m
  show "fds_kept F r \<Longrightarrow> try_collect_result_for_reporter de (rn_sched r) = (Some rep, s) \<Longrightarrow>
      fds_kept F (count_result rep (r\<lparr>rn_sched := s\<rparr>))"
    by (rule fds_kept_collect) simp_all
  show "fds_kept F r \<Longrightarrow> try_collect_result_for_reporter de (rn_sched r) = (None, s) \<Longrightarrow> fds_kept F (r\<lparr>rn_sched := s\<rparr>)"
    by (rule fds_kept_collect) simp_all
  show "fds_kept F r \<Longrightarrow> fds_kept F (r\<lparr>rn_sched := (rn_sched r)\<lparr>sc_tick := n\<rparr>\<rparr>)"
    by (simp add: fds_kept_def)
  show "fds_kept F r \<Longrightarrow> fds_kept F (start_test ser err_text i t slot r)"
    by (simp add: fds_kept_def start_test_os)
  show "fds_kept F r \<Longrightarrow> fds_kept F (report_stale [x] r)"
    using report_stale_os [of r x] fds_kept_read by blast
  show "fds_kept F r \<Longrightarrow> fds_kept F (report_event (ErrorEvent m) r)"
    by (simp add: fds_kept_def report_event_def)
qed

lemma run_keeps_fds:
  assumes "run_scheduler de ser err_text shut tests (new_scheduler cmd rin capture dp k clock) = Some (Inr (stats, r))"
    and "set (os_dup k) \<inter> dom (os_fds k) = {}"
  shows "os_fds (sc_os (rn_sched r)) = os_fds k"
proof -
  have "fds_kept (os_fds k) (run_init tests (new_scheduler cmd rin capture dp k clock))"
    using assms(2) by (simp add: fds_kept_def run_init_def new_scheduler_def)
  from fds.run_end [OF assms(1) this] obtain r2 n where "fds_kept (os_fds k) r2" "rn_sched r = (rn_sched r2)\<lparr>sc_tick := n\<rparr>"
    by metis
  then show ?thesis by (simp add: fds_kept_def)
qed

section \<open>A run in which every worker answers\<close>

text \<open>The zygote takes the next commands and answers each with a process id.\<close>

definition zygote_answers :: "nat \<Rightarrow> Scheduler \<Rightarrow> bool" where
  "zygote_answers n s \<longleftrightarrow> s_wfail (sc_cmd_socket s) = [] \<and>
     (\<exists>bs rest. s_in (sc_cmd_socket s) = map Byte bs @ rest \<and> 4 * n \<le> length bs)"

lemma write_each_ok: "s_wfail c = [] \<Longrightarrow> write_each bss c = (True, c\<lparr>s_out := s_out c @ concat bss\<rparr>)"
  by (induction bss arbitrary: c) (simp_all add: write_all_def)

lemma dispatch_test_ok:
  assumes "ser (test_payload s t i slot) = Some bs" and "zygote_answers (Suc n) s"
  obtains s' where "dispatch_test ser t i slot s = (Inr (), s')" and "zygote_answers n s'"
    and "sc_active_workers s' = hm_insert i \<lparr>aw_test_name = rt_test_name t, aw_slot = slot,
           aw_start_time = sc_clock s (sc_tick s)\<rparr> (sc_active_workers s)"
    and "sc_result_socket s' = sc_result_socket s" and "sc_max_workers s' = sc_max_workers s"
    and "sc_clock s' = sc_clock s" and "sc_log_capture s' = sc_log_capture s"
    and "s_out (sc_cmd_socket s') = s_out (sc_cmd_socket s) @ CMD_FORK # frame bs"
proof -
  from assms(2) obtain pids rest where w: "s_wfail (sc_cmd_socket s) = []"
    and p: "s_in (sc_cmd_socket s) = map Byte pids @ rest" "4 + 4 * n \<le> length pids"
    by (auto simp: zygote_answers_def)
  have "read_exact 4 (map Byte pids @ rest) = (Some (take 4 pids), map Byte (drop 4 pids) @ rest)"
    by (rule read_exact_take) (use p in simp)
  with w p(1) assms(1) have d: "dispatch_test ser t i slot s = (Inr (), s\<lparr>
      sc_cmd_socket := (sc_cmd_socket s)\<lparr>s_out := s_out (sc_cmd_socket s) @ CMD_FORK # frame bs,
        s_in := map Byte (drop 4 pids) @ rest\<rparr>,
      sc_tick := Suc (sc_tick s),
      sc_active_workers := hm_insert i \<lparr>aw_test_name = rt_test_name t, aw_slot = slot,
           aw_start_time = sc_clock s (sc_tick s)\<rparr> (sc_active_workers s)\<rparr>)"
    by (simp add: dispatch_test_def write_each_ok instant_now_def frame_def Let_def del: write_each.simps)
  have "4 * n \<le> length (drop 4 pids)" using p(2) by simp
  then show ?thesis using w by (intro that [OF d]) (auto simp: zygote_answers_def)
qed

definition finish_event :: "RunnableTest list \<Rightarrow> TestResult \<Rightarrow> MachineEvent" where
  "finish_event tests x =
     (case format_result (rt_test_name (tests ! unat (tr_test_id x))) x of
        (name, status, duration_ms, msg) \<Rightarrow> TestFinished name status duration_ms msg)"

definition finished :: "MachineEvent list \<Rightarrow> MachineEvent list" where
  "finished es = filter (\<lambda>e. event_status e \<noteq> None) es"

text \<open>
  After the first \<^term>\<open>k\<close> tests were dispatched and the first \<^term>\<open>c\<close> results collected: the active
  workers are the dispatched tests without a result, and the reports are those of the results.
\<close>

definition in_step ::
  "(u8 list \<Rightarrow> TestResult option) \<Rightarrow> RunnableTest list \<Rightarrow> u8 list list \<Rightarrow> TestResult list \<Rightarrow> rd_item list
     \<Rightarrow> nat \<Rightarrow> nat \<Rightarrow> running \<Rightarrow> bool"
where
  "in_step de tests bufs rs tail k c r \<longleftrightarrow>
     hm_ok (sc_active_workers (rn_sched r)) \<and>
     (\<forall>i. map_option aw_test_name (hm_get (sc_active_workers (rn_sched r)) i) =
        (if unat i < k \<and> i \<notin> tr_test_id ` set (take c rs) then Some (rt_test_name (tests ! unat i)) else None)) \<and>
     sc_result_socket (rn_sched r) = concat (map enc_frame (drop c bufs)) @ tail \<and>
     finished (rn_events r) = map (finish_event tests) (take c rs) \<and> counted r"

lemma in_step_collect:
  assumes "in_step de tests bufs rs tail k c r" and "list_all2 (\<lambda>b x. length b < 2 ^ 32 \<and> de b = Some x) bufs rs"
    and "c < length rs" and "unat (tr_test_id (rs ! c)) < k" and "distinct (map tr_test_id rs)"
  obtains s rep where "try_collect_result_for_reporter de (rn_sched r) = (Some rep, s)"
    and "in_step de tests bufs rs tail k (Suc c) (count_result rep (r\<lparr>rn_sched := s\<rparr>))"
    and "sc_max_workers s = sc_max_workers (rn_sched r)" and "sc_clock s = sc_clock (rn_sched r)"
    and "sc_cmd_socket s = sc_cmd_socket (rn_sched r)"
proof -
  let ?x = "rs ! c" and ?s = "rn_sched r"
  let ?name = "rt_test_name (tests ! unat (tr_test_id ?x))"
  have len: "length bufs = length rs" using assms(2) by (rule list_all2_lengthD)
  have b: "length (bufs ! c) < 2 ^ 32" "de (bufs ! c) = Some ?x"
    using assms(2,3) by (auto simp: list_all2_conv_all_nth)
  have "drop c bufs = bufs ! c # drop (Suc c) bufs"
    using assms(3) len by (simp add: Cons_nth_drop_Suc)
  then have "sc_result_socket ?s = enc_frame (bufs ! c) @ (concat (map enc_frame (drop (Suc c) bufs)) @ tail)"
    using assms(1) by (simp add: in_step_def)
  then have f: "read_frame (sc_result_socket ?s) = (Some (bufs ! c), concat (map enc_frame (drop (Suc c) bufs)) @ tail)"
    using fr.dec_enc [OF b(1)] by simp
  have new: "tr_test_id ?x \<notin> tr_test_id ` set (take c rs)"
  proof
    assume "tr_test_id ?x \<in> tr_test_id ` set (take c rs)"
    then obtain j where "j < c" "tr_test_id ?x = tr_test_id (rs ! j)"
      using assms(3) by (auto simp: in_set_conv_nth)
    with assms(3,5) show False by (auto simp: distinct_conv_nth)
  qed
  have "map_option aw_test_name (hm_get (sc_active_workers ?s) (tr_test_id ?x)) = Some ?name"
    using assms(1,4) new by (simp add: in_step_def)
  then obtain w where w: "hm_get (sc_active_workers ?s) (tr_test_id ?x) = Some w" "aw_test_name w = ?name"
    by blast
  obtain logs k' where l: "read_and_clear (sc_log_capture ?s) (aw_slot w) (sc_os ?s) = (logs, k')" by fastforce
  let ?s' = "?s\<lparr>sc_result_socket := concat (map enc_frame (drop (Suc c) bufs)) @ tail,
      sc_active_workers := hm_remove (tr_test_id ?x) (sc_active_workers ?s), sc_os := k'\<rparr>"
  have t: "try_collect_result_for_reporter de ?s = (Some (format_result ?name ?x), ?s')"
    by (simp add: try_collect_result_for_reporter_def f b w l)
  have take: "take (Suc c) rs = take c rs @ [?x]" using assms(3) by (rule take_Suc_conv_app_nth)
  have "in_step de tests bufs rs tail k (Suc c) (count_result (format_result ?name ?x) (r\<lparr>rn_sched := ?s'\<rparr>))"
    unfolding in_step_def
  proof (intro conjI)
    show "finished (rn_events (count_result (format_result ?name ?x) (r\<lparr>rn_sched := ?s'\<rparr>))) =
        map (finish_event tests) (take (Suc c) rs)"
      using assms(1) by (simp add: in_step_def take finished_def finish_event_def format_result_def
          count_result_def report_event_def)
    show "counted (count_result (format_result ?name ?x) (r\<lparr>rn_sched := ?s'\<rparr>))"
      using assms(1) by (simp add: in_step_def counted_simps)
    have ok: "hm_ok (sc_active_workers ?s)" and act: "map_option aw_test_name (hm_get (sc_active_workers ?s) i) =
        (if unat i < k \<and> i \<notin> tr_test_id ` set (take c rs) then Some (rt_test_name (tests ! unat i)) else None)" for i
      using assms(1) by (simp_all add: in_step_def)
    show "\<forall>i. map_option aw_test_name (hm_get (sc_active_workers
          (rn_sched (count_result (format_result ?name ?x) (r\<lparr>rn_sched := ?s'\<rparr>)))) i) =
        (if unat i < k \<and> i \<notin> tr_test_id ` set (take (Suc c) rs) then Some (rt_test_name (tests ! unat i)) else None)"
      by (simp add: hm.get_del [OF ok] act take) (metis act option.map_disc_iff)
  qed (use assms(1) in \<open>auto simp: in_step_def hm.wf_del hm.get_del take\<close>)
  with t show ?thesis by (rule that) simp_all
qed

lemma in_step_insert:
  assumes "in_step de tests bufs rs tail k c r" and "k < 2 ^ 32" and "\<forall>x\<in>set (take c rs). unat (tr_test_id x) < k"
    and a: "sc_active_workers (rn_sched r') = hm_insert (of_nat k) w (sc_active_workers (rn_sched r))"
    and w: "aw_test_name w = rt_test_name (tests ! k)"
    and o: "sc_result_socket (rn_sched r') = sc_result_socket (rn_sched r)" "finished (rn_events r') = finished (rn_events r)"
      "counted r'"
  shows "in_step de tests bufs rs tail (Suc k) c r'"
proof -
  have k: "unat (of_nat k :: u32) = k" using assms(2) by (rule unat_of_nat_u32)
  have eq: "i = of_nat k" if "unat i = k" for i :: u32 using that by auto
  have new: "(of_nat k :: u32) \<notin> tr_test_id ` set (take c rs)" using assms(3) k by auto
  have "map_option aw_test_name (hm_get (sc_active_workers (rn_sched r')) i) =
      (if unat i < Suc k \<and> i \<notin> tr_test_id ` set (take c rs) then Some (rt_test_name (tests ! unat i)) else None)" for i
  proof (cases "i = of_nat k")
    case True
    then show ?thesis using k new by (simp add: a w hm_get_insert)
  next
    case False
    with eq [of i] have "unat i \<noteq> k" by blast
    then have "unat i < Suc k \<longleftrightarrow> unat i < k" by auto
    moreover have "hm_get (sc_active_workers (rn_sched r')) i = hm_get (sc_active_workers (rn_sched r)) i"
      using False by (simp add: a hm_get_insert)
    ultimately show ?thesis using assms(1) by (simp only: in_step_def)
  qed
  then show ?thesis using assms(1) o by (simp add: in_step_def a hm.wf_ins)
qed

lemma in_step_start:
  assumes "in_step de tests bufs rs tail k c r" and "\<forall>p. \<exists>bs. ser p = Some bs"
    and "zygote_answers (Suc n) (rn_sched r)" and "k < length tests" and "k < 2 ^ 32"
    and "\<forall>x\<in>set (take c rs). unat (tr_test_id x) < k"
  shows "in_step de tests bufs rs tail (Suc k) c (start_test ser err_text (of_nat k) (tests ! k) slot r)"
    and "zygote_answers n (rn_sched (start_test ser err_text (of_nat k) (tests ! k) slot r))"
    and "sc_max_workers (rn_sched (start_test ser err_text (of_nat k) (tests ! k) slot r)) = sc_max_workers (rn_sched r)"
    and "sc_clock (rn_sched (start_test ser err_text (of_nat k) (tests ! k) slot r)) = sc_clock (rn_sched r)"
proof -
  let ?e = "TestStart (rt_test_name (tests ! k)) (path_text (rt_file_path (tests ! k)))"
  obtain bs where "ser (test_payload (rn_sched r) (tests ! k) (of_nat k) slot) = Some bs" using assms(2) by blast
  from this assms(3) obtain s' where d: "dispatch_test ser (tests ! k) (of_nat k) slot (rn_sched r) = (Inr (), s')"
    and z: "zygote_answers n s'"
    and a: "sc_active_workers s' = hm_insert (of_nat k) \<lparr>aw_test_name = rt_test_name (tests ! k), aw_slot = slot,
           aw_start_time = sc_clock (rn_sched r) (sc_tick (rn_sched r))\<rparr> (sc_active_workers (rn_sched r))"
    and o: "sc_result_socket s' = sc_result_socket (rn_sched r)" "sc_max_workers s' = sc_max_workers (rn_sched r)"
      "sc_clock s' = sc_clock (rn_sched r)"
    by (rule dispatch_test_ok)
  have st: "start_test ser err_text (of_nat k) (tests ! k) slot r = (report_event ?e r)\<lparr>rn_sched := s'\<rparr>"
    using d by (simp add: start_test_def report_event_def Let_def split: unit.split)
  show "in_step de tests bufs rs tail (Suc k) c (start_test ser err_text (of_nat k) (tests ! k) slot r)"
    unfolding st
    by (rule in_step_insert [OF assms(1,5,6)])
       (use assms(1) a o in \<open>auto simp: in_step_def report_event_def finished_def counted_def passes_def failures_def\<close>)
  show "zygote_answers n (rn_sched (start_test ser err_text (of_nat k) (tests ! k) slot r))"
    and "sc_max_workers (rn_sched (start_test ser err_text (of_nat k) (tests ! k) slot r)) = sc_max_workers (rn_sched r)"
    and "sc_clock (rn_sched (start_test ser err_text (of_nat k) (tests ! k) slot r)) = sc_clock (rn_sched r)"
    using z o by (simp_all add: st)
qed

lemma card_u32_below: "k \<le> 2 ^ 32 \<Longrightarrow> card {i :: u32. unat i < k} = k"
proof -
  assume k: "k \<le> 2 ^ 32"
  have "unat ` {i :: u32. unat i < k} = {..<k}"
  proof (intro equalityI subsetI)
    fix n assume "n \<in> {..<k}"
    with k have "unat (of_nat n :: u32) = n" by (intro unat_of_nat_u32) simp
    with \<open>n \<in> {..<k}\<close> show "n \<in> unat ` {i :: u32. unat i < k}" by (intro image_eqI [of _ _ "of_nat n"]) auto
  qed auto
  moreover have "inj_on (unat :: u32 \<Rightarrow> nat) {i. unat i < k}" by (simp add: inj_on_def word_unat_eq_iff)
  ultimately show ?thesis by (metis card_image card_lessThan)
qed

lemma in_step_active:
  assumes "in_step de tests bufs rs tail k c r" and "k \<le> 2 ^ 32" and "distinct (map tr_test_id rs)"
    and "c \<le> length rs" and "\<forall>x\<in>set (take c rs). unat (tr_test_id x) < k"
  shows "length (sc_active_workers (rn_sched r)) = k - c"
proof -
  let ?ws = "sc_active_workers (rn_sched r)" and ?ids = "tr_test_id ` set (take c rs)"
  have "hm_get ?ws i \<noteq> None \<longleftrightarrow> unat i < k \<and> i \<notin> ?ids" for i
    using assms(1) by (metis in_step_def option.map_disc_iff option.simps(3))
  then have "dom (hm_get ?ws) = {i. unat i < k} - ?ids" by (auto simp: domIff)
  moreover have "card ?ids = c"
  proof -
    have "distinct (map tr_test_id (take c rs))" using assms(3) by (simp flip: take_map)
    then have "card (set (map tr_test_id (take c rs))) = length (map tr_test_id (take c rs))"
      by (rule distinct_card)
    then show ?thesis using assms(4) by simp
  qed
  moreover have "?ids \<subseteq> {i. unat i < k}" using assms(5) by auto
  ultimately have "card (dom (hm_get ?ws)) = k - c"
    using card_u32_below [OF assms(2)] by (simp add: card_Diff_subset)
  moreover have "hm_ok ?ws" using assms(1) by (simp add: in_step_def)
  ultimately show ?thesis by (simp add: hm.len_card)
qed

lemma counted_collected: "counted r \<Longrightarrow> rn_collected r = length (finished (rn_events r))"
proof -
  have "length (finished es) = passes es + failures es" for es
    by (induction es) (auto simp: finished_def passes_def failures_def)
  then show "counted r \<Longrightarrow> rn_collected r = length (finished (rn_events r))" by (simp add: counted_def)
qed

text \<open>The results as they can arrive: each test answers once, and not before it was dispatched. When
  a slot is waited for, as many results were read as tests were dispatched beyond the slots.\<close>

definition causal :: "nat \<Rightarrow> nat \<Rightarrow> TestResult list \<Rightarrow> bool" where
  "causal n m rs \<longleftrightarrow> length rs = n \<and> distinct (map tr_test_id rs) \<and>
     (\<forall>j<n. unat (tr_test_id (rs ! j)) < n \<and> unat (tr_test_id (rs ! j)) < j + m)"

lemma causal_taken:
  assumes "causal n m rs" and "c \<le> n" and "c = 0 \<or> c + m \<le> k + 1 \<or> n \<le> k"
  shows "\<forall>x\<in>set (take c rs). unat (tr_test_id x) < k"
proof
  fix x assume "x \<in> set (take c rs)"
  then obtain j where j: "j < c" "x = rs ! j" using assms(1,2) by (auto simp: causal_def in_set_conv_nth)
  with assms(1,2) have "unat (tr_test_id x) < n" "unat (tr_test_id x) < j + m" by (auto simp: causal_def)
  with assms(3) j(1) show "unat (tr_test_id x) < k" by linarith
qed

lemma drop_enumerate_tests:
  "k < length tests \<Longrightarrow>
     drop k (enumerate_tests tests) = (of_nat k, tests ! k) # drop (Suc k) (enumerate_tests tests)"
  by (subst Cons_nth_drop_Suc [symmetric]) (simp_all add: enumerate_tests_def nth_enumerate_eq)

text \<open>Waiting for a slot takes one result when all slots are in use, and none otherwise.\<close>

lemma in_step_wait:
  assumes "in_step de tests bufs rs tail k (k - m) r" and "list_all2 (\<lambda>b x. length b < 2 ^ 32 \<and> de b = Some x) bufs rs"
    and "causal n m rs" and "k < n" and "n < 2 ^ 32" and "sc_max_workers (rn_sched r) = m" and "0 < m"
  obtains r' where "wait_capacity de r = Some r'" and "in_step de tests bufs rs tail k (Suc k - m) r'"
    and "sc_max_workers (rn_sched r') = m" and "sc_clock (rn_sched r') = sc_clock (rn_sched r)"
    and "sc_cmd_socket (rn_sched r') = sc_cmd_socket (rn_sched r)"
proof -
  let ?c = "k - m"
  have n: "length rs = n" "distinct (map tr_test_id rs)" using assms(3) by (auto simp: causal_def)
  have act: "length (sc_active_workers (rn_sched r)) = k - ?c"
    using assms(4,5,7) n
    by (intro in_step_active [OF assms(1)] causal_taken [OF assms(3)]) auto
  show ?thesis
  proof (cases "k < m")
    case True
    then have "wait_capacity de r = Some r" using act assms(6) by (simp add: wait_capacity.simps)
    then show ?thesis using True assms(1,6) by (intro that [of r]) auto
  next
    case False
    have "unat (tr_test_id (rs ! ?c)) < k" using assms(3,4,7) False by (auto simp: causal_def dest: spec [of _ ?c])
    then obtain s rep where t: "try_collect_result_for_reporter de (rn_sched r) = (Some rep, s)"
      and i: "in_step de tests bufs rs tail k (Suc ?c) (count_result rep (r\<lparr>rn_sched := s\<rparr>))"
      and o: "sc_max_workers s = sc_max_workers (rn_sched r)" "sc_clock s = sc_clock (rn_sched r)"
        "sc_cmd_socket s = sc_cmd_socket (rn_sched r)"
      using assms(4) n by (auto intro: in_step_collect [OF assms(1,2)])
    let ?r = "count_result rep (r\<lparr>rn_sched := s\<rparr>)"
    have "length (sc_active_workers (rn_sched ?r)) = k - Suc ?c"
      using assms(4,5,7) n False
      by (intro in_step_active [OF i] causal_taken [OF assms(3)]) auto
    then have "length (sc_active_workers (rn_sched ?r)) < sc_max_workers (rn_sched ?r)"
      using False assms(6,7) o(1) by simp
    then have "wait_capacity de ?r = Some ?r" by (subst wait_capacity.simps) simp
    moreover have "wait_capacity de r = wait_capacity de ?r"
      by (subst wait_capacity.simps) (use act False assms(6) t in simp)
    moreover have "Suc ?c = Suc k - m" using False by simp
    ultimately show ?thesis using i o assms(6) by (intro that [of ?r]) auto
  qed
qed

lemma dispatch_in_step:
  assumes "in_step de tests bufs rs tail k (k - m) r" and "list_all2 (\<lambda>b x. length b < 2 ^ 32 \<and> de b = Some x) bufs rs"
    and "causal (length tests) m rs" and "k \<le> length tests" and "length tests < 2 ^ 32"
    and "sc_max_workers (rn_sched r) = m" and "0 < m" and "\<forall>i. \<not> shut i" and "\<forall>p. \<exists>bs. ser p = Some bs"
    and "zygote_answers (length tests - k) (rn_sched r)"
  shows "\<exists>r'. dispatch_all de ser err_text shut (drop k (enumerate_tests tests)) r = Some (Inr r') \<and>
     in_step de tests bufs rs tail (length tests) (length tests - m) r' \<and> sc_clock (rn_sched r') = sc_clock (rn_sched r)"
  using assms(1,4,6,10)
proof (induction "length tests - k" arbitrary: k r)
  case 0
  then have "k = length tests" by simp
  with 0 show ?case by (simp add: enumerate_tests_def)
next
  case (Suc d)
  let ?slot = "unat (of_nat k :: u32) mod m"
  have k: "k < length tests" using Suc.hyps(2) by simp
  obtain r1 where w: "wait_capacity de r = Some r1" and i: "in_step de tests bufs rs tail k (Suc k - m) r1"
    and o: "sc_max_workers (rn_sched r1) = m" "sc_clock (rn_sched r1) = sc_clock (rn_sched r)"
      "sc_cmd_socket (rn_sched r1) = sc_cmd_socket (rn_sched r)"
    by (rule in_step_wait [OF Suc.prems(1) assms(2,3) k assms(5) Suc.prems(3) assms(7)])
  have z: "zygote_answers (Suc (length tests - Suc k)) (rn_sched r1)"
    using Suc.prems(4) k o(3) by (simp add: zygote_answers_def Suc_diff_Suc)
  have taken: "\<forall>x\<in>set (take (Suc k - m) rs). unat (tr_test_id x) < k"
    using k assms(7) by (intro causal_taken [OF assms(3)]) auto
  let ?r2 = "start_test ser err_text (of_nat k) (tests ! k) ?slot r1"
  note st = in_step_start [OF i assms(9) z k _ taken, of err_text ?slot]
  have "\<exists>r'. dispatch_all de ser err_text shut (drop (Suc k) (enumerate_tests tests)) ?r2 = Some (Inr r') \<and>
     in_step de tests bufs rs tail (length tests) (length tests - m) r' \<and> sc_clock (rn_sched r') = sc_clock (rn_sched ?r2)"
    using Suc.hyps k st assms(5) o by (intro Suc.hyps(1)) auto
  moreover have "dispatch_all de ser err_text shut (drop k (enumerate_tests tests)) r =
      dispatch_all de ser err_text shut (drop (Suc k) (enumerate_tests tests)) ?r2"
    using assms(7,8) Suc.prems(3) w by (simp add: drop_enumerate_tests [OF k])
  moreover have "sc_clock (rn_sched ?r2) = sc_clock (rn_sched r)" using st(4) k assms(5) o by simp
  ultimately show ?case by auto
qed

lemma in_step_tick:
  "in_step de tests bufs rs tail k c (r\<lparr>rn_sched := (rn_sched r)\<lparr>sc_tick := n\<rparr>\<rparr>) = in_step de tests bufs rs tail k c r"
  by (simp add: in_step_def counted_simps)

lemma collect_in_step:
  assumes "in_step de tests bufs rs tail (length tests) c r"
    and "list_all2 (\<lambda>b x. length b < 2 ^ 32 \<and> de b = Some x) bufs rs"
    and "causal (length tests) m rs" and "c \<le> length tests" and "\<forall>n. sc_clock (rn_sched r) n < deadline"
  shows "\<exists>r'. collect_remaining de (length tests) deadline r = Some r' \<and>
     in_step de tests bufs rs tail (length tests) (length tests) r'"
  using assms(1,4,5)
proof (induction "length tests - c" arbitrary: c r)
  case 0
  then have c: "c = length tests" by simp
  then have "rn_collected r = length tests"
    using 0 assms(3) by (simp add: in_step_def counted_collected causal_def)
  with 0 c show ?case by (auto simp: collect_remaining.simps)
next
  case (Suc d)
  let ?r = "r\<lparr>rn_sched := (rn_sched r)\<lparr>sc_tick := Suc (sc_tick (rn_sched r))\<rparr>\<rparr>"
  have c: "c < length rs" "c < length tests" using Suc.hyps(2) assms(3) by (auto simp: causal_def)
  have n: "rn_collected r = c" using Suc.prems(1) c by (simp add: in_step_def counted_collected)
  have "in_step de tests bufs rs tail (length tests) c ?r" using Suc.prems(1) by (simp only: in_step_tick)
  then obtain s rep where t: "try_collect_result_for_reporter de (rn_sched ?r) = (Some rep, s)"
    and i: "in_step de tests bufs rs tail (length tests) (Suc c) (count_result rep (?r\<lparr>rn_sched := s\<rparr>))"
    and o: "sc_clock s = sc_clock (rn_sched ?r)"
    by (rule in_step_collect [OF _ assms(2) c(1)]) (use assms(3) c in \<open>auto simp: causal_def\<close>)
  have "collect_remaining de (length tests) deadline r =
      collect_remaining de (length tests) deadline (count_result rep (?r\<lparr>rn_sched := s\<rparr>))"
    using n c Suc.prems(3) t
    by (subst collect_remaining.simps) (simp add: instant_now_def collect_step_def)
  moreover have "\<exists>r'. collect_remaining de (length tests) deadline (count_result rep (?r\<lparr>rn_sched := s\<rparr>)) = Some r' \<and>
     in_step de tests bufs rs tail (length tests) (length tests) r'"
    using Suc.hyps(2) Suc.prems(3) c o i by (intro Suc.hyps(1)) auto
  ultimately show ?case by simp
qed

lemma in_step_end:
  assumes "in_step de tests bufs rs tail n (length rs) r"
  shows "rn_passed r = length (filter (\<lambda>x. tr_status x = STATUS_PASS) rs)"
    and "rn_failed r = length (filter (\<lambda>x. tr_status x \<noteq> STATUS_PASS) rs)"
    and "finished (rn_events r) = map (finish_event tests) rs"
proof -
  have st: "event_status (finish_event tests x) = Some (if tr_status x = STATUS_PASS then ''pass'' else ''fail'')" for x
    by (simp add: finish_event_def format_result_def)
  show f: "finished (rn_events r) = map (finish_event tests) rs" using assms by (simp add: in_step_def)
  have fin: "passes es = passes (finished es)" "failures es = failures (finished es)" for es
    by (simp_all add: passes_def failures_def finished_def) (metis option.simps(3))+
  have "passes (map (finish_event tests) rs) = length (filter (\<lambda>x. tr_status x = STATUS_PASS) rs)"
    "failures (map (finish_event tests) rs) = length (filter (\<lambda>x. tr_status x \<noteq> STATUS_PASS) rs)"
    by (simp_all add: passes_def failures_def filter_map comp_def st)
  with f fin [of "rn_events r"] assms
  show "rn_passed r = length (filter (\<lambda>x. tr_status x = STATUS_PASS) rs)"
    and "rn_failed r = length (filter (\<lambda>x. tr_status x \<noteq> STATUS_PASS) rs)"
    by (simp_all add: in_step_def counted_def)
qed

section \<open>Ending and not ending\<close>

lemma try_collect_empty: "sc_result_socket s = [] \<Longrightarrow> try_collect_result_for_reporter de s = (None, s)"
  by (simp add: try_collect_result_for_reporter_def)

lemma wait_capacity_hangs:
  assumes "sc_result_socket (rn_sched r) = []" and "sc_max_workers (rn_sched r) \<le> length (sc_active_workers (rn_sched r))"
  shows "wait_capacity de r = None"
proof (cases "wait_capacity de r")
  case (Some r')
  let ?P = "\<lambda>r. sc_result_socket (rn_sched r) = [] \<and> sc_max_workers (rn_sched r) \<le> length (sc_active_workers (rn_sched r))"
  have "?P r' \<and> length (sc_active_workers (rn_sched r')) < sc_max_workers (rn_sched r')"
    by (rule wait_capacity_keeps [OF Some]) (use assms in \<open>auto simp: try_collect_empty\<close>)
  then have False by linarith
  then show ?thesis ..
qed

lemma try_collect_time:
  "try_collect_result_for_reporter de s = (rep, s') \<Longrightarrow> sc_clock s' = sc_clock s \<and> sc_tick s' = sc_tick s"
  by (auto simp: try_collect_result_for_reporter_def Let_def split: prod.splits option.splits)

lemma report_stale_time:
  "sc_clock (rn_sched (report_stale xs r)) = sc_clock (rn_sched r) \<and> sc_tick (rn_sched (report_stale xs r)) = sc_tick (rn_sched r)"
  by (induction xs r rule: report_stale.induct) (auto simp: Let_def report_event_def split: prod.split)

lemma collect_step_time:
  "sc_clock (rn_sched (collect_step de r)) = sc_clock (rn_sched r) \<and> sc_tick (rn_sched r) \<le> sc_tick (rn_sched (collect_step de r))"
proof -
  obtain rep s where t: "try_collect_result_for_reporter de (rn_sched r) = (rep, s)" by fastforce
  obtain st s' where g: "get_stale_workers (secs 3) s = (st, s')" by fastforce
  from try_collect_time [OF t] get_stale_workers_state [OF g] show ?thesis
    by (cases rep) (simp_all add: collect_step_def t g report_stale_time)
qed

text \<open>Every round of the final loop reads the clock, so it ends once the clock is past the deadline.\<close>

lemma collect_remaining_returns:
  assumes "\<forall>n\<ge>T. deadline \<le> sc_clock (rn_sched r) n"
  shows "\<exists>r'. collect_remaining de n deadline r = Some r'"
  using assms
proof (induction "T - sc_tick (rn_sched r)" arbitrary: r rule: less_induct)
  case less
  let ?r = "r\<lparr>rn_sched := (rn_sched r)\<lparr>sc_tick := Suc (sc_tick (rn_sched r))\<rparr>\<rparr>"
  show ?case
  proof (cases "rn_collected r < n \<and> sc_clock (rn_sched r) (sc_tick (rn_sched r)) < deadline")
    case True
    then have "sc_tick (rn_sched r) < T" using less.prems by (meson linorder_not_le)
    moreover have "sc_clock (rn_sched (collect_step de ?r)) = sc_clock (rn_sched r)"
      and "Suc (sc_tick (rn_sched r)) \<le> sc_tick (rn_sched (collect_step de ?r))"
      using collect_step_time [of de ?r] by auto
    ultimately have "\<exists>r'. collect_remaining de n deadline (collect_step de ?r) = Some r'"
      using less.prems by (intro less.hyps) auto
    then show ?thesis using True by (subst collect_remaining.simps) (simp add: instant_now_def)
  next
    case False
    then show ?thesis by (subst collect_remaining.simps) (auto simp: instant_now_def)
  qed
qed

lemma start_test_sched:
  "sc_max_workers (rn_sched (start_test ser err_text i t slot r)) = sc_max_workers (rn_sched r) \<and>
   length (sc_active_workers (rn_sched (start_test ser err_text i t slot r))) \<le> Suc (length (sc_active_workers (rn_sched r)))
   \<and> sc_clock (rn_sched (start_test ser err_text i t slot r)) = sc_clock (rn_sched r)"
proof -
  have len: "length (hm_insert i w ws) \<le> Suc (length ws)" for w and ws :: "(u32, ActiveWorker) hashmap"
    by (induction ws) auto
  obtain res s' where d: "dispatch_test ser t i slot (rn_sched r) = (res, s')" by fastforce
  have "sc_max_workers s' = sc_max_workers (rn_sched r)"
    "length (sc_active_workers s') \<le> Suc (length (sc_active_workers (rn_sched r)))"
    "sc_clock s' = sc_clock (rn_sched r)"
    using d by (auto simp: dispatch_test_def Let_def instant_now_def len simp del: write_each.simps
        split: option.splits prod.splits if_splits)
  moreover have "rn_sched (start_test ser err_text i t slot r) = s'"
    by (simp add: start_test_def report_event_def d Let_def split: sum.split unit.split)
  ultimately show ?thesis by simp
qed

text \<open>With a slot for every test the dispatch loop never waits.\<close>

lemma dispatch_all_returns:
  assumes "length (sc_active_workers (rn_sched r)) + length queue \<le> sc_max_workers (rn_sched r)"
  shows "\<exists>r'. dispatch_all de ser err_text shut queue r = Some (Inr r') \<and> sc_clock (rn_sched r') = sc_clock (rn_sched r)"
  using assms
proof (induction queue arbitrary: r)
  case (Cons x queue)
  obtain i t where x: "x = (i, t)" by fastforce
  let ?slot = "unat i mod sc_max_workers (rn_sched r)"
  let ?r = "start_test ser err_text i t ?slot r"
  from Cons.prems have w: "wait_capacity de r = Some r" "sc_max_workers (rn_sched r) \<noteq> 0"
    by (auto simp: wait_capacity.simps)
  have "length (sc_active_workers (rn_sched ?r)) + length queue \<le> sc_max_workers (rn_sched ?r)"
    using start_test_sched [of ser err_text i t ?slot r] Cons.prems by simp
  from Cons.IH [OF this] show ?case
    using w start_test_sched [of ser err_text i t ?slot r] by (auto simp: x report_event_def)
qed simp

lemma run_scheduler_returns:
  assumes "length tests \<le> slot_count capture" and "\<forall>t. \<exists>T. \<forall>n\<ge>T. t \<le> clock n"
  shows "\<exists>stats r. run_scheduler de ser err_text shut tests (new_scheduler cmd rin capture dp k clock) = Some (Inr (stats, r))"
proof -
  let ?s = "new_scheduler cmd rin capture dp k clock"
  have "\<exists>r'. dispatch_all de ser err_text shut (enumerate_tests tests) (run_init tests ?s) = Some (Inr r')
      \<and> sc_clock (rn_sched r') = sc_clock (rn_sched (run_init tests ?s))"
    using assms(1) by (intro dispatch_all_returns) (simp add: run_init_def new_scheduler_def enumerate_tests_def)
  then obtain r1 where d: "dispatch_all de ser err_text shut (enumerate_tests tests) (run_init tests ?s) = Some (Inr r1)"
    and c: "sc_clock (rn_sched r1) = clock" by (auto simp: run_init_def new_scheduler_def)
  let ?r1 = "r1\<lparr>rn_sched := (rn_sched r1)\<lparr>sc_tick := Suc (sc_tick (rn_sched r1))\<rparr>\<rparr>"
  let ?dl = "sc_clock (rn_sched r1) (sc_tick (rn_sched r1)) + secs 10"
  obtain T where "\<forall>n\<ge>T. ?dl \<le> clock n" using assms(2) by blast
  then obtain r2 where "collect_remaining de (length tests) ?dl ?r1 = Some r2"
    using collect_remaining_returns [of T ?dl ?r1 de "length tests"] c by auto
  then show ?thesis
    using d by (simp add: run_scheduler_def instant_now_def Let_def run_init_def)
qed

text \<open>With a slot the run never panics.\<close>

lemma dispatch_all_no_panic:
  "0 < sc_max_workers (rn_sched r) \<Longrightarrow> dispatch_all de ser err_text shut queue r \<noteq> Some (Inl ())"
proof (induction queue arbitrary: r)
  case (Cons x queue)
  obtain i t where x: "x = (i, t)" by fastforce
  have "sc_max_workers (rn_sched (start_test ser err_text i t slot r')) = sc_max_workers (rn_sched r')" for slot r'
    by (auto simp: start_test_def dispatch_test_def report_event_def instant_now_def Let_def
        split: prod.split sum.split unit.split option.split)
  with Cons wait_capacity_max [of de r] show ?case by (auto simp: x Let_def bind_eq_Some_conv)
qed simp

lemma run_scheduler_no_panic:
  "0 < slot_count capture \<Longrightarrow> run_scheduler de ser err_text shut tests (new_scheduler cmd rin capture dp k clock) \<noteq> Some (Inl ())"
  using dispatch_all_no_panic [of "run_init tests (new_scheduler cmd rin capture dp k clock)" de ser err_text shut "enumerate_tests tests"]
  by (auto simp: run_scheduler_def Let_def instant_now_def new_scheduler_def run_init_def
      split: option.splits sum.splits unit.splits)

section \<open>The order of the tests\<close>

fun is_start :: "MachineEvent \<Rightarrow> bool" where
  "is_start (TestStart _ _) = True"
| "is_start _ = False"

definition starts :: "MachineEvent list \<Rightarrow> MachineEvent list" where
  "starts es = filter is_start es"

definition start_event :: "RunnableTest \<Rightarrow> MachineEvent" where
  "start_event t = TestStart (rt_test_name t) (path_text (rt_file_path t))"

lemma starts_simps:
  "starts (rn_events (count_result rep r)) = starts (rn_events r)"
  "starts (rn_events (report_stale [x] r)) = starts (rn_events r)"
  "starts (rn_events (start_test ser err_text i t slot r)) = starts (rn_events r) @ [start_event t]"
  "starts (rn_events (report_event (ErrorEvent m) r)) = starts (rn_events r)"
proof -
  show c: "starts (rn_events (count_result rep r)) = starts (rn_events r)" for rep r
    by (simp add: count_result_def report_event_def starts_def Let_def split: prod.split)
  show "starts (rn_events (start_test ser err_text i t slot r)) = starts (rn_events r) @ [start_event t]"
    by (simp add: start_test_def Let_def c split: prod.split sum.split unit.split)
       (simp add: report_event_def starts_def start_event_def)
qed (simp_all add: report_stale_single report_event_def starts_def del: report_stale.simps)

lemma wait_capacity_starts:
  assumes "wait_capacity de r = Some r'" shows "starts (rn_events r') = starts (rn_events r)"
proof -
  have "starts (rn_events r') = starts (rn_events r) \<and> length (sc_active_workers (rn_sched r')) < sc_max_workers (rn_sched r')"
    by (rule wait_capacity_keeps [OF assms]) (simp_all add: starts_simps)
  then show ?thesis by blast
qed

lemma dispatch_all_starts:
  "dispatch_all de ser err_text shut queue r = Some (Inr r') \<Longrightarrow>
     \<exists>n\<le>length queue. starts (rn_events r') = starts (rn_events r) @ map (start_event \<circ> snd) (take n queue) \<and>
       (n = length queue \<or> shut (fst (queue ! n)))"
proof (induction queue arbitrary: r)
  case (Cons x queue)
  obtain i t where x: "x = (i, t)" by fastforce
  show ?case
  proof (cases "shut i")
    case True
    with Cons.prems x show ?thesis by (intro exI [of _ 0]) (auto simp: starts_simps)
  next
    case False
    with Cons.prems x obtain r1 where w: "wait_capacity de r = Some r1"
      and d: "dispatch_all de ser err_text shut queue
                (start_test ser err_text i t (unat i mod sc_max_workers (rn_sched r)) r1) = Some (Inr r')"
      by (auto simp: Let_def bind_eq_Some_conv split: if_splits)
    from Cons.IH [OF d] obtain n where n: "n \<le> length queue" "n = length queue \<or> shut (fst (queue ! n))"
      and "starts (rn_events r') = starts (rn_events (start_test ser err_text i t
             (unat i mod sc_max_workers (rn_sched r)) r1)) @ map (start_event \<circ> snd) (take n queue)"
      by blast
    then have "starts (rn_events r') = starts (rn_events r) @ map (start_event \<circ> snd) (take (Suc n) (x # queue))"
      using wait_capacity_starts [OF w] by (simp add: starts_simps x)
    with n show ?thesis by (intro exI [of _ "Suc n"]) simp
  qed
qed (simp add: starts_def)

section \<open>The two ways to collect\<close>

lemma print_logs_ok: "fst (print_logs ls) \<longleftrightarrow> list_all (\<lambda>l. is_char_boundary l (min (length l) 80)) ls"
  by (induction ls) (auto simp: str_slice_to_def Let_def split: prod.split)

text \<open>Both leave the same scheduler behind, and what one prints the other hands to the reporter. The
  printing one panics exactly when a line it shows is longer than 80 bytes and has a character across byte 80.\<close>

lemma collect_variants_agree:
  assumes "try_collect_result fmt_ms de s = (res, text, s')"
    and "try_collect_result_for_reporter de s = (rep, s'')"
  shows "s' = s'' \<and> (rep = None \<longleftrightarrow> res = Inr None) \<and>
     (\<forall>r. res = Inr (Some r) \<longrightarrow> (\<exists>name more. rep = Some (format_result name r) \<and>
        text = println (''  '' @ status_icon r @ '' '' @ name @ '' ('' @ fmt_ms (tr_duration_ns r) @ ''ms)'') @ more))"
  using assms
  by (auto simp: try_collect_result_def try_collect_result_for_reporter_def read_frame_def Let_def
      split: prod.splits option.splits if_splits)

lemma try_collect_result_panics:
  assumes "read_frame (sc_result_socket s) = (Some buf, rest)" and "de buf = Some result"
    and "hm_get (sc_active_workers s) (tr_test_id result) = Some w"
    and "read_and_clear (sc_log_capture s) (aw_slot w) (sc_os s) = (Inr logs, k)"
  shows "fst (try_collect_result fmt_ms de s) = Inl () \<longleftrightarrow>
     (\<exists>l\<in>set (take 3 (str_lines logs)). 80 < length l \<and> is_cont_byte (l ! 80))"
proof -
  have r: "\<exists>len r1. read_exact 4 (sc_result_socket s) = (Some len, r1) \<and> read_exact (unat (u32_from_le len)) r1 = (Some buf, rest)"
    using assms(1) by (auto simp: read_frame_def split: prod.splits option.splits)
  have "(\<not> is_char_boundary l (min (length l) 80)) = (80 < length l \<and> is_cont_byte (l ! 80))" for l
    by (auto simp: is_char_boundary_def min_def)
  then have "fst (print_logs (take 3 (str_lines logs))) \<longleftrightarrow>
      \<not> (\<exists>l\<in>set (take 3 (str_lines logs)). 80 < length l \<and> is_cont_byte (l ! 80))"
    unfolding print_logs_ok list_all_iff by blast
  moreover have "fst (try_collect_result fmt_ms de s) = Inl () \<longleftrightarrow> \<not> fst (print_logs (take 3 (str_lines logs)))"
  proof (cases "logs = []")
    case True
    with r assms(2-4) show ?thesis by (auto simp: try_collect_result_def Let_def str_lines_def)
  next
    case False
    with r assms(2-4) show ?thesis
      by (cases "print_logs (take 3 (str_lines logs))") (auto simp: try_collect_result_def Let_def split: if_splits)
  qed
  ultimately show ?thesis by blast
qed

text \<open>A run whose results arrive in a possible order.\<close>

lemma run_in_order:
  assumes "length tests < 2 ^ 32" and "0 < slot_count capture" and "\<forall>i. \<not> shut i" and "\<forall>p. \<exists>bs. ser p = Some bs"
    and "s_wfail cmd = []" and "s_in cmd = map Byte pids @ rest" and "4 * length tests \<le> length pids"
    and "causal (length tests) (slot_count capture) rs"
    and "list_all2 (\<lambda>b x. length b < 2 ^ 32 \<and> de b = Some x) bufs rs"
    and "\<forall>m n. clock n < clock m + secs 10"
  shows "\<exists>d r. run_scheduler de ser err_text shut tests
            (new_scheduler cmd (concat (map enc_frame bufs) @ tail) capture dp k clock) =
          Some (Inr (\<lparr>st_total = length tests,
                      st_passed = length (filter (\<lambda>x. tr_status x = STATUS_PASS) rs),
                      st_failed = length (filter (\<lambda>x. tr_status x \<noteq> STATUS_PASS) rs),
                      st_duration_ms = d\<rparr>, r))
        \<and> finished (rn_events r) = map (finish_event tests) rs"
proof -
  let ?m = "slot_count capture" and ?n = "length tests"
  let ?s = "new_scheduler cmd (concat (map enc_frame bufs) @ tail) capture dp k clock"
  let ?r0 = "\<lparr>rn_sched = ?s\<lparr>sc_tick := Suc (sc_tick ?s)\<rparr>, rn_passed = 0, rn_failed = 0, rn_collected = 0,
            rn_events = [RunStart ?n]\<rparr>"
  have "in_step de tests bufs rs tail 0 (0 - ?m) ?r0"
    by (simp add: in_step_def new_scheduler_def finished_def counted_def passes_def failures_def)
  moreover have "zygote_answers (?n - 0) (rn_sched ?r0)"
    using assms(5-7) by (auto simp: zygote_answers_def new_scheduler_def)
  ultimately obtain r1 where
    d: "dispatch_all de ser err_text shut (enumerate_tests tests) ?r0 = Some (Inr r1)"
    and i1: "in_step de tests bufs rs tail ?n (?n - ?m) r1" and c1: "sc_clock (rn_sched r1) = clock"
    using dispatch_in_step [where k = 0 and m = ?m, OF _ assms(9,8) _ assms(1) _ assms(2-4), of tail ?r0 err_text]
    by (auto simp: new_scheduler_def)
  let ?r1 = "r1\<lparr>rn_sched := (rn_sched r1)\<lparr>sc_tick := Suc (sc_tick (rn_sched r1))\<rparr>\<rparr>"
  let ?dl = "sc_clock (rn_sched r1) (sc_tick (rn_sched r1)) + secs 10"
  obtain r2 where c: "collect_remaining de ?n ?dl ?r1 = Some r2"
    and i2: "in_step de tests bufs rs tail ?n ?n r2"
    using collect_in_step [OF _ assms(9,8), of tail "?n - ?m" ?r1 ?dl] i1 assms(10) c1
    by (auto simp: in_step_tick)
  have "length rs = ?n" using assms(8) by (simp add: causal_def)
  note e = in_step_end [OF i2 [folded \<open>length rs = ?n\<close>]]
  show ?thesis
    using d c e \<open>length rs = ?n\<close>
    by (auto simp: run_scheduler_def instant_now_def Let_def report_event_def finished_def)
qed

section \<open>Properties\<close>

text \<open>C11: When the zygote takes every command and every test answers once, in any order in which
  the answers can come, and within ten seconds, the run returns, whatever the number of slots: it
  reports exactly one result for each test, under the test's name, in the order of arrival, and the
  statistics count the passed and the other tests.\<close>

theorem run_complete:
  assumes "length tests < 2 ^ 32" and "0 < slot_count capture" and "\<forall>i. \<not> shut i" and "\<forall>p. \<exists>bs. ser p = Some bs"
    and "s_wfail cmd = []" and "s_in cmd = map Byte pids @ rest" and "4 * length tests \<le> length pids"
    and "causal (length tests) (slot_count capture) rs"
    and "list_all2 (\<lambda>b x. length b < 2 ^ 32 \<and> de b = Some x) bufs rs"
    and "\<forall>m n. clock n < clock m + secs 10"
  shows "\<exists>d r. run_scheduler de ser err_text shut tests
            (new_scheduler cmd (concat (map enc_frame bufs) @ tail) capture dp k clock) =
          Some (Inr (\<lparr>st_total = length tests,
                      st_passed = length (filter (\<lambda>x. tr_status x = STATUS_PASS) rs),
                      st_failed = length (filter (\<lambda>x. tr_status x \<noteq> STATUS_PASS) rs),
                      st_duration_ms = d\<rparr>, r))
        \<and> finished (rn_events r) = map (finish_event tests) rs"
  by (rule run_in_order [OF assms])

text \<open>The opening and the closing event of a run and the totals.\<close>

lemma run_totals:
  assumes "run_scheduler de ser err_text shut tests (new_scheduler cmd rin capture dp k clock) = Some (Inr (stats, r))"
  shows "\<exists>es. rn_events r = RunStart (length tests) # es
             @ [RunFinished (st_passed stats) (st_failed stats) 0 (st_duration_ms stats)]
           \<and> st_passed stats = passes es \<and> st_failed stats = failures es
           \<and> rn_collected r = st_passed stats + st_failed stats \<and> st_total stats = length tests"
proof -
  let ?s = "new_scheduler cmd rin capture dp k clock"
  have "counted_since (RunStart (length tests)) (run_init tests ?s)"
    by (simp add: counted_since_def counted_def passes_def failures_def run_init_def)
  with assms obtain r2 n d where "counted_since (RunStart (length tests)) r2"
    and r: "rn_events r = rn_events r2 @ [RunFinished (rn_passed r2) (rn_failed r2) 0 d]"
    and st: "stats = \<lparr>st_total = length tests, st_passed = rn_passed r2, st_failed = rn_failed r2, st_duration_ms = d\<rparr>"
    and col: "rn_collected r = rn_collected r2"
    by (rule cnt.run_end)
  then obtain es where "rn_events r2 = RunStart (length tests) # es" and "counted r2"
    by (auto simp: counted_since_def)
  then show ?thesis using r st col
    by (intro exI [of _ es]) (simp add: counted_def passes_def failures_def)
qed

text \<open>C12: The numbers add up: a run that returns has reported the start first and the end last, the
  end and the returned statistics carry the same counters, and these count the reports in between:
  a passed test for every report with status pass and a failed one for every other.\<close>

theorem run_counts:
  assumes "run_scheduler de ser err_text shut tests (new_scheduler cmd rin capture dp k clock) = Some (Inr (stats, r))"
  shows "\<exists>es. rn_events r = RunStart (length tests) # es
             @ [RunFinished (st_passed stats) (st_failed stats) 0 (st_duration_ms stats)]
           \<and> st_passed stats = passes es \<and> st_failed stats = failures es
           \<and> rn_collected r = st_passed stats + st_failed stats \<and> st_total stats = length tests"
  using assms by (rule run_totals)

text \<open>The tests are started in order, each once: the start events of a run that returns are those
  of all tests, or, when a shutdown was requested, of the tests before that point.\<close>

lemma run_starts_in_order:
  assumes "run_scheduler de ser err_text shut tests s = Some (Inr (stats, r))"
  shows "\<exists>n\<le>length tests. starts (rn_events r) = map start_event (take n tests) \<and>
           (n = length tests \<or> shut (of_nat n))"
proof -
  from assms obtain r1 r2 n d where
    d: "dispatch_all de ser err_text shut (enumerate_tests tests) (run_init tests s) = Some (Inr r1)"
    and c: "collect_remaining de (length tests) (sc_clock (rn_sched r1) (sc_tick (rn_sched r1)) + secs 10)
      (r1\<lparr>rn_sched := (rn_sched r1)\<lparr>sc_tick := Suc (sc_tick (rn_sched r1))\<rparr>\<rparr>) = Some r2"
    and e: "rn_events r = rn_events r2 @ [RunFinished (rn_passed r2) (rn_failed r2) 0 d]"
    by (rule run_phases)
  have "starts (rn_events r2) = starts (rn_events r1)"
    by (rule collect_remaining_keeps [OF c, where Q = "\<lambda>_. True"]) (simp_all add: starts_simps del: report_stale.simps)
  then have r: "starts (rn_events r) = starts (rn_events r1)" by (simp add: e starts_def)
  have len: "length (enumerate_tests tests) = length tests"
    and snd: "map snd (enumerate_tests tests) = tests"
    and fst: "n < length tests \<Longrightarrow> fst (enumerate_tests tests ! n) = of_nat n" for n
    by (simp_all add: enumerate_tests_def comp_def case_prod_beta nth_enumerate_eq)
  have tk: "map (start_event \<circ> snd) (take n (enumerate_tests tests)) = map start_event (take n tests)" for n
    by (metis map_map snd take_map)
  from dispatch_all_starts [OF d] obtain n where n: "n \<le> length tests"
    "starts (rn_events r1) = map start_event (take n tests)"
    "n = length tests \<or> shut (fst (enumerate_tests tests ! n))"
    by (auto simp: len tk run_init_def starts_def)
  with fst have "n = length tests \<or> shut (of_nat n)" by (metis nat_less_le)
  with n r show ?thesis by auto
qed

text \<open>C13: The scheduler never uses more workers than it has slots: while it dispatches, however the
  dispatching of earlier tests went, the active workers fit the slots, and each was given the slot
  that is its number modulo the number of slots, which exists.\<close>

theorem dispatch_within_capacity:
  assumes "dispatch_all de ser err_text shut queue (run_init tests (new_scheduler cmd rin capture dp k clock)) = Some (Inr r)"
  shows "length (sc_active_workers (rn_sched r)) \<le> slot_count capture \<and>
     (\<forall>i w. hm_get (sc_active_workers (rn_sched r)) i = Some w \<longrightarrow>
        aw_slot w = unat i mod slot_count capture \<and> aw_slot w < slot_count capture)"
proof -
  let ?s = "new_scheduler cmd rin capture dp k clock"
  have "workers_ok (slot_count capture) (run_init tests ?s)"
    by (simp add: workers_ok_def run_init_def new_scheduler_def)
  with assms have "workers_ok (slot_count capture) r" by (rule cap.dispatch_keeps)
  then show ?thesis
    by (cases "slot_count capture") (auto simp: workers_ok_def Let_def)
qed


text \<open>C15: With more tests than slots and workers that all die without an answer the run never
  returns: the loop that waits for a slot does not look for stale workers, as the final loop does.\<close>

theorem run_hangs_without_results:
  assumes "slot_count capture < length tests" and "0 < slot_count capture" and "length tests < 2 ^ 32"
    and "\<forall>i. \<not> shut i" and "\<forall>p. \<exists>bs. ser p = Some bs"
    and "s_wfail cmd = []" and "s_in cmd = map Byte pids @ rest" and "4 * slot_count capture \<le> length pids"
  shows "run_scheduler de ser err_text shut tests (new_scheduler cmd [] capture dp k clock) = None"
proof -
  let ?m = "slot_count capture" and ?s = "new_scheduler cmd [] capture dp k clock"
  have step: "dispatch_all de ser err_text shut (drop j (enumerate_tests tests)) r = None"
    if "j \<le> ?m" and "in_step de tests [] [] [] j 0 r" and "zygote_answers (?m - j) (rn_sched r)"
      and "sc_max_workers (rn_sched r) = ?m" for j r
    using that
  proof (induction "?m - j" arbitrary: j r)
    case 0
    then have j: "j = ?m" by simp
    have "length (sc_active_workers (rn_sched r)) = j - 0"
      using 0 assms(1,3) by (intro in_step_active [OF 0(3)]) auto
    then have "wait_capacity de r = None"
      using 0 j by (intro wait_capacity_hangs) (auto simp: in_step_def)
    then show ?case using j assms(1,2,4) 0(5) by (simp add: drop_enumerate_tests)
  next
    case (Suc n)
    have j: "j < length tests" "j < 2 ^ 32" "j < ?m" using Suc.hyps(2) Suc.prems(1) assms(1,3) by auto
    have "length (sc_active_workers (rn_sched r)) = j - 0"
      using j by (intro in_step_active [OF Suc.prems(2)]) auto
    then have w: "wait_capacity de r = Some r"
      using j Suc.prems(4) by (subst wait_capacity.simps) simp
    have z: "zygote_answers (Suc n) (rn_sched r)" using Suc.prems(3) Suc.hyps(2) by simp
    let ?r = "start_test ser err_text (of_nat j) (tests ! j) (unat (of_nat j :: u32) mod ?m) r"
    note st = in_step_start [OF Suc.prems(2) assms(5) z j(1,2), of err_text "unat (of_nat j :: u32) mod ?m"]
    have "dispatch_all de ser err_text shut (drop (Suc j) (enumerate_tests tests)) ?r = None"
    proof (rule Suc.hyps(1))
      show "n = ?m - Suc j" "Suc j \<le> ?m" using Suc.hyps(2) by simp_all
      then show "zygote_answers (?m - Suc j) (rn_sched ?r)" using st(2) by simp
    qed (use st(1,3) Suc.prems(4) in simp_all)
    then show ?case using w assms(2,4) Suc.prems(4) by (simp add: drop_enumerate_tests [OF j(1)])
  qed
  have "in_step de tests [] [] [] 0 0 (run_init tests ?s)"
    by (simp add: in_step_def run_init_def new_scheduler_def finished_def counted_def passes_def failures_def)
  moreover have "zygote_answers ?m (rn_sched (run_init tests ?s))"
    using assms(6-8) by (auto simp: zygote_answers_def run_init_def new_scheduler_def)
  ultimately have "dispatch_all de ser err_text shut (enumerate_tests tests) (run_init tests ?s) = None"
    using step [of 0 "run_init tests ?s"] by (simp add: run_init_def new_scheduler_def)
  then show ?thesis by (simp add: run_scheduler_def instant_now_def Let_def run_init_def)
qed

text \<open>C16: Two workers can write to the same slot: with one test more than slots, when the first
  answer is not that of test 0, the last test is started on the slot of test 0 while that test is
  still active.\<close>

theorem slot_shared_by_two_workers:
  assumes "length tests = Suc (slot_count capture)" and "2 \<le> slot_count capture" and "length tests < 2 ^ 32"
    and "\<forall>i. \<not> shut i" and "\<forall>p. \<exists>bs. ser p = Some bs"
    and "s_wfail cmd = []" and "s_in cmd = map Byte pids @ rest" and "4 * length tests \<le> length pids"
    and "causal (length tests) (slot_count capture) rs" and "tr_test_id (rs ! 0) \<noteq> 0"
    and "list_all2 (\<lambda>b x. length b < 2 ^ 32 \<and> de b = Some x) bufs rs"
  shows "\<exists>r w w'. dispatch_all de ser err_text shut (enumerate_tests tests)
            (run_init tests (new_scheduler cmd (concat (map enc_frame bufs)) capture dp k clock)) = Some (Inr r)
        \<and> hm_get (sc_active_workers (rn_sched r)) 0 = Some w
        \<and> hm_get (sc_active_workers (rn_sched r)) (of_nat (slot_count capture)) = Some w'
        \<and> aw_slot w = 0 \<and> aw_slot w' = 0"
proof -
  let ?m = "slot_count capture" and ?s = "new_scheduler cmd (concat (map enc_frame bufs)) capture dp k clock"
  have "in_step de tests bufs rs [] 0 (0 - ?m) (run_init tests ?s)"
    by (simp add: in_step_def run_init_def new_scheduler_def finished_def counted_def passes_def failures_def)
  moreover have "zygote_answers (length tests - 0) (rn_sched (run_init tests ?s))"
    using assms(6-8) by (auto simp: zygote_answers_def run_init_def new_scheduler_def)
  ultimately obtain r where
    d: "dispatch_all de ser err_text shut (enumerate_tests tests) (run_init tests ?s) = Some (Inr r)"
    and i: "in_step de tests bufs rs [] (length tests) (length tests - ?m) r"
    using dispatch_in_step [where k = 0 and m = ?m, OF _ assms(11,9) _ assms(3) _ _ assms(4,5), of "[]" "run_init tests ?s" err_text]
      assms(2) by (auto simp: run_init_def new_scheduler_def)
  have m: "unat (of_nat ?m :: u32) = ?m" using assms(1,3) by (intro unat_of_nat_u32) simp
  have "length rs = Suc ?m" using assms(1,9) by (simp add: causal_def)
  moreover have "unat (tr_test_id (rs ! 0)) < 0 + ?m" using assms(1,9) unfolding causal_def by (metis zero_less_Suc)
  ultimately have rs: "rs \<noteq> []" "unat (tr_test_id (rs ! 0)) < ?m" by auto
  have "take (length tests - ?m) rs = [rs ! 0]" using assms(1) rs(1) by (cases rs) auto
  with i have act: "map_option aw_test_name (hm_get (sc_active_workers (rn_sched r)) j) =
      (if unat j < length tests \<and> j \<noteq> tr_test_id (rs ! 0) then Some (rt_test_name (tests ! unat j)) else None)" for j
    by (simp add: in_step_def)
  have "of_nat ?m \<noteq> tr_test_id (rs ! 0)" using rs(2) m by auto
  then obtain w w' where "hm_get (sc_active_workers (rn_sched r)) 0 = Some w"
    "hm_get (sc_active_workers (rn_sched r)) (of_nat ?m) = Some w'"
    using act [of 0] act [of "of_nat ?m"] assms(1,10) m by auto
  moreover have "workers_ok ?m (run_init tests ?s)" by (simp add: workers_ok_def run_init_def new_scheduler_def)
  then have "workers_ok ?m r" by (rule cap.dispatch_keeps [OF d])
  then have "aw_slot v = unat j mod ?m" if "hm_get (sc_active_workers (rn_sched r)) j = Some v" for j v
    using that by (simp add: workers_ok_def Let_def)
  ultimately have "aw_slot w = 0" "aw_slot w' = 0" using m by auto
  with d \<open>hm_get (sc_active_workers (rn_sched r)) 0 = Some w\<close>
    \<open>hm_get (sc_active_workers (rn_sched r)) (of_nat ?m) = Some w'\<close>
  show ?thesis by blast
qed

section \<open>Witnesses\<close>

definition ex_test :: "string \<Rightarrow> RunnableTest" where
  "ex_test n = \<lparr>rt_file_path = [Normal ''t.py''], rt_test_name = n, rt_is_async = False, rt_fixtures = []\<rparr>"

definition ex_capture :: "nat \<Rightarrow> LogCapture" where
  "ex_capture n = \<lparr>lc_fds = [], lc_num_slots = n\<rparr>"

definition ex_res :: "u32 \<Rightarrow> u8 \<Rightarrow> TestResult" where
  "ex_res i st = \<lparr>tr_test_id = i, tr_status = st, tr_duration_ns = 5000000, tr_message = []\<rparr>"

definition ex_de :: "u8 list \<Rightarrow> TestResult option" where
  "ex_de bs = (case bs of [i, st] \<Rightarrow> Some (ex_res (if i = 0 then 0 else if i = 1 then 1 else 2) st) | _ \<Rightarrow> None)"

definition ex_cmd :: sock where
  "ex_cmd = \<lparr>s_out = [], s_wfail = [], s_in = map Byte (replicate 12 0)\<rparr>"

lemmas ex_sched_defs = ex_test_def ex_capture_def ex_res_def ex_de_def ex_cmd_def slot_count_def

lemma ex_causal:
  "causal 2 1 [ex_res 0 0, ex_res 1 1]" "causal 3 2 [ex_res 1 0, ex_res 0 0, ex_res 2 0]"
proof -
  have 2: "(\<forall>j<2. P j) \<longleftrightarrow> P 0 \<and> P (Suc 0)" and 3: "(\<forall>j<3. P j) \<longleftrightarrow> P 0 \<and> P (Suc 0) \<and> P 2" for P :: "nat \<Rightarrow> bool"
    by (auto simp: less_Suc_eq numeral_2_eq_2 numeral_3_eq_3)
  show "causal 2 1 [ex_res 0 0, ex_res 1 1]" "causal 3 2 [ex_res 1 0, ex_res 0 0, ex_res 2 0]"
    unfolding causal_def 2 3 by (simp_all add: ex_res_def)
qed

theorem run_complete_witness:
  "\<exists>d r. run_scheduler ex_de (\<lambda>_. Some []) (\<lambda>_. []) (\<lambda>_. False) [ex_test ''a'', ex_test ''b'']
       (new_scheduler ex_cmd (concat (map enc_frame [[0, 0], [1, 1]]) @ []) (ex_capture 1) [] ex_os (\<lambda>_. 5)) =
     Some (Inr (\<lparr>st_total = 2, st_passed = 1, st_failed = 1, st_duration_ms = d\<rparr>, r))
     \<and> finished (rn_events r) = [TestFinished ''a'' ''pass'' 5 None, TestFinished ''b'' ''fail'' 5 None]"
proof -
  have "\<exists>d r. run_scheduler ex_de (\<lambda>_. Some []) (\<lambda>_. []) (\<lambda>_. False) [ex_test ''a'', ex_test ''b'']
       (new_scheduler ex_cmd (concat (map enc_frame [[0, 0], [1, 1]]) @ []) (ex_capture 1) [] ex_os (\<lambda>_. 5)) =
     Some (Inr (\<lparr>st_total = length [ex_test ''a'', ex_test ''b''],
       st_passed = length (filter (\<lambda>x. tr_status x = STATUS_PASS) [ex_res 0 0, ex_res 1 1]),
       st_failed = length (filter (\<lambda>x. tr_status x \<noteq> STATUS_PASS) [ex_res 0 0, ex_res 1 1]), st_duration_ms = d\<rparr>, r))
     \<and> finished (rn_events r) = map (finish_event [ex_test ''a'', ex_test ''b'']) [ex_res 0 0, ex_res 1 1]"
  proof (rule run_complete [where pids = "replicate 12 0" and rest = "[]"])
    show "causal (length [ex_test ''a'', ex_test ''b'']) (slot_count (ex_capture 1)) [ex_res 0 0, ex_res 1 1]"
      using ex_causal(1) by (simp add: slot_count_def ex_capture_def numeral_2_eq_2)
  qed (simp_all add: ex_sched_defs secs_def)
  moreover have "length [ex_test ''a'', ex_test ''b''] = 2"
    "length (filter (\<lambda>x. tr_status x = STATUS_PASS) [ex_res 0 0, ex_res 1 1]) = 1"
    "length (filter (\<lambda>x. tr_status x \<noteq> STATUS_PASS) [ex_res 0 0, ex_res 1 1]) = 1"
    "map (finish_event [ex_test ''a'', ex_test ''b'']) [ex_res 0 0, ex_res 1 1] =
       [TestFinished ''a'' ''pass'' 5 None, TestFinished ''b'' ''fail'' 5 None]"
    by (simp_all add: ex_res_def STATUS_PASS_def finish_event_def format_result_def ex_test_def)
  ultimately show ?thesis by (simp only:)
qed

text \<open>A run with a slot for its only test, which never answers, and a clock that advances by a second
  with every reading.\<close>

definition ex_clock :: "nat \<Rightarrow> nat" where "ex_clock n = secs n"

lemma ex_clock_unbounded: "\<forall>t. \<exists>T. \<forall>n\<ge>T. t \<le> ex_clock n"
proof
  fix t :: nat
  show "\<exists>T. \<forall>n\<ge>T. t \<le> ex_clock n" by (rule exI [of _ t]) (simp add: ex_clock_def secs_def)
qed


theorem run_hangs_without_results_witness:
  "run_scheduler ex_de (\<lambda>_. Some []) (\<lambda>_. []) (\<lambda>_. False) [ex_test ''a'', ex_test ''b'']
     (new_scheduler ex_cmd [] (ex_capture 1) [] ex_os ex_clock) = None"
  by (rule run_hangs_without_results [where pids = "replicate 12 0" and rest = "[]"])
     (simp_all add: ex_capture_def slot_count_def ex_cmd_def)

theorem slot_shared_by_two_workers_witness:
  "\<exists>r w w'. dispatch_all ex_de (\<lambda>_. Some []) (\<lambda>_. []) (\<lambda>_. False) (enumerate_tests [ex_test ''a'', ex_test ''b'', ex_test ''c''])
      (run_init [ex_test ''a'', ex_test ''b'', ex_test ''c'']
        (new_scheduler ex_cmd (concat (map enc_frame [[1, 0], [0, 0], [2, 0]])) (ex_capture 2) [] ex_os ex_clock)) = Some (Inr r)
    \<and> hm_get (sc_active_workers (rn_sched r)) 0 = Some w
    \<and> hm_get (sc_active_workers (rn_sched r)) (of_nat (slot_count (ex_capture 2))) = Some w'
    \<and> aw_slot w = 0 \<and> aw_slot w' = 0"
proof (rule slot_shared_by_two_workers [where pids = "replicate 12 0" and rest = "[]"
      and rs = "[ex_res 1 0, ex_res 0 0, ex_res 2 0]"])
  show "causal (length [ex_test ''a'', ex_test ''b'', ex_test ''c'']) (slot_count (ex_capture 2))
      [ex_res 1 0, ex_res 0 0, ex_res 2 0]"
    using ex_causal(2) by (simp add: slot_count_def ex_capture_def numeral_3_eq_3)
qed (simp_all add: ex_sched_defs)

text \<open>Facts about a run that returns, on the run with one test and one slot.\<close>

definition ex_sched :: Scheduler where
  "ex_sched = new_scheduler ex_cmd (enc_frame [0, 0]) (ex_capture 1) [] ex_os ex_clock"

lemma ex_run_returns:
  obtains stats r where "run_scheduler ex_de (\<lambda>_. Some []) (\<lambda>_. []) (\<lambda>_. False) [ex_test ''a''] ex_sched
     = Some (Inr (stats, r))"
  using run_scheduler_returns [of "[ex_test ''a'']" "ex_capture 1" ex_clock] ex_clock_unbounded
  unfolding ex_sched_def by (fastforce simp: ex_capture_def slot_count_def)

theorem run_counts_witness:
  "\<exists>stats r es. run_scheduler ex_de (\<lambda>_. Some []) (\<lambda>_. []) (\<lambda>_. False) [ex_test ''a''] ex_sched = Some (Inr (stats, r))
     \<and> rn_events r = RunStart 1 # es @ [RunFinished (st_passed stats) (st_failed stats) 0 (st_duration_ms stats)]
     \<and> st_passed stats = passes es"
proof -
  obtain stats r where r: "run_scheduler ex_de (\<lambda>_. Some []) (\<lambda>_. []) (\<lambda>_. False) [ex_test ''a''] ex_sched
     = Some (Inr (stats, r))" by (rule ex_run_returns)
  with run_counts [OF r [unfolded ex_sched_def]] show ?thesis by auto
qed

theorem dispatch_within_capacity_witness:
  "\<exists>r. dispatch_all ex_de (\<lambda>_. Some []) (\<lambda>_. []) (\<lambda>_. False) [(7, ex_test ''a'')] (run_init [ex_test ''a''] ex_sched) = Some (Inr r)
     \<and> length (sc_active_workers (rn_sched r)) \<le> 1"
proof -
  obtain r where r: "dispatch_all ex_de (\<lambda>_. Some []) (\<lambda>_. []) (\<lambda>_. False) [(7, ex_test ''a'')]
      (run_init [ex_test ''a''] ex_sched) = Some (Inr r)"
    using dispatch_all_returns [of "run_init [ex_test ''a''] ex_sched" "[(7, ex_test ''a'')]"]
    by (fastforce simp: run_init_def ex_sched_def new_scheduler_def ex_capture_def slot_count_def)
  with dispatch_within_capacity [OF r [unfolded ex_sched_def]] show ?thesis
    by (auto simp: slot_count_def ex_capture_def)
qed

end
