(* ===== verification/Snapshot.thy ===== *)
theory Snapshot
  imports Sockets Rust_Path
begin

unbundle bit_operations_syntax

text \<open>
  Memory snapshots of workers (\<^verbatim>\<open>snapshot.rs\<close>): the regions of a process from its memory map, the
  golden copy of their pages, and the restoring of pages on faults.

  Addresses are 64-bit words, and the subtraction of the bounds of a region wraps around, as in a
  release build. The operating system is explicit: a worker process has its memory map, its
  memory, what \<^verbatim>\<open>process_vm_readv\<close> transfers, which requests to the kernel succeed, and the events
  its userfaultfd delivers. Messages to stderr are left out.
\<close>

type_synonym addr = u64

definition PAGE_SIZE :: nat where "PAGE_SIZE = 4096"

section \<open>Passing file descriptors\<close>

text \<open>A message on a Unix socket: its bytes and its control messages.\<close>

datatype control_message = ScmRights int | OtherControl

type_synonym message = "u8 list \<times> control_message list"

definition send_fd :: "u32 \<Rightarrow> int \<Rightarrow> message" where
  "send_fd pid fd = (u32_to_le pid, [ScmRights fd])"

fun first_rights :: "control_message list \<Rightarrow> int option" where
  "first_rights [] = None"
| "first_rights (ScmRights fd # _) = Some fd"
| "first_rights (OtherControl # ms) = first_rights ms"

datatype recv_error = RecvFailed | NoFd

text \<open>\<^verbatim>\<open>recvmsg\<close> into a zeroed buffer of four bytes; \<^const>\<open>None\<close> is a failed call.\<close>

definition recv_fd :: "message option \<Rightarrow> (recv_error, u32 \<times> int) result" where
  "recv_fd m =
     (case m of
        None \<Rightarrow> Inl RecvFailed
      | Some (bytes, controls) \<Rightarrow>
        (let pid_buf = take 4 (bytes @ replicate 4 0) in
         and_then (ok_or NoFd (first_rights controls)) (\<lambda>fd. Inr (u32_from_le pid_buf, fd))))"

section \<open>Memory regions\<close>

record MemoryRegion =
  mr_start :: addr
  mr_end :: addr
  mr_len :: addr
  mr_perms :: string
  mr_name :: string

definition should_snapshot :: "MemoryRegion \<Rightarrow> bool" where
  "should_snapshot r =
     (if \<not> contains_str (mr_perms r) ''w'' then False
      else if contains_str (mr_name r) ''[vdso]'' \<or> contains_str (mr_name r) ''[vsyscall]'' then False
      else if contains_str (mr_name r) ''[heap]'' then True
      else if contains_str (mr_name r) ''[stack]'' then True
      else if contains_str (mr_name r) ''libpython'' then True
      else if mr_name r = [] \<and> contains_str (mr_perms r) ''p'' then True
      else False)"

definition is_stack :: "MemoryRegion \<Rightarrow> bool" where
  "is_stack r = contains_str (mr_name r) ''[stack]''"

definition hex_digit :: "char \<Rightarrow> nat option" where
  "hex_digit c =
     (let n = (of_char c :: nat) in
      if 48 \<le> n \<and> n \<le> 57 then Some (n - 48)
      else if 97 \<le> n \<and> n \<le> 102 then Some (n - 87)
      else if 65 \<le> n \<and> n \<le> 70 then Some (n - 55)
      else None)"

fun hex_value :: "nat \<Rightarrow> string \<Rightarrow> nat option" where
  "hex_value acc [] = Some acc"
| "hex_value acc (c # cs) = (case hex_digit c of None \<Rightarrow> None | Some d \<Rightarrow> hex_value (16 * acc + d) cs)"

text \<open>\<^verbatim>\<open>usize::from_str_radix(s, 16)\<close>: an optional plus sign, at least one digit, no overflow.\<close>

definition from_str_radix_16 :: "string \<Rightarrow> addr option" where
  "from_str_radix_16 s =
     (let digits = (case s of c # cs \<Rightarrow> if c = CHR ''+'' \<and> cs \<noteq> [] then cs else s | [] \<Rightarrow> []) in
      if digits = [] then None
      else case hex_value 0 digits of
             None \<Rightarrow> None
           | Some n \<Rightarrow> if n < 2 ^ 64 then Some (of_nat n) else None)"

definition unwrap_or_0 :: "addr option \<Rightarrow> addr" where
  "unwrap_or_0 x = (case x of None \<Rightarrow> 0 | Some a \<Rightarrow> a)"

definition parse_map_line :: "string \<Rightarrow> MemoryRegion option" where
  "parse_map_line line =
     (let parts = split_whitespace line in
      if length parts < 5 then None
      else case split_str ''-'' (parts ! 0) of
             [a, b] \<Rightarrow>
               (let start = unwrap_or_0 (from_str_radix_16 a); end' = unwrap_or_0 (from_str_radix_16 b) in
                Some \<lparr>mr_start = start, mr_end = end', mr_len = end' - start, mr_perms = parts ! 1,
                      mr_name = (if length parts > 5 then str_join '' '' (drop 5 parts) else [])\<rparr>)
           | _ \<Rightarrow> None)"

text \<open>The content of the map file is \<^const>\<open>None\<close> when it cannot be read.\<close>

definition parse_memory_maps :: "string option \<Rightarrow> MemoryRegion list option" where
  "parse_memory_maps content = map_option (\<lambda>c. List.map_filter parse_map_line (str_lines c)) content"

definition align_to_page :: "addr \<Rightarrow> addr" where
  "align_to_page a = a AND NOT (of_nat PAGE_SIZE - 1)"

section \<open>Worker processes\<close>

datatype uffd_event = Pagefault addr | OtherEvent

text \<open>What \<^verbatim>\<open>read_event\<close> returns, until the list ends, which is that there are no more events; an
  error ends the loop too.\<close>

datatype uffd_read = Event uffd_event | NoEvent | ReadError

record process =
  pr_maps :: "string option"
  pr_mem :: "addr \<Rightarrow> u8"
  pr_readv :: "addr \<Rightarrow> addr \<Rightarrow> nat option"
  pr_register_ok :: "addr \<Rightarrow> addr \<Rightarrow> bool"
  pr_fill_ok :: "addr \<Rightarrow> bool"
  pr_pidfd_ok :: bool
  pr_madvise_ok :: bool
  pr_events :: "uffd_read list"

definition mem_range :: "(addr \<Rightarrow> u8) \<Rightarrow> addr \<Rightarrow> nat \<Rightarrow> u8 list" where
  "mem_range mem start n = map (\<lambda>i. mem (start + of_nat i)) [0..<n]"

definition mem_write :: "addr \<Rightarrow> u8 list \<Rightarrow> (addr \<Rightarrow> u8) \<Rightarrow> addr \<Rightarrow> u8" where
  "mem_write dst bytes mem a =
     (if unat (a - dst) < length bytes then bytes ! unat (a - dst) else mem a)"

text \<open>\<^verbatim>\<open>madvise(MADV_DONTNEED)\<close> on a registered range drops its pages: the contents are gone until a
  fault fills them, here they read as zero.\<close>

definition mem_drop :: "(addr \<times> addr) list \<Rightarrow> (addr \<Rightarrow> u8) \<Rightarrow> addr \<Rightarrow> u8" where
  "mem_drop iovecs mem a =
     (if list_ex (\<lambda>(base, len). a - base < len) iovecs then 0 else mem a)"

section \<open>SnapshotManager\<close>

record WorkerSnapshot =
  ws_uffd :: int
  ws_golden_pages :: "(addr, u8 list) hashmap"
  ws_regions :: "MemoryRegion list"

record SnapshotManager =
  sm_available :: bool
  sm_workers :: "(int, WorkerSnapshot) hashmap"

datatype snapshot_error =
  MapsUnreadable | ReadvFailed | PartialRead | RegisterFailed | NotRegistered | PidfdFailed | MadviseFailed | FillFailed

definition new_manager :: "bool \<Rightarrow> SnapshotManager" where
  "new_manager uffd_ok = \<lparr>sm_available = uffd_ok, sm_workers = []\<rparr>"

definition get_worker_uffd :: "SnapshotManager \<Rightarrow> int \<Rightarrow> int option" where
  "get_worker_uffd m pid = map_option ws_uffd (hm_get (sm_workers m) pid)"

function split_pages :: "addr \<Rightarrow> u8 list \<Rightarrow> nat \<Rightarrow> (addr, u8 list) hashmap \<Rightarrow> (addr, u8 list) hashmap" where
  "split_pages start buffer offset pages =
     (if offset < length buffer
      then let page_end = min (offset + PAGE_SIZE) (length buffer);
               page_data = take (page_end - offset) (drop offset buffer)
           in split_pages start buffer (offset + PAGE_SIZE) (hm_insert (start + of_nat offset) page_data pages)
      else pages)"
  by pat_completeness auto
termination
  by (relation "measure (\<lambda>(start, buffer, offset, pages). length buffer - offset)") (auto simp: PAGE_SIZE_def)

declare split_pages.simps [simp del]

definition capture_region_pages :: "process \<Rightarrow> MemoryRegion \<Rightarrow> (snapshot_error, (addr, u8 list) hashmap) result" where
  "capture_region_pages p region =
     (case pr_readv p (mr_start region) (mr_len region) of
        None \<Rightarrow> Inl ReadvFailed
      | Some bytes_read \<Rightarrow>
          if bytes_read \<noteq> unat (mr_len region) then Inl PartialRead
          else Inr (split_pages (mr_start region) (mem_range (pr_mem p) (mr_start region) (unat (mr_len region))) 0 []))"

fun capture_all ::
  "process \<Rightarrow> MemoryRegion list \<Rightarrow> (addr, u8 list) hashmap \<Rightarrow> (snapshot_error, (addr, u8 list) hashmap) result"
where
  "capture_all p [] golden = Inr golden"
| "capture_all p (region # regions) golden =
     and_then (capture_region_pages p region)
       (\<lambda>pages. capture_all p regions (fold (\<lambda>(k, v). hm_insert k v) pages golden))"

definition register_worker_with_uffd ::
  "int \<Rightarrow> int \<Rightarrow> process \<Rightarrow> SnapshotManager \<Rightarrow> (snapshot_error, SnapshotManager) result" where
  "register_worker_with_uffd pid uffd p m =
     (if \<not> sm_available m then Inr m
      else and_then (ok_or MapsUnreadable (parse_memory_maps (pr_maps p))) (\<lambda>regions.
        let snapshot_regions = filter should_snapshot regions in
        and_then (capture_all p snapshot_regions []) (\<lambda>golden_pages.
          if \<not> list_all (\<lambda>r. pr_register_ok p (mr_start r) (mr_len r)) snapshot_regions then Inl RegisterFailed
          else Inr (m\<lparr>sm_workers := hm_insert pid
                 \<lparr>ws_uffd = uffd, ws_golden_pages = golden_pages, ws_regions = snapshot_regions\<rparr> (sm_workers m)\<rparr>))))"

definition reset_worker :: "int \<Rightarrow> process \<Rightarrow> SnapshotManager \<Rightarrow> (snapshot_error, process) result" where
  "reset_worker pid p m =
     (if \<not> sm_available m then Inr p
      else case hm_get (sm_workers m) pid of
             None \<Rightarrow> Inl NotRegistered
           | Some worker \<Rightarrow>
               if \<not> pr_pidfd_ok p then Inl PidfdFailed
               else let iovecs = map (\<lambda>r. (mr_start r, mr_len r)) (ws_regions worker) in
                    if \<not> pr_madvise_ok p then Inl MadviseFailed
                    else Inr (p\<lparr>pr_mem := mem_drop iovecs (pr_mem p)\<rparr>))"

text \<open>The page of a fault: the golden copy, or zeros when the page is not in the snapshot.\<close>

definition fill_page :: "WorkerSnapshot \<Rightarrow> addr \<Rightarrow> process \<Rightarrow> (snapshot_error, process) result" where
  "fill_page worker fault_addr p =
     (let page_start = align_to_page fault_addr;
          bytes = (case hm_get (ws_golden_pages worker) page_start of
                     Some data \<Rightarrow> data | None \<Rightarrow> replicate PAGE_SIZE 0)
      in if pr_fill_ok p page_start then Inr (p\<lparr>pr_mem := mem_write page_start bytes (pr_mem p)\<rparr>)
         else Inl FillFailed)"

definition handle_fault :: "int \<Rightarrow> addr \<Rightarrow> process \<Rightarrow> SnapshotManager \<Rightarrow> (snapshot_error, process) result" where
  "handle_fault pid fault_addr p m =
     (case hm_get (sm_workers m) pid of
        None \<Rightarrow> Inl NotRegistered
      | Some worker \<Rightarrow> fill_page worker fault_addr p)"

fun fault_loop :: "WorkerSnapshot \<Rightarrow> uffd_read list \<Rightarrow> nat \<Rightarrow> process \<Rightarrow> (snapshot_error, nat) result \<times> process" where
  "fault_loop worker [] handled p = (Inr handled, p\<lparr>pr_events := []\<rparr>)"
| "fault_loop worker (Event (Pagefault a) # es) handled p =
     (case fill_page worker a p of
        Inl e \<Rightarrow> (Inl e, p\<lparr>pr_events := es\<rparr>)
      | Inr p' \<Rightarrow> fault_loop worker es (handled + 1) p')"
| "fault_loop worker (Event OtherEvent # es) handled p = fault_loop worker es handled p"
| "fault_loop worker (NoEvent # es) handled p = (Inr handled, p\<lparr>pr_events := es\<rparr>)"
| "fault_loop worker (ReadError # es) handled p = (Inr handled, p\<lparr>pr_events := es\<rparr>)"

definition handle_pending_faults ::
  "int \<Rightarrow> process \<Rightarrow> SnapshotManager \<Rightarrow> (snapshot_error, nat) result \<times> process" where
  "handle_pending_faults pid p m =
     (case hm_get (sm_workers m) pid of
        None \<Rightarrow> (Inl NotRegistered, p)
      | Some worker \<Rightarrow> fault_loop worker (pr_events p) 0 p)"

definition remove_worker :: "int \<Rightarrow> SnapshotManager \<Rightarrow> SnapshotManager" where
  "remove_worker pid m = m\<lparr>sm_workers := hm_remove pid (sm_workers m)\<rparr>"

definition worker_pids :: "SnapshotManager \<Rightarrow> int list" where
  "worker_pids m = map fst (sm_workers m)"

section \<open>Pages\<close>

lemma align_to_page_sub: "align_to_page a = a - take_bit 12 a"
proof -
  have m: "of_nat PAGE_SIZE - 1 = (mask 12 :: addr)" by (simp add: PAGE_SIZE_def mask_eq_exp_minus_1)
  have "align_to_page a = push_bit 12 (drop_bit 12 a)"
    unfolding align_to_page_def m by (rule bit_word_eqI) (auto simp: bit_simps)
  then show ?thesis using bits_ident [of 12 a] by (simp add: algebra_simps)
qed

lemma unat_align_to_page: "unat (align_to_page a) = unat a - unat a mod PAGE_SIZE"
proof -
  have "unat (take_bit 12 a) = unat a mod PAGE_SIZE"
    by (simp add: take_bit_eq_mod unat_mod PAGE_SIZE_def)
  moreover have "take_bit 12 a \<le> a"
    unfolding word_le_nat_alt using calculation by simp
  ultimately show ?thesis by (simp add: align_to_page_sub unat_sub)
qed

text \<open>The pages of a buffer: the page at a multiple of the page size is the slice from there.\<close>

lemma of_nat_addr_eq:
  assumes "i < 2 ^ 64" and "j < 2 ^ 64" shows "(of_nat i :: addr) = of_nat j \<longleftrightarrow> i = j"
proof -
  have "unat (of_nat n :: addr) = n" if "n < 2 ^ 64" for n using that by (simp add: unat_of_nat)
  with assms show ?thesis by metis
qed

lemma split_pages_get:
  assumes "length buffer < 2 ^ 64" and "j < 2 ^ 64" and "offset mod PAGE_SIZE = 0"
  shows "hm_get (split_pages start buffer offset pages) (start + of_nat j) =
     (if offset \<le> j \<and> j < length buffer \<and> j mod PAGE_SIZE = 0
      then Some (take PAGE_SIZE (drop j buffer)) else hm_get pages (start + of_nat j))"
  using assms(3)
proof (induction "length buffer - offset" arbitrary: offset pages rule: less_induct)
  case less
  show ?case
  proof (cases "offset < length buffer")
    case False
    then show ?thesis by (subst split_pages.simps) auto
  next
    case True
    let ?page = "take (min (offset + PAGE_SIZE) (length buffer) - offset) (drop offset buffer)"
    let ?pages = "hm_insert (start + of_nat offset) ?page pages"
    have page: "?page = take PAGE_SIZE (drop offset buffer)" by (simp add: min_def)
    have eq: "split_pages start buffer offset pages = split_pages start buffer (offset + PAGE_SIZE) ?pages"
      using True by (subst split_pages.simps) simp
    have IH: "hm_get (split_pages start buffer (offset + PAGE_SIZE) ?pages) (start + of_nat j) =
       (if offset + PAGE_SIZE \<le> j \<and> j < length buffer \<and> j mod PAGE_SIZE = 0
        then Some (take PAGE_SIZE (drop j buffer)) else hm_get ?pages (start + of_nat j))"
      using True less.prems by (intro less.hyps) (auto simp: PAGE_SIZE_def)
    have get: "hm_get ?pages (start + of_nat j) = (if j = offset then Some ?page else hm_get pages (start + of_nat j))"
      using of_nat_addr_eq [of j offset] assms(1,2) True by (simp add: hm_get_insert)
    have "j mod PAGE_SIZE \<noteq> 0" if "offset < j" "j < offset + PAGE_SIZE"
    proof -
      from that obtain d where d: "j = offset + d" "0 < d" "d < PAGE_SIZE"
        by (metis add_less_cancel_left less_imp_add_positive)
      then have "j mod PAGE_SIZE = d" using less.prems by (metis add.left_neutral mod_add_left_eq mod_less)
      with d show ?thesis by simp
    qed
    moreover have "hm_get (split_pages start buffer offset pages) (start + of_nat j) =
       (if offset + PAGE_SIZE \<le> j \<and> j < length buffer \<and> j mod PAGE_SIZE = 0
        then Some (take PAGE_SIZE (drop j buffer))
        else if j = offset then Some (take PAGE_SIZE (drop offset buffer)) else hm_get pages (start + of_nat j))"
      using IH get page eq by argo
    ultimately show ?thesis using True less.prems by auto
  qed
qed

lemma split_pages_ok: "hm_ok pages \<Longrightarrow> hm_ok (split_pages start buffer offset pages)"
proof (induction start buffer offset pages rule: split_pages.induct)
  case (1 start buffer offset pages)
  then show ?case by (subst split_pages.simps) (simp add: hm.wf_ins Let_def)
qed

lemma PAGE_SIZE_pos [simp]: "0 < PAGE_SIZE" by (simp add: PAGE_SIZE_def)

text \<open>A region as the kernel maps it: whole pages, inside the address space.\<close>

definition region_ok :: "MemoryRegion \<Rightarrow> bool" where
  "region_ok r \<longleftrightarrow> unat (mr_start r) mod PAGE_SIZE = 0 \<and> unat (mr_len r) mod PAGE_SIZE = 0 \<and>
     unat (mr_start r) + unat (mr_len r) \<le> 2 ^ 64"

definition in_region :: "MemoryRegion \<Rightarrow> addr \<Rightarrow> bool" where
  "in_region r a \<longleftrightarrow> unat (a - mr_start r) < unat (mr_len r)"

definition page_in :: "MemoryRegion \<Rightarrow> addr \<Rightarrow> bool" where
  "page_in r k \<longleftrightarrow> in_region r k \<and> unat (k - mr_start r) mod PAGE_SIZE = 0"

lemma mem_range_slice:
  "j + n \<le> l \<Longrightarrow> take n (drop j (mem_range mem start l)) = mem_range mem (start + of_nat j) n"
  by (rule nth_equalityI) (auto simp: mem_range_def add.assoc)

lemma length_mem_range [simp]: "length (mem_range mem start n) = n"
  by (simp add: mem_range_def)

lemma page_fits:
  assumes "j < l" and "j mod PAGE_SIZE = 0" and "l mod PAGE_SIZE = 0" shows "j + PAGE_SIZE \<le> l"
proof -
  obtain a b where "j = PAGE_SIZE * a" "l = PAGE_SIZE * b" using assms(2,3) by (auto simp: dvd_def mod_eq_0_iff_dvd)
  with assms(1) have "Suc a \<le> b" by simp
  then have "PAGE_SIZE * Suc a \<le> PAGE_SIZE * b" by (rule mult_le_mono2)
  with \<open>j = _\<close> \<open>l = _\<close> show ?thesis by simp
qed

lemma capture_region_get:
  assumes "capture_region_pages p r = Inr pages" and "region_ok r"
  shows "hm_ok pages" and "hm_get pages k = (if page_in r k then Some (mem_range (pr_mem p) k PAGE_SIZE) else None)"
proof -
  let ?buf = "mem_range (pr_mem p) (mr_start r) (unat (mr_len r))" and ?j = "unat (k - mr_start r)"
  from assms(1) have pages: "pages = split_pages (mr_start r) ?buf 0 []"
    by (auto simp: capture_region_pages_def split: option.splits if_splits)
  show "hm_ok pages" by (simp add: pages split_pages_ok)
  have bounds: "length ?buf < 2 ^ 64" "?j < 2 ^ 64"
    using unsigned_less [of "mr_len r", where ?'a = nat] unsigned_less [of "k - mr_start r", where ?'a = nat]
    by simp_all
  have k: "mr_start r + of_nat ?j = k" by simp
  have "hm_get pages (mr_start r + of_nat ?j) =
      (if 0 \<le> ?j \<and> ?j < length ?buf \<and> ?j mod PAGE_SIZE = 0
       then Some (take PAGE_SIZE (drop ?j ?buf)) else hm_get [] (mr_start r + of_nat ?j))"
    unfolding pages by (rule split_pages_get [OF bounds]) simp
  moreover have "take PAGE_SIZE (drop ?j ?buf) = mem_range (pr_mem p) k PAGE_SIZE"
    if "?j < unat (mr_len r)" "?j mod PAGE_SIZE = 0"
    using that assms(2) mem_range_slice [of ?j PAGE_SIZE "unat (mr_len r)" "pr_mem p" "mr_start r"] k
    by (simp add: region_ok_def page_fits)
  ultimately show "hm_get pages k = (if page_in r k then Some (mem_range (pr_mem p) k PAGE_SIZE) else None)"
    unfolding k by (auto simp: page_in_def in_region_def)
qed

lemma map_of_rev_ok: "hm_ok m \<Longrightarrow> map_of (rev m) = map_of m"
proof
  fix k assume "hm_ok m"
  then have "map_of (rev m) k = Some v \<longleftrightarrow> map_of m k = Some v" for v
    by (simp add: hm_ok_def rev_map [symmetric])
  then show "map_of (rev m) k = map_of m k" by (metis not_None_eq)
qed

lemma capture_all_get:
  assumes "capture_all p rs golden = Inr g" and "hm_ok golden" and "list_all region_ok rs"
  shows "hm_ok g \<and> hm_get g k =
     (if list_ex (\<lambda>r. page_in r k) rs then Some (mem_range (pr_mem p) k PAGE_SIZE) else hm_get golden k)"
  using assms
proof (induction rs arbitrary: golden)
  case (Cons r rs)
  from Cons.prems(1) obtain pages where c: "capture_region_pages p r = Inr pages"
    and g: "capture_all p rs (fold (\<lambda>(k, v). hm_insert k v) pages golden) = Inr g"
    by (auto simp: result_simps)
  have "region_ok r" using Cons.prems(3) by simp
  note pages = capture_region_get [OF c this]
  have "hm_get (fold (\<lambda>(k, v). hm_insert k v) pages golden) k =
      (case map_of (rev pages) k of None \<Rightarrow> hm_get golden k | Some v \<Rightarrow> Some v)"
    by (rule hm.get_fold_ins [OF Cons.prems(2)])
  moreover have "map_of (rev pages) = map_of pages"
    using pages(1) by (rule map_of_rev_ok)
  moreover have "hm_ok (fold (\<lambda>(k, v). hm_insert k v) pages golden)"
    by (rule hm.wf_fold_ins [OF Cons.prems(2)])
  ultimately show ?case using Cons.IH [OF g] Cons.prems(3) pages(2) by auto
qed simp

section \<open>Restoring\<close>

lemma align_offset: "unat (a - align_to_page a) < PAGE_SIZE"
proof -
  have "a - align_to_page a = take_bit 12 a" by (simp add: align_to_page_sub)
  moreover have "unat (take_bit 12 a) = unat a mod PAGE_SIZE"
    by (simp add: take_bit_eq_mod unat_mod PAGE_SIZE_def)
  ultimately show ?thesis by simp
qed

lemma align_of_offset:
  assumes "unat (b - align_to_page a) < PAGE_SIZE" shows "align_to_page b = align_to_page a"
proof -
  let ?p = "align_to_page a" and ?d = "b - align_to_page a"
  have p: "unat ?p mod PAGE_SIZE = 0"
    by (simp add: unat_align_to_page minus_mod_eq_mult_div)
  have pl: "unat ?p + PAGE_SIZE \<le> 2 ^ 64"
  proof (rule page_fits)
    show "unat ?p < 2 ^ 64" using unsigned_less [of ?p, where ?'a = nat] by simp
    show "2 ^ 64 mod PAGE_SIZE = 0" by (simp add: PAGE_SIZE_def)
  qed (rule p)
  have "unat b = unat (?p + ?d)" by simp
  also have "\<dots> = unat ?p + unat ?d"
    using pl assms by (intro unat_add_lem [THEN iffD1]) simp
  finally have b: "unat b = unat ?p + unat ?d" .
  then have "unat b mod PAGE_SIZE = unat ?d"
    using p assms by (metis add.left_neutral mod_add_left_eq mod_less)
  with b have "unat (align_to_page b) = unat ?p" by (simp add: unat_align_to_page [of b])
  then show ?thesis by (simp add: word_unat_eq_iff)
qed

lemma mem_write_page:
  assumes "length bytes = PAGE_SIZE"
  shows "mem_write (align_to_page a) bytes mem b =
     (if align_to_page b = align_to_page a then bytes ! unat (b - align_to_page b) else mem b)"
  using align_offset [of b] align_of_offset [of b a] assms by (auto simp: mem_write_def)

lemma page_in_align:
  assumes "region_ok r" and "in_region r a" shows "page_in r (align_to_page a)"
proof -
  let ?s = "mr_start r" and ?j = "unat (a - mr_start r)"
  have j: "?j < unat (mr_len r)" using assms(2) by (simp add: in_region_def)
  have "unat a = unat (?s + (a - ?s))" by simp
  also have "\<dots> = unat ?s + ?j"
    using assms(1) j by (intro unat_add_lem [THEN iffD1]) (simp add: region_ok_def)
  finally have a: "unat a = unat ?s + ?j" .
  then have m: "unat a mod PAGE_SIZE = ?j mod PAGE_SIZE"
    using assms(1) by (metis add.left_neutral mod_add_left_eq region_ok_def)
  have al: "unat (align_to_page a) = unat ?s + (?j - ?j mod PAGE_SIZE)"
    by (simp add: unat_align_to_page a m [unfolded a])
  then have "unat ?s \<le> unat (align_to_page a)" by linarith
  then have "?s \<le> align_to_page a" by (simp add: word_le_nat_alt)
  then have "unat (align_to_page a - ?s) = unat (align_to_page a) - unat ?s" by (rule unat_sub)
  with al have "unat (align_to_page a - ?s) = ?j - ?j mod PAGE_SIZE" by linarith
  moreover have "?j - ?j mod PAGE_SIZE < unat (mr_len r)" using j by simp
  moreover have "(?j - ?j mod PAGE_SIZE) mod PAGE_SIZE = 0" by (simp add: minus_mod_eq_mult_div)
  ultimately show ?thesis by (simp only: page_in_def in_region_def)
qed

definition golden_ok :: "(addr \<Rightarrow> u8) \<Rightarrow> MemoryRegion list \<Rightarrow> WorkerSnapshot \<Rightarrow> bool" where
  "golden_ok mem rs w \<longleftrightarrow> ws_regions w = rs \<and>
     (\<forall>k. hm_get (ws_golden_pages w) k =
        (if list_ex (\<lambda>r. page_in r k) rs then Some (mem_range mem k PAGE_SIZE) else None))"

text \<open>The byte a filled page holds: the captured one inside the regions, zero outside.\<close>

definition golden_byte :: "(addr \<Rightarrow> u8) \<Rightarrow> MemoryRegion list \<Rightarrow> addr \<Rightarrow> u8" where
  "golden_byte mem rs b = (if list_ex (\<lambda>r. page_in r (align_to_page b)) rs then mem b else 0)"

lemma fill_page_golden:
  assumes "golden_ok mem rs w" and "pr_fill_ok p (align_to_page a)"
  obtains p' where "fill_page w a p = Inr p'" and "pr_fill_ok p' = pr_fill_ok p"
    and "pr_mem p' = (\<lambda>b. if align_to_page b = align_to_page a then golden_byte mem rs b else pr_mem p b)"
proof -
  let ?k = "align_to_page a"
  let ?bytes = "case hm_get (ws_golden_pages w) ?k of Some d \<Rightarrow> d | None \<Rightarrow> replicate PAGE_SIZE 0"
  have len: "length ?bytes = PAGE_SIZE" using assms(1) by (simp add: golden_ok_def)
  have byte: "?bytes ! unat (b - align_to_page b) = golden_byte mem rs b" if "align_to_page b = ?k" for b
    using assms(1) align_offset [of b] that
    by (simp add: golden_ok_def golden_byte_def mem_range_def)
  show ?thesis
  proof (rule that)
    show "fill_page w a p = Inr (p\<lparr>pr_mem := mem_write ?k ?bytes (pr_mem p)\<rparr>)"
      using assms(2) by (simp add: fill_page_def Let_def)
    show "pr_mem (p\<lparr>pr_mem := mem_write ?k ?bytes (pr_mem p)\<rparr>) =
        (\<lambda>b. if align_to_page b = ?k then golden_byte mem rs b else pr_mem p b)"
      using byte by (auto simp: mem_write_page [OF len])
  qed simp
qed

lemma fault_loop_golden:
  assumes "golden_ok mem rs w" and "\<forall>a\<in>set as. pr_fill_ok p (align_to_page a)"
  shows "\<exists>p'. fault_loop w (map (Event \<circ> Pagefault) as) n p = (Inr (n + length as), p') \<and>
     pr_mem p' = (\<lambda>b. if align_to_page b \<in> align_to_page ` set as then golden_byte mem rs b else pr_mem p b)"
  using assms(2)
proof (induction as arbitrary: n p)
  case Nil
  show ?case by simp
next
  case (Cons a as)
  then have "pr_fill_ok p (align_to_page a)" by simp
  with assms(1) obtain p1 where f: "fill_page w a p = Inr p1" "pr_fill_ok p1 = pr_fill_ok p"
    and m: "pr_mem p1 = (\<lambda>b. if align_to_page b = align_to_page a then golden_byte mem rs b else pr_mem p b)"
    by (rule fill_page_golden)
  have "\<forall>a\<in>set as. pr_fill_ok p1 (align_to_page a)" using Cons.prems f(2) by simp
  from Cons.IH [OF this, of "n + 1"] obtain p' where
    p': "fault_loop w (map (Event \<circ> Pagefault) as) (n + 1) p1 = (Inr (n + 1 + length as), p')"
    and m': "pr_mem p' = (\<lambda>b. if align_to_page b \<in> align_to_page ` set as then golden_byte mem rs b else pr_mem p1 b)"
    by blast
  have "pr_mem p' = (\<lambda>b. if align_to_page b \<in> align_to_page ` set (a # as) then golden_byte mem rs b else pr_mem p b)"
    unfolding m' m by auto
  then show ?case using f(1) p' by (auto simp: comp_def)
qed

lemma register_golden:
  assumes "register_worker_with_uffd pid uffd p m = Inr m'" and "sm_available m"
    and "parse_memory_maps (pr_maps p) = Some regions" and "list_all region_ok (filter should_snapshot regions)"
  obtains w where "hm_get (sm_workers m') pid = Some w" and "ws_uffd w = uffd" and "sm_available m'"
    and "golden_ok (pr_mem p) (filter should_snapshot regions) w"
proof -
  let ?rs = "filter should_snapshot regions"
  from assms(1-3) obtain g where g: "capture_all p ?rs [] = Inr g"
    and m': "m' = m\<lparr>sm_workers := hm_insert pid \<lparr>ws_uffd = uffd, ws_golden_pages = g, ws_regions = ?rs\<rparr> (sm_workers m)\<rparr>"
    by (auto simp: register_worker_with_uffd_def result_simps Let_def split: if_splits)
  have "golden_ok (pr_mem p) ?rs \<lparr>ws_uffd = uffd, ws_golden_pages = g, ws_regions = ?rs\<rparr>"
    using capture_all_get [OF g _ assms(4)] by (simp add: golden_ok_def)
  then show ?thesis using assms(2) by (intro that) (auto simp: m' hm_get_insert)
qed

section \<open>The memory map as the kernel prints it\<close>

definition hex_char :: "nat \<Rightarrow> char" where
  "hex_char d = char_of (if d < 10 then 48 + d else 87 + d)"

fun show_hex :: "nat \<Rightarrow> string" where
  "show_hex n = (if n < 16 then [hex_char n] else show_hex (n div 16) @ [hex_char (n mod 16)])"

declare show_hex.simps [simp del]

lemma of_char_hex: "d < 16 \<Longrightarrow> (of_char (hex_char d) :: nat) = (if d < 10 then 48 + d else 87 + d)"
  by (simp add: hex_char_def)

lemma hex_digit_char: "d < 16 \<Longrightarrow> hex_digit (hex_char d) = Some d"
  by (simp add: hex_digit_def of_char_hex)

lemma hex_value_append: "hex_value acc (s @ [c]) =
    (case hex_value acc s of None \<Rightarrow> None | Some n \<Rightarrow> map_option (\<lambda>d. 16 * n + d) (hex_digit c))"
  by (induction s arbitrary: acc) (auto split: option.splits)

lemma hex_value_show_hex: "hex_value 0 (show_hex n) = Some n"
proof (induction n rule: show_hex.induct)
  case (1 n)
  show ?case
  proof (cases "n < 16")
    case False
    with 1 have "hex_value 0 (show_hex (n div 16)) = Some (n div 16)" by simp
    with False show ?thesis by (simp add: show_hex.simps [of n] hex_value_append hex_digit_char)
  qed (simp add: show_hex.simps [of n] hex_digit_char)
qed

lemma show_hex_chars: "c \<in> set (show_hex n) \<Longrightarrow> \<exists>d<16. c = hex_char d"
proof (induction n rule: show_hex.induct)
  case (1 n)
  have "\<exists>d<16. hex_char (n mod 16) = hex_char d" by (rule exI [of _ "n mod 16"]) simp
  with 1 show ?case by (cases "n < 16") (auto simp: show_hex.simps [of n])
qed

lemma show_hex_clean: "c \<in> set (show_hex n) \<Longrightarrow> graph c \<and> c \<noteq> CHR ''-'' \<and> c \<noteq> CHR ''+''"
proof -
  assume "c \<in> set (show_hex n)"
  then obtain d where "d < 16" "c = hex_char d" using show_hex_chars by blast
  then have n: "(of_char c :: nat) = (if d < 10 then 48 + d else 87 + d)" by (simp add: of_char_hex)
  then have "(of_char c :: nat) \<noteq> of_char (CHR ''-'')" "(of_char c :: nat) \<noteq> of_char (CHR ''+'')"
    using \<open>d < 16\<close> by auto
  then show ?thesis using n \<open>d < 16\<close> by (auto simp: graph_def)
qed

lemma show_hex_not_Nil: "show_hex n \<noteq> []"
  by (simp add: show_hex.simps [of n])

lemma from_str_radix_show_hex: "n < 2 ^ 64 \<Longrightarrow> from_str_radix_16 (show_hex n) = Some (of_nat n)"
proof -
  assume n: "n < 2 ^ 64"
  obtain c cs where c: "show_hex n = c # cs" using show_hex_not_Nil by (cases "show_hex n") auto
  then have "c \<noteq> CHR ''+''" using show_hex_clean [of c n] by simp
  then show ?thesis using n hex_value_show_hex [of n] by (simp add: from_str_radix_16_def c)
qed

text \<open>A line of the map file: the range, the permissions, offset, device and inode, and the words of
  the name, if any.\<close>

definition map_words :: "addr \<Rightarrow> addr \<Rightarrow> string \<Rightarrow> string list \<Rightarrow> string list \<Rightarrow> string list" where
  "map_words a b perms mid name = [show_hex (unat a) @ ''-'' @ show_hex (unat b), perms] @ mid @ name"

definition map_line :: "addr \<Rightarrow> addr \<Rightarrow> string \<Rightarrow> string list \<Rightarrow> string list \<Rightarrow> string" where
  "map_line a b perms mid name = str_join '' '' (map_words a b perms mid name)"

definition word_ok :: "string \<Rightarrow> bool" where
  "word_ok w \<longleftrightarrow> w \<noteq> [] \<and> list_all graph w"

lemma parse_map_line_ok:
  assumes "word_ok perms" and "list_all word_ok mid" and "length mid = 3" and "list_all word_ok name"
  shows "parse_map_line (map_line a b perms mid name) =
     Some \<lparr>mr_start = a, mr_end = b, mr_len = b - a, mr_perms = perms, mr_name = str_join '' '' name\<rparr>"
proof -
  let ?r = "show_hex (unat a) @ ''-'' @ show_hex (unat b)"
  have hex: "from_str_radix_16 (show_hex (unat x)) = Some x" for x :: addr
    using from_str_radix_show_hex [of "unat x"] unsigned_less [of x, where ?'a = nat] by simp
  have "word_ok ?r" using show_hex_clean show_hex_not_Nil
    by (auto simp: word_ok_def list_all_iff graph_def)
  with assms have "list_all (\<lambda>w. w \<noteq> [] \<and> list_all graph w) (map_words a b perms mid name)"
    by (simp add: map_words_def word_ok_def [abs_def])
  then have w: "split_whitespace (map_line a b perms mid name) = map_words a b perms mid name"
    unfolding map_line_def by (rule split_whitespace_join)
  have "split_str ''-'' (str_join ''-'' [show_hex (unat a), show_hex (unat b)]) = [show_hex (unat a), show_hex (unat b)]"
    by (rule split_str_join) (use show_hex_clean in auto)
  then have r: "split_str ''-'' ?r = [show_hex (unat a), show_hex (unat b)]" by simp
  have d: "drop 5 (map_words a b perms mid name) = name" and l: "length (map_words a b perms mid name) = 5 + length name"
    using assms(3) by (simp_all add: map_words_def)
  have n: "map_words a b perms mid name ! 0 = ?r" "map_words a b perms mid name ! 1 = perms"
    by (simp_all add: map_words_def)
  show ?thesis
    unfolding parse_map_line_def w Let_def d l n r by (simp add: hex unwrap_or_0_def)
qed

lemma map_line_clean:
  assumes "word_ok perms" and "list_all word_ok mid" and "list_all word_ok name"
  shows "CHR 0x0A \<notin> set (map_line a b perms mid name) \<and> \<not> suffix [CHR 0x0D] (map_line a b perms mid name)"
proof -
  let ?ws = "map_words a b perms mid name"
  have "list_all word_ok ?ws"
    using assms show_hex_clean show_hex_not_Nil by (auto simp: map_words_def word_ok_def list_all_iff graph_def)
  moreover have "\<forall>c\<in>set (str_join '' '' ws). graph c \<or> c = CHR 0x20" if "list_all word_ok ws" for ws
    using that by (induction ws rule: induct_list012) (auto simp: word_ok_def list_all_iff)
  ultimately have "\<forall>c\<in>set (str_join '' '' ?ws). graph c \<or> c = CHR 0x20" by blast
  moreover have "\<not> graph (CHR 0x0A)" "\<not> graph (CHR 0x0D)" by (simp_all add: graph_def)
  ultimately show ?thesis unfolding map_line_def
    by (auto simp: suffix_def)
qed

section \<open>Properties\<close>

text \<open>Aligning an address gives the start of its page: a multiple of the page size, not above the
  address and less than a page below it.\<close>

theorem align_to_page_bounds:
  "unat (align_to_page a) mod PAGE_SIZE = 0 \<and> unat (align_to_page a) \<le> unat a
   \<and> unat a < unat (align_to_page a) + PAGE_SIZE \<and> align_to_page (align_to_page a) = align_to_page a"
proof -
  have "unat (align_to_page a) mod PAGE_SIZE = 0" by (simp add: unat_align_to_page minus_mod_eq_mult_div)
  moreover from this have "align_to_page (align_to_page a) = align_to_page a"
    by (simp add: word_unat_eq_iff unat_align_to_page [of "align_to_page a"])
  moreover have "unat a < unat a - unat a mod PAGE_SIZE + PAGE_SIZE"
    using mod_less_divisor [OF PAGE_SIZE_pos, of "unat a"] by linarith
  ultimately show ?thesis by (simp add: unat_align_to_page)
qed

text \<open>C27: A captured worker can be reset: once its memory was captured, whatever the test then wrote,
  after the reset every page that is touched again reads as it did at the capture, for all the
  addresses of the registered regions; the number of faults handled is returned, and pages that
  are not touched stay dropped.\<close>

theorem reset_restores_snapshot:
  assumes "register_worker_with_uffd pid uffd p0 m = Inr m'" and "sm_available m"
    and "parse_memory_maps (pr_maps p0) = Some regions" and "list_all region_ok (filter should_snapshot regions)"
    and "reset_worker pid p1 m' = Inr p2" and "\<forall>a\<in>set as. pr_fill_ok p1 (align_to_page a)"
    and "pr_events p1 = map (Event \<circ> Pagefault) as"
  shows "\<exists>p3. handle_pending_faults pid p2 m' = (Inr (length as), p3) \<and>
     (\<forall>r b. r \<in> set regions \<longrightarrow> should_snapshot r \<longrightarrow> in_region r b \<longrightarrow>
        pr_mem p3 b = (if align_to_page b \<in> align_to_page ` set as then pr_mem p0 b else 0))"
proof -
  let ?rs = "filter should_snapshot regions"
  obtain w where w: "hm_get (sm_workers m') pid = Some w" "sm_available m'" and g: "golden_ok (pr_mem p0) ?rs w"
    using assms(1-4) by (rule register_golden)
  have p2: "p2 = p1\<lparr>pr_mem := mem_drop (map (\<lambda>r. (mr_start r, mr_len r)) ?rs) (pr_mem p1)\<rparr>"
    using assms(5) w g by (auto simp: reset_worker_def golden_ok_def Let_def split: if_splits)
  have "\<forall>a\<in>set as. pr_fill_ok p2 (align_to_page a)" using assms(6) by (simp add: p2)
  from fault_loop_golden [OF g this, of 0] obtain p3 where
    p3: "fault_loop w (map (Event \<circ> Pagefault) as) 0 p2 = (Inr (length as), p3)"
    and m3: "pr_mem p3 = (\<lambda>b. if align_to_page b \<in> align_to_page ` set as then golden_byte (pr_mem p0) ?rs b else pr_mem p2 b)"
    by auto
  have "handle_pending_faults pid p2 m' = (Inr (length as), p3)"
    using w p3 assms(7) by (simp add: handle_pending_faults_def p2)
  moreover have "pr_mem p3 b = (if align_to_page b \<in> align_to_page ` set as then pr_mem p0 b else 0)"
    if "r \<in> set regions" "should_snapshot r" "in_region r b" for r b
  proof -
    have "region_ok r" using that(1,2) assms(4) by (auto simp: list_all_iff)
    then have "list_ex (\<lambda>r. page_in r (align_to_page b)) ?rs"
      using that page_in_align by (auto simp: list_ex_iff)
    moreover have "pr_mem p2 b = 0"
      using that by (auto simp: p2 mem_drop_def list_ex_iff in_region_def word_less_nat_alt)
    ultimately show ?thesis by (simp add: m3 golden_byte_def)
  qed
  ultimately show ?thesis by blast
qed

definition ex_region :: MemoryRegion where
  "ex_region = \<lparr>mr_start = 0x1000, mr_end = 0x2000, mr_len = 0x1000, mr_perms = ''rw-p'', mr_name = []\<rparr>"

definition ex_process :: process where
  "ex_process = \<lparr>pr_maps = Some (map_line 0x1000 0x2000 ''rw-p'' [''0'', ''0'', ''0''] [] @ [CHR 0x0A]), pr_mem = (\<lambda>_. 7), pr_readv = (\<lambda>_ l. Some (unat l)),
     pr_register_ok = (\<lambda>_ _. True), pr_fill_ok = (\<lambda>_. True), pr_pidfd_ok = True, pr_madvise_ok = True,
     pr_events = [Event (Pagefault 0x1234)]\<rparr>"

lemma ex_maps: "parse_memory_maps (pr_maps ex_process) = Some [ex_region]"
proof -
  have "word_ok ''rw-p''" "word_ok ''0''" by (simp_all add: word_ok_def graph_def)
  then have "parse_map_line (map_line 0x1000 0x2000 ''rw-p'' [''0'', ''0'', ''0''] []) = Some ex_region"
    and "CHR 0x0A \<notin> set (map_line 0x1000 0x2000 ''rw-p'' [''0'', ''0'', ''0''] [])"
    and "\<not> suffix [CHR 0x0D] (map_line 0x1000 0x2000 ''rw-p'' [''0'', ''0'', ''0''] [])"
    using parse_map_line_ok [of "''rw-p''" "[''0'', ''0'', ''0'']" "[]" "0x1000" "0x2000"]
      map_line_clean [of "''rw-p''" "[''0'', ''0'', ''0'']" "[]" "0x1000" "0x2000"]
    by (simp_all add: ex_region_def)
  then show ?thesis
    using str_lines_concat [of "[map_line 0x1000 0x2000 ''rw-p'' [''0'', ''0'', ''0''] []]"]
    by (simp add: parse_memory_maps_def ex_process_def List.map_filter_simps)
qed

lemma ex_should_snapshot: "should_snapshot ex_region"
  by code_simp

theorem reset_restores_snapshot_witness:
  "\<exists>m' p2 p3. register_worker_with_uffd 9 5 ex_process (new_manager True) = Inr m'
     \<and> reset_worker 9 (ex_process\<lparr>pr_mem := (\<lambda>_. 99)\<rparr>) m' = Inr p2
     \<and> handle_pending_faults 9 p2 m' = (Inr 1, p3) \<and> pr_mem p3 0x1FFF = 7"
proof -
  let ?p1 = "ex_process\<lparr>pr_mem := (\<lambda>_. 99)\<rparr>"
  have ok: "list_all region_ok (filter should_snapshot [ex_region])"
    by (simp add: ex_should_snapshot) (simp add: region_ok_def ex_region_def PAGE_SIZE_def)
  note maps = ex_maps
  have "\<exists>m'. register_worker_with_uffd 9 5 ex_process (new_manager True) = Inr m'"
    by (simp add: register_worker_with_uffd_def maps ex_should_snapshot new_manager_def Let_def
        capture_region_pages_def) (simp add: ex_process_def)
  then obtain m' where m': "register_worker_with_uffd 9 5 ex_process (new_manager True) = Inr m'" by blast
  have av: "sm_available (new_manager True)" by (simp add: new_manager_def)
  obtain w where "hm_get (sm_workers m') 9 = Some w" "sm_available m'"
    by (rule register_golden [OF m' av maps ok])
  then obtain p2 where p2: "reset_worker 9 ?p1 m' = Inr p2"
    by (simp add: reset_worker_def ex_process_def Let_def)
  have f: "\<forall>a\<in>set [0x1234]. pr_fill_ok ?p1 (align_to_page a)" "pr_events ?p1 = map (Event \<circ> Pagefault) [0x1234]"
    by (simp_all add: ex_process_def)
  obtain p3 where p3: "handle_pending_faults 9 p2 m' = (Inr (length [0x1234 :: addr]), p3)"
    and mem: "\<forall>r b. r \<in> set [ex_region] \<longrightarrow> should_snapshot r \<longrightarrow> in_region r b \<longrightarrow>
        pr_mem p3 b = (if align_to_page b \<in> align_to_page ` set [0x1234] then pr_mem ex_process b else 0)"
    using reset_restores_snapshot [OF m' av maps ok p2 f] by blast
  have "in_region ex_region 0x1FFF" by (simp add: in_region_def ex_region_def)
  moreover have "align_to_page 0x1FFF = align_to_page 0x1234" by (simp add: align_to_page_def PAGE_SIZE_def)
  ultimately have "pr_mem p3 0x1FFF = 7" using mem ex_should_snapshot by (simp add: ex_process_def)
  with m' p2 p3 show ?thesis by auto
qed



text \<open>A descriptor sent over a socket arrives with the sender's process id.\<close>

theorem fd_passing_roundtrip:
  "recv_fd (Some (send_fd pid fd)) = Inr (pid, fd)"
  by (simp add: recv_fd_def send_fd_def)

end
