(* ===== verification/Loader.thy ===== *)
theory Loader
  imports Rust_Path Protocol
begin

text \<open>
  The bytecode loader (\<^verbatim>\<open>loader.rs\<close>): module names and cache paths, the compiler with its
  persistent cache, the registry of compiled modules, the write-once globals, and the loading of
  bytecode into the interpreter.

  The file system is explicit (files with their bytes and modification times). Running a program
  is a parameter: it takes the program, its arguments and the world and returns the exit status
  and standard output, or fails to start, and the changed world. Of the Python C API the code relies on three
  functions, which are parameters too; the references the code owns are tracked. Messages on
  stderr are left out.
\<close>

section \<open>Registry\<close>

definition PYC_HEADER_SIZE :: nat where "PYC_HEADER_SIZE = 16"

record BytecodeEntry =
  be_name :: string
  be_source_path :: path
  be_bytecode :: "u8 list"
  be_is_package :: bool

record ModuleRegistry =
  reg_entries :: "(string, BytecodeEntry) hashmap"
  reg_project_root :: path

definition new_registry :: "path \<Rightarrow> ModuleRegistry" where
  "new_registry project_root = \<lparr>reg_entries = [], reg_project_root = project_root\<rparr>"

definition registry_insert :: "BytecodeEntry \<Rightarrow> ModuleRegistry \<Rightarrow> ModuleRegistry" where
  "registry_insert e r = r\<lparr>reg_entries := hm_insert (be_name e) e (reg_entries r)\<rparr>"

definition get_bytecode :: "ModuleRegistry \<Rightarrow> string \<Rightarrow> u8 list option" where
  "get_bytecode r name = map_option be_bytecode (hm_get (reg_entries r) name)"

definition get_source_path :: "ModuleRegistry \<Rightarrow> string \<Rightarrow> path option" where
  "get_source_path r name = map_option be_source_path (hm_get (reg_entries r) name)"

definition is_package :: "ModuleRegistry \<Rightarrow> string \<Rightarrow> bool option" where
  "is_package r name = map_option be_is_package (hm_get (reg_entries r) name)"

definition registry_len :: "ModuleRegistry \<Rightarrow> nat" where
  "registry_len r = length (reg_entries r)"

definition registry_is_empty :: "ModuleRegistry \<Rightarrow> bool" where
  "registry_is_empty r \<longleftrightarrow> reg_entries r = []"

section \<open>The world of the compiler\<close>

record lfile =
  lf_data :: "u8 list"
  lf_mtime :: nat

record lworld =
  lw_files :: "path \<Rightarrow> lfile option"
  lw_mkdir_ok :: "path \<Rightarrow> bool"
  lw_pyo3_python :: "string option"

text \<open>The output of a program that ran: its success and its standard output.\<close>

type_synonym run = "string \<Rightarrow> string list \<Rightarrow> lworld \<Rightarrow> (bool \<times> string) option \<times> lworld"

datatype loader_error =
  MkdirFailed | PythonNotFound | SpawnFailed | MagicFailed | MagicTooShort | FileError | PycTooShort | CompilationFailed

text \<open>The globals that are set once.\<close>

record lglobals =
  g_registry :: "ModuleRegistry option"
  g_python_exe :: "path option"
  g_magic :: "u8 list option"

definition once_set :: "'a \<Rightarrow> 'a option \<Rightarrow> 'a option" where
  "once_set v cell = (case cell of None \<Rightarrow> Some v | Some old \<Rightarrow> Some old)"

section \<open>BytecodeCompiler\<close>

record BytecodeCompiler =
  bc_cache_dir :: path
  bc_project_root :: path
  bc_python_exe :: path
  bc_expected_magic :: "u8 list option"

fun which_first :: "run \<Rightarrow> string list \<Rightarrow> lworld \<Rightarrow> path option \<times> lworld" where
  "which_first run [] w = (None, w)"
| "which_first run (name # names) w =
     (case run ''which'' [name] w of
        (Some (True, stdout), w') \<Rightarrow> (Some (path_of (trim_str stdout)), w')
      | (_, w') \<Rightarrow> which_first run names w')"

definition find_python_impl :: "run \<Rightarrow> lworld \<Rightarrow> (loader_error, path) result \<times> lworld" where
  "find_python_impl run w =
     (case lw_pyo3_python w of
        Some p \<Rightarrow> (Inr (path_of p), w)
      | None \<Rightarrow> (let (found, w') = which_first run [''python3'', ''python''] w in (ok_or PythonNotFound found, w')))"

definition find_python_cached ::
  "run \<Rightarrow> lglobals \<Rightarrow> lworld \<Rightarrow> (loader_error, path) result \<times> lglobals \<times> lworld" where
  "find_python_cached run g w =
     (case g_python_exe g of
        Some cached \<Rightarrow> (Inr cached, g, w)
      | None \<Rightarrow>
        (case find_python_impl run w of
           (Inl e, w') \<Rightarrow> (Inl e, g, w')
         | (Inr p, w') \<Rightarrow> (Inr p, g\<lparr>g_python_exe := once_set p (g_python_exe g)\<rparr>, w')))"

definition magic_script :: string where
  "magic_script = ''import importlib.util; import sys; sys.stdout.buffer.write(importlib.util.MAGIC_NUMBER)''"

definition bytes_of :: "string \<Rightarrow> u8 list" where
  "bytes_of s = map (\<lambda>c. of_nat (of_char c)) s"

definition get_python_magic_impl :: "run \<Rightarrow> path \<Rightarrow> lworld \<Rightarrow> (loader_error, u8 list) result \<times> lworld" where
  "get_python_magic_impl run python_exe w =
     (case run (path_text python_exe) [''-c'', magic_script] w of
        (None, w') \<Rightarrow> (Inl SpawnFailed, w')
      | (Some (success, stdout), w') \<Rightarrow>
          (if \<not> success then Inl MagicFailed
           else if length stdout < 4 then Inl MagicTooShort
           else Inr (take 4 (bytes_of stdout)), w'))"

definition get_python_magic_cached ::
  "run \<Rightarrow> path \<Rightarrow> lglobals \<Rightarrow> lworld \<Rightarrow> (loader_error, u8 list) result \<times> lglobals \<times> lworld" where
  "get_python_magic_cached run python_exe g w =
     (case g_magic g of
        Some cached \<Rightarrow> (Inr cached, g, w)
      | None \<Rightarrow>
        (case get_python_magic_impl run python_exe w of
           (Inl e, w') \<Rightarrow> (Inl e, g, w')
         | (Inr magic, w') \<Rightarrow> (Inr magic, g\<lparr>g_magic := once_set magic (g_magic g)\<rparr>, w')))"

definition new_compiler ::
  "run \<Rightarrow> path \<Rightarrow> lglobals \<Rightarrow> lworld \<Rightarrow> (loader_error, BytecodeCompiler) result \<times> lglobals \<times> lworld" where
  "new_compiler run project_root g w =
     (let cache_dir = join (join project_root [Normal ''.tach'']) [Normal ''cache''] in
      if \<not> lw_mkdir_ok w cache_dir then (Inl MkdirFailed, g, w)
      else case find_python_cached run g w of
             (Inl e, g1, w1) \<Rightarrow> (Inl e, g1, w1)
           | (Inr python_exe, g1, w1) \<Rightarrow>
             (case get_python_magic_cached run python_exe g1 w1 of
                (Inl e, g2, w2) \<Rightarrow> (Inl e, g2, w2)
              | (Inr magic, g2, w2) \<Rightarrow>
                (Inr \<lparr>bc_cache_dir = cache_dir, bc_project_root = project_root, bc_python_exe = python_exe,
                      bc_expected_magic = Some magic\<rparr>, g2, w2)))"

definition relative_to_root :: "BytecodeCompiler \<Rightarrow> path \<Rightarrow> path" where
  "relative_to_root c p = (case strip_prefix p (bc_project_root c) of Some q \<Rightarrow> q | None \<Rightarrow> p)"

definition path_to_module_name :: "BytecodeCompiler \<Rightarrow> path \<Rightarrow> string" where
  "path_to_module_name c p =
     (let name = replace_str (path_text (with_extension (relative_to_root c p) [])) ''/'' ''.'' in
      if ends_with name ''.__init__'' then trim_end_matches ''.__init__'' name else name)"

definition cache_path :: "BytecodeCompiler \<Rightarrow> path \<Rightarrow> path" where
  "cache_path c source =
     join (bc_cache_dir c) (path_of (replace_str (path_text (relative_to_root c source)) ''/'' ''_'' @ ''.pyc''))"

definition is_cache_stale :: "lworld \<Rightarrow> path \<Rightarrow> path \<Rightarrow> bool" where
  "is_cache_stale w source cache =
     (case lw_files w cache of
        None \<Rightarrow> True
      | Some cf \<Rightarrow>
        (let source_mtime = (case lw_files w source of None \<Rightarrow> 0 | Some f \<Rightarrow> lf_mtime f) in
         source_mtime > lf_mtime cf))"

definition validate_magic :: "BytecodeCompiler \<Rightarrow> lworld \<Rightarrow> path \<Rightarrow> (loader_error, bool) result" where
  "validate_magic c w pyc_path =
     (case lw_files w pyc_path of
        None \<Rightarrow> Inl FileError
      | Some f \<Rightarrow>
          if length (lf_data f) < 4 then Inl FileError
          else case bc_expected_magic c of
                 Some expected \<Rightarrow> Inr (take 4 (lf_data f) = expected)
               | None \<Rightarrow> Inr True)"

definition compile_script :: "path \<Rightarrow> path \<Rightarrow> string" where
  "compile_script source cache =
     ''import py_compile; py_compile.compile('' @ [CHR 0x27] @ path_text source @ [CHR 0x27] @ '', '' @
     [CHR 0x27] @ path_text cache @ [CHR 0x27] @ '', doraise=True)''"

definition compile_to_cache ::
  "run \<Rightarrow> BytecodeCompiler \<Rightarrow> path \<Rightarrow> path \<Rightarrow> lworld \<Rightarrow> (loader_error, unit) result \<times> lworld" where
  "compile_to_cache run c source cache w =
     (if \<not> (case parent cache of None \<Rightarrow> True | Some d \<Rightarrow> lw_mkdir_ok w d) then (Inl MkdirFailed, w)
      else case run (path_text (bc_python_exe c)) [''-c'', compile_script source cache] w of
             (None, w') \<Rightarrow> (Inl SpawnFailed, w')
           | (Some (success, _), w') \<Rightarrow> (if \<not> success then Inl CompilationFailed else Inr (), w'))"

definition read_and_strip_header :: "lworld \<Rightarrow> path \<Rightarrow> (loader_error, u8 list) result" where
  "read_and_strip_header w pyc_path =
     (case lw_files w pyc_path of
        None \<Rightarrow> Inl FileError
      | Some f \<Rightarrow>
          if length (lf_data f) < PYC_HEADER_SIZE then Inl PycTooShort
          else Inr (drop PYC_HEADER_SIZE (lf_data f)))"

definition needs_compile :: "BytecodeCompiler \<Rightarrow> lworld \<Rightarrow> path \<Rightarrow> bool" where
  "needs_compile c w source =
     (if is_cache_stale w source (cache_path c source) then True
      else case validate_magic c w (cache_path c source) of
             Inr True \<Rightarrow> False | Inr False \<Rightarrow> True | Inl _ \<Rightarrow> True)"

definition compile ::
  "run \<Rightarrow> BytecodeCompiler \<Rightarrow> path \<Rightarrow> lworld \<Rightarrow> (loader_error, u8 list) result \<times> lworld" where
  "compile run c source w =
     (let cache = cache_path c source in
      if needs_compile c w source then
        (case compile_to_cache run c source cache w of
           (Inl e, w') \<Rightarrow> (Inl e, w')
         | (Inr (), w') \<Rightarrow> (read_and_strip_header w' cache, w'))
      else (read_and_strip_header w cache, w))"

text \<open>The batch: files that are not Python are skipped, failures are logged and skipped.\<close>

fun compile_batch ::
  "run \<Rightarrow> BytecodeCompiler \<Rightarrow> path list \<Rightarrow> ModuleRegistry \<Rightarrow> lworld \<Rightarrow> nat \<times> ModuleRegistry \<times> lworld"
where
  "compile_batch run c [] r w = (0, r, w)"
| "compile_batch run c (file # files) r w =
     (if extension file \<noteq> Some ''py'' then compile_batch run c files r w
      else case compile run c file w of
             (Inr bytecode, w') \<Rightarrow>
               (let r' = registry_insert \<lparr>be_name = path_to_module_name c file, be_source_path = file,
                           be_bytecode = bytecode, be_is_package = (file_name file = Some ''__init__.py'')\<rparr> r;
                    (n, r'', w'') = compile_batch run c files r' w'
                in (n + 1, r'', w''))
           | (Inl _, w') \<Rightarrow> compile_batch run c files r w')"

section \<open>The global registry\<close>

definition init_registry :: "path \<Rightarrow> lglobals \<Rightarrow> ModuleRegistry \<times> lglobals" where
  "init_registry project_root g =
     (case g_registry g of
        Some r \<Rightarrow> (r, g)
      | None \<Rightarrow> (new_registry project_root, g\<lparr>g_registry := Some (new_registry project_root)\<rparr>))"

definition get_registry :: "lglobals \<Rightarrow> ModuleRegistry option" where
  "get_registry g = g_registry g"

definition get_module :: "lglobals \<Rightarrow> string \<Rightarrow> u8 list option" where
  "get_module g name = Option.bind (g_registry g) (\<lambda>r. get_bytecode r name)"

definition get_module_path :: "lglobals \<Rightarrow> string \<Rightarrow> string option" where
  "get_module_path g name = map_option path_text (Option.bind (g_registry g) (\<lambda>r. get_source_path r name))"

definition is_module_package :: "lglobals \<Rightarrow> string \<Rightarrow> bool option" where
  "is_module_package g name = Option.bind (g_registry g) (\<lambda>r. is_package r name)"

section \<open>Loading a module\<close>

text \<open>The references the code owns while it loads, and the modules of the interpreter with their
  attributes.\<close>

datatype pyref = RCode | RName | RPath | RModule

datatype pyval = PyStr string | PyStrs "string list"

type_synonym pymodules = "(string, (string, pyval) hashmap) hashmap"

datatype py_error = ValueErr string | Raised

record capi =
  ca_marshal_ok :: "u8 list \<Rightarrow> bool"
  ca_unicode_ok :: "string \<Rightarrow> bool"
  ca_exec :: "string \<Rightarrow> string \<Rightarrow> u8 list \<Rightarrow> pymodules \<Rightarrow> pymodules option"
  ca_list_ok :: "string list \<Rightarrow> bool"

definition set_attr :: "string \<Rightarrow> string \<Rightarrow> pyval \<Rightarrow> pymodules \<Rightarrow> pymodules" where
  "set_attr name attr v ms =
     hm_insert name (hm_insert attr v (case hm_get ms name of None \<Rightarrow> [] | Some as \<Rightarrow> as)) ms"

definition parent_package :: "string \<Rightarrow> string" where
  "parent_package name = (case rsplit_dot name of None \<Rightarrow> [] | Some (p, _) \<Rightarrow> p)"

definition patch_module_namespace ::
  "capi \<Rightarrow> lglobals \<Rightarrow> string \<Rightarrow> string \<Rightarrow> pymodules \<Rightarrow> (py_error, unit) result \<times> pymodules" where
  "patch_module_namespace api g name source_path ms =
     (let ms1 = (if ca_unicode_ok api source_path then set_attr name ''__file__'' (PyStr source_path) ms else ms);
          package_name = parent_package name;
          ms2 = (if ca_unicode_ok api package_name then set_attr name ''__package__'' (PyStr package_name) ms1 else ms1);
          is_pkg = (ends_with source_path ''__init__.py'' \<or> is_module_package g name = Some True)
      in if is_pkg then
           (let parent_dir = (case parent (path_of source_path) of None \<Rightarrow> [] | Some d \<Rightarrow> path_text d) in
            if ca_list_ok api [parent_dir]
            then (Inr (), set_attr name ''__path__'' (PyStrs [parent_dir]) ms2)
            else (Inl Raised, ms2))
         else (Inr (), ms2))"

text \<open>The result, the references still owned, and the modules.\<close>

definition load_module ::
  "capi \<Rightarrow> lglobals \<Rightarrow> string \<Rightarrow> string \<Rightarrow> u8 list \<Rightarrow> pymodules
     \<Rightarrow> (py_error, bool) result \<times> pyref list \<times> pymodules" where
  "load_module api g name source_path bytecode ms =
     (if bytecode = [] then (Inl (ValueErr ''Bytecode is empty''), [], ms)
      else if \<not> ca_marshal_ok api bytecode then (Inl Raised, [], ms)
      else if CHR 0x00 \<in> set name then (Inl (ValueErr ''Invalid module name''), [RCode], ms)
      else if CHR 0x00 \<in> set source_path then (Inl (ValueErr ''Invalid source path''), [RCode], ms)
      else if \<not> ca_unicode_ok api name then (Inl Raised, remove1 RCode [RCode], ms)
      else if \<not> ca_unicode_ok api source_path then (Inl Raised, remove1 RName (remove1 RCode [RCode, RName]), ms)
      else case ca_exec api name source_path bytecode ms of
             None \<Rightarrow> (Inl Raised, remove1 RPath (remove1 RName (remove1 RCode [RCode, RName, RPath])), ms)
           | Some ms1 \<Rightarrow>
             (let held = remove1 RPath (remove1 RName (remove1 RCode [RCode, RName, RPath, RModule])) in
              case patch_module_namespace api g name source_path ms1 of
                (Inl e, ms2) \<Rightarrow> (Inl e, held, ms2)
              | (Inr (), ms2) \<Rightarrow> (Inr True, remove1 RModule held, ms2)))"

section \<open>Values that are looked up once\<close>

text \<open>The contract of the cached lookups: a filled cell answers without touching the world, and a
  successful lookup fills the cell with its answer.\<close>

locale write_once =
  fixes cell :: "'g \<Rightarrow> 'a option"
    and fetch :: "'g \<Rightarrow> 'w \<Rightarrow> ('e, 'a) result \<times> 'g \<times> 'w"
  assumes hit: "cell g = Some v \<Longrightarrow> fetch g w = (Inr v, g, w)"
    and miss: "cell g = None \<Longrightarrow> fetch g w = (Inr v, g', w') \<Longrightarrow> cell g' = Some v"
    and failed: "fetch g w = (Inl e, g', w') \<Longrightarrow> g' = g"
begin

lemma fetched: "fetch g w = (Inr v, g', w') \<Longrightarrow> cell g' = Some v"
proof (cases "cell g")
  case (Some a)
  assume "fetch g w = (Inr v, g', w')"
  with hit [OF Some, of w] Some show ?thesis by simp
qed (rule miss)

lemma fetch_again: "fetch g w = (Inr v, g', w') \<Longrightarrow> fetch g' w'' = (Inr v, g', w'')"
  by (rule hit) (rule fetched)

end

interpretation exe: write_once g_python_exe "find_python_cached run" for run
  by unfold_locales
     (auto simp: find_python_cached_def once_set_def split: option.splits prod.splits sum.splits)

interpretation mag: write_once g_magic "get_python_magic_cached run python_exe" for run python_exe
  by unfold_locales
     (auto simp: get_python_magic_cached_def once_set_def split: option.splits prod.splits sum.splits)

section \<open>Compilation and the cache\<close>

text \<open>A path that can stand between quotes in the script given to Python: it has no quote, backslash,
  line feed or NUL.\<close>

definition script_safe :: "path \<Rightarrow> bool" where
  "script_safe p \<longleftrightarrow> path_ok p \<and> list_all (\<lambda>c. c \<notin> set (path_text p)) [CHR 0x27, CHR 0x5C, CHR 0x0A, CHR 0x00]"

text \<open>What \<^verbatim>\<open>py_compile\<close> does: it fails on a source that does not compile, and otherwise writes the
  magic number, twelve more bytes of header and the code, not dated before the source.\<close>

definition py_compile_ok :: "run \<Rightarrow> string \<Rightarrow> u8 list \<Rightarrow> (u8 list \<Rightarrow> u8 list option) \<Rightarrow> bool" where
  "py_compile_ok run exe magic code \<longleftrightarrow>
     (\<forall>source cache w f. lw_files w source = Some f \<and> script_safe source \<and> script_safe cache \<longrightarrow>
        (case code (lf_data f) of
           None \<Rightarrow> \<exists>out. run exe [''-c'', compile_script source cache] w = (Some (False, out), w)
         | Some bc \<Rightarrow> \<exists>out hdr t. length hdr = 12 \<and> lf_mtime f \<le> t \<and>
             run exe [''-c'', compile_script source cache] w = (Some (True, out),
               w\<lparr>lw_files := (lw_files w)(cache \<mapsto> \<lparr>lf_data = magic @ hdr @ bc, lf_mtime = t\<rparr>)\<rparr>)))"

text \<open>The cache can be trusted for the sources of a project: a file that is not older than its source
  and has the right magic number holds the code of the source.\<close>

definition cache_ok :: "BytecodeCompiler \<Rightarrow> path set \<Rightarrow> u8 list \<Rightarrow> (u8 list \<Rightarrow> u8 list option) \<Rightarrow> lworld \<Rightarrow> bool" where
  "cache_ok c S magic code w \<longleftrightarrow>
     (\<forall>source\<in>S. \<forall>f cf. lw_files w source = Some f \<and> lw_files w (cache_path c source) = Some cf \<and>
        lf_mtime f \<le> lf_mtime cf \<and> take 4 (lf_data cf) = magic \<longrightarrow>
        16 \<le> length (lf_data cf) \<and> code (lf_data f) = Some (drop 16 (lf_data cf)))"

text \<open>A project whose sources have cache files of their own.\<close>

definition project_ok :: "BytecodeCompiler \<Rightarrow> path set \<Rightarrow> bool" where
  "project_ok c S \<longleftrightarrow> inj_on (cache_path c) S \<and> cache_path c ` S \<inter> S = {} \<and>
     (\<forall>p\<in>S. script_safe p \<and> script_safe (cache_path c p))"

lemma read_header: "lw_files w p = Some f \<Longrightarrow> 16 \<le> length (lf_data f) \<Longrightarrow> read_and_strip_header w p = Inr (drop 16 (lf_data f))"
  by (simp add: read_and_strip_header_def PYC_HEADER_SIZE_def)

lemma needs_compile_iff:
  assumes "bc_expected_magic c = Some magic" and "length magic = 4" and "lw_files w source = Some f"
  shows "needs_compile c w source \<longleftrightarrow>
     \<not> (\<exists>cf. lw_files w (cache_path c source) = Some cf \<and> lf_mtime f \<le> lf_mtime cf \<and> take 4 (lf_data cf) = magic)"
  using assms
  by (auto simp: needs_compile_def is_cache_stale_def validate_magic_def split: option.splits if_splits bool.splits)

lemma compile_hit:
  assumes "bc_expected_magic c = Some magic" and "length magic = 4" and "lw_files w source = Some f"
    and "lw_files w (cache_path c source) = Some cf" and "lf_mtime f \<le> lf_mtime cf"
    and "take 4 (lf_data cf) = magic" and "16 \<le> length (lf_data cf)"
  shows "compile run c source w = (Inr (drop 16 (lf_data cf)), w)"
  using assms needs_compile_iff [OF assms(1-3)] by (simp add: compile_def read_header)

lemma compile_runs:
  assumes run: "py_compile_ok run (path_text (bc_python_exe c)) magic code" and "length magic = 4"
    and need: "needs_compile c w source" and safe: "script_safe source" "script_safe (cache_path c source)"
    and f: "lw_files w source = Some f" and dirs: "\<forall>d. lw_mkdir_ok w d"
  obtains (fails) "code (lf_data f) = None" "compile run c source w = (Inl CompilationFailed, w)"
  | (works) bc hdr t where "code (lf_data f) = Some bc" "length hdr = 12" "lf_mtime f \<le> t"
      "compile run c source w =
        (Inr bc, w\<lparr>lw_files := (lw_files w)(cache_path c source \<mapsto> \<lparr>lf_data = magic @ hdr @ bc, lf_mtime = t\<rparr>)\<rparr>)"
proof -
  let ?cache = "cache_path c source"
  have mk: "case parent ?cache of None \<Rightarrow> True | Some d \<Rightarrow> lw_mkdir_ok w d"
    using dirs by (simp split: option.split)
  have py: "case code (lf_data f) of
           None \<Rightarrow> \<exists>out. run (path_text (bc_python_exe c)) [''-c'', compile_script source ?cache] w = (Some (False, out), w)
         | Some bc \<Rightarrow> \<exists>out hdr t. length hdr = 12 \<and> lf_mtime f \<le> t \<and>
             run (path_text (bc_python_exe c)) [''-c'', compile_script source ?cache] w = (Some (True, out),
               w\<lparr>lw_files := (lw_files w)(?cache \<mapsto> \<lparr>lf_data = magic @ hdr @ bc, lf_mtime = t\<rparr>)\<rparr>)"
    using run safe f unfolding py_compile_ok_def by blast
  show ?thesis
  proof (cases "code (lf_data f)")
    case None
    with py need mk show ?thesis by (intro fails) (auto simp: compile_def compile_to_cache_def Let_def)
  next
    case (Some bc)
    with py obtain out hdr t where hdr: "length hdr = 12" "lf_mtime f \<le> t" and
      r: "run (path_text (bc_python_exe c)) [''-c'', compile_script source ?cache] w = (Some (True, out),
               w\<lparr>lw_files := (lw_files w)(?cache \<mapsto> \<lparr>lf_data = magic @ hdr @ bc, lf_mtime = t\<rparr>)\<rparr>)"
      by auto
    then show ?thesis using need mk hdr assms(2)
      by (intro works [OF Some hdr])
         (simp add: compile_def compile_to_cache_def read_and_strip_header_def PYC_HEADER_SIZE_def Let_def split: unit.split)
  qed
qed

lemma compile_ok:
  assumes run: "py_compile_ok run (path_text (bc_python_exe c)) magic code"
    and magic: "bc_expected_magic c = Some magic" "length magic = 4"
    and proj: "project_ok c S" and cache: "cache_ok c S magic code w"
    and source: "source \<in> S" "lw_files w source = Some f" and dirs: "\<forall>d. lw_mkdir_ok w d"
  obtains w' where "compile run c source w = (ok_or CompilationFailed (code (lf_data f)), w')"
    and "cache_ok c S magic code w'" and "\<forall>p\<in>S. lw_files w' p = lw_files w p" and "lw_mkdir_ok w' = lw_mkdir_ok w"
proof (cases "needs_compile c w source")
  case False
  then obtain cf where cf: "lw_files w (cache_path c source) = Some cf" "lf_mtime f \<le> lf_mtime cf"
      "take 4 (lf_data cf) = magic"
    using needs_compile_iff [OF magic source(2)] by auto
  then have "16 \<le> length (lf_data cf)" "code (lf_data f) = Some (drop 16 (lf_data cf))"
    using cache source by (auto simp: cache_ok_def)
  with compile_hit [OF magic source(2) cf] show ?thesis using cache by (intro that) auto
next
  case True
  let ?cache = "cache_path c source"
  have safe: "script_safe source" "script_safe ?cache" using proj source(1) by (auto simp: project_ok_def)
  from run magic(2) True safe source(2) dirs show ?thesis
  proof (cases rule: compile_runs)
    case fails
    then show ?thesis using cache by (intro that [of w]) auto
  next
    case (works bc hdr t)
    let ?w = "w\<lparr>lw_files := (lw_files w)(?cache \<mapsto> \<lparr>lf_data = magic @ hdr @ bc, lf_mtime = t\<rparr>)\<rparr>"
    have same: "\<forall>p\<in>S. lw_files ?w p = lw_files w p"
      using proj source(1) by (auto simp: project_ok_def)
    have "cache_ok c S magic code ?w"
      unfolding cache_ok_def
    proof (intro ballI allI impI)
      fix p fp cf assume p: "p \<in> S" and a: "lw_files ?w p = Some fp \<and> lw_files ?w (cache_path c p) = Some cf \<and>
        lf_mtime fp \<le> lf_mtime cf \<and> take 4 (lf_data cf) = magic"
      show "16 \<le> length (lf_data cf) \<and> code (lf_data fp) = Some (drop 16 (lf_data cf))"
      proof (cases "p = source")
        case True
        with a same source p works magic(2) show ?thesis by auto
      next
        case False
        then have "cache_path c p \<noteq> ?cache" using proj p source(1) by (auto simp: project_ok_def dest: inj_onD)
        with a same p cache show ?thesis by (auto simp: cache_ok_def)
      qed
    qed
    with works same show ?thesis by (intro that [of ?w]) auto
  qed
qed

text \<open>The entry of a file in the registry, from the code its source compiles to.\<close>

definition entry_of :: "BytecodeCompiler \<Rightarrow> (u8 list \<Rightarrow> u8 list option) \<Rightarrow> lworld \<Rightarrow> path \<Rightarrow> BytecodeEntry option" where
  "entry_of c code w p =
     (if extension p \<noteq> Some ''py'' then None
      else Option.bind (lw_files w p) (\<lambda>f. map_option (\<lambda>bc.
        \<lparr>be_name = path_to_module_name c p, be_source_path = p, be_bytecode = bc,
         be_is_package = (file_name p = Some ''__init__.py'')\<rparr>) (code (lf_data f))))"

lemma entry_of_cong: "lw_files w' p = lw_files w p \<Longrightarrow> entry_of c code w' p = entry_of c code w p"
  by (simp add: entry_of_def)

lemma compile_batch_entries:
  assumes run: "py_compile_ok run (path_text (bc_python_exe c)) magic code"
    and magic: "bc_expected_magic c = Some magic" "length magic = 4" and proj: "project_ok c S"
  shows "set files \<subseteq> S \<Longrightarrow> cache_ok c S magic code w \<Longrightarrow> \<forall>p\<in>set files. lw_files w p \<noteq> None \<Longrightarrow>
     \<forall>d. lw_mkdir_ok w d \<Longrightarrow>
     \<exists>w'. compile_batch run c files r w =
       (length (List.map_filter (entry_of c code w) files),
        fold registry_insert (List.map_filter (entry_of c code w) files) r, w')"
proof (induction files arbitrary: r w)
  case (Cons p ps)
  show ?case
  proof (cases "extension p = Some ''py''")
    case False
    with Cons.IH [of w r] Cons.prems show ?thesis by (simp add: entry_of_def map_filter_simps)
  next
    case py: True
    obtain f where f: "lw_files w p = Some f" using Cons.prems(3) by auto
    have "p \<in> S" using Cons.prems(1) by simp
    then obtain w1 where c: "compile run c p w = (ok_or CompilationFailed (code (lf_data f)), w1)"
      and w1: "cache_ok c S magic code w1" "\<forall>q\<in>S. lw_files w1 q = lw_files w q" "lw_mkdir_ok w1 = lw_mkdir_ok w"
      by (rule compile_ok [OF run magic proj Cons.prems(2) _ f Cons.prems(4)])
    have same: "List.map_filter (entry_of c code w1) ps = List.map_filter (entry_of c code w) ps"
      using w1(2) Cons.prems(1) by (intro map_filter_same) (auto intro: entry_of_cong)
    have IH: "\<exists>w'. compile_batch run c ps r' w1 =
       (length (List.map_filter (entry_of c code w) ps), fold registry_insert (List.map_filter (entry_of c code w) ps) r', w')" for r'
    proof -
      have "\<forall>q\<in>set ps. lw_files w1 q \<noteq> None" using w1(2) Cons.prems(1,3) by auto
      with Cons.IH [of w1 r'] w1 Cons.prems(1,4) same show ?thesis by simp
    qed
    show ?thesis
    proof (cases "code (lf_data f)")
      case None
      then have "entry_of c code w p = None" using f by (simp add: entry_of_def)
      with None c IH [of r] py show ?thesis by (simp add: map_filter_simps)
    next
      case (Some bc)
      define e where "e = \<lparr>be_name = path_to_module_name c p, be_source_path = p, be_bytecode = bc,
         be_is_package = (file_name p = Some ''__init__.py'')\<rparr>"
      obtain w' where "compile_batch run c ps (registry_insert e r) w1 =
          (length (List.map_filter (entry_of c code w) ps),
           fold registry_insert (List.map_filter (entry_of c code w) ps) (registry_insert e r), w')"
        using IH by blast
      moreover have "entry_of c code w p = Some e" using py f Some by (simp add: entry_of_def e_def)
      ultimately show ?thesis using c py Some
        by (simp add: map_filter_simps Let_def e_def [symmetric])
    qed
  qed
qed (simp add: map_filter_simps)

lemma get_fold_registry:
  "hm_get (reg_entries (fold registry_insert es r)) name =
     (case filter (\<lambda>e. be_name e = name) es of [] \<Rightarrow> hm_get (reg_entries r) name | fs \<Rightarrow> Some (last fs))"
  by (induction es arbitrary: r) (auto simp: registry_insert_def hm_get_insert split: list.splits)

text \<open>A file of the project whose module no other compiled file of the batch has is found under
  its name.\<close>

lemma get_fold_registry_unique:
  assumes "e \<in> set es" and "\<forall>e'\<in>set es. be_name e' = be_name e \<longrightarrow> e' = e"
  shows "hm_get (reg_entries (fold registry_insert es r)) (be_name e) = Some e"
proof -
  let ?fs = "filter (\<lambda>e'. be_name e' = be_name e) es"
  have ne: "?fs \<noteq> []" using assms(1) by (auto simp: filter_empty_conv)
  then have "last ?fs \<in> set ?fs" by (rule last_in_set)
  with assms(2) have "last ?fs = e" by auto
  with ne show ?thesis by (cases ?fs) (auto simp: get_fold_registry)
qed

lemma module_name_entry: "entry_of c code w p = Some e \<Longrightarrow> be_name e = path_to_module_name c p"
  by (auto simp: entry_of_def bind_eq_Some_conv split: if_splits)


text \<open>A Python that compiles by copying: the concrete programs of the witnesses.\<close>

definition copy_code :: "u8 list \<Rightarrow> u8 list option" where
  "copy_code d = (if d = [] then None else Some d)"

definition copy_python :: run where
  "copy_python exe args w =
     (case args of
        [_, script] \<Rightarrow>
          (case split_str [CHR 0x27] script of
             [_, source, _, cache, _] \<Rightarrow>
               (case Option.bind (lw_files w (path_of source)) (\<lambda>f. map_option (Pair f) (copy_code (lf_data f))) of
                  None \<Rightarrow> (Some (False, []), w)
                | Some (f, bc) \<Rightarrow> (Some (True, []), w\<lparr>lw_files := (lw_files w)(path_of cache \<mapsto>
                    \<lparr>lf_data = [1, 2, 3, 4] @ replicate 12 0 @ bc, lf_mtime = lf_mtime f\<rparr>)\<rparr>))
           | _ \<Rightarrow> (None, w))
      | _ \<Rightarrow> (None, w))"

lemma split_compile_script:
  assumes "script_safe source" and "script_safe cache"
  shows "split_str [CHR 0x27] (compile_script source cache) =
    [''import py_compile; py_compile.compile('', path_text source, '', '', path_text cache, '', doraise=True)'']"
proof -
  let ?ps = "[''import py_compile; py_compile.compile('', path_text source, '', '', path_text cache, '', doraise=True)'']"
  have "compile_script source cache = str_join [CHR 0x27] ?ps" by (simp add: compile_script_def)
  moreover have "split_str [CHR 0x27] (str_join [CHR 0x27] ?ps) = ?ps"
    using assms by (intro split_str_join) (simp_all add: script_safe_def)
  ultimately show ?thesis by simp
qed

lemma copy_python_ok: "py_compile_ok copy_python exe [1, 2, 3, 4] copy_code"
proof -
  have "path_of (path_text p) = p" if "script_safe p" for p
    using that by (simp add: script_safe_def path_of_path_text)
  then show ?thesis
    unfolding py_compile_ok_def
    by (auto simp: copy_python_def split_compile_script split: option.split intro!: exI [of _ "replicate 12 0"])
qed

definition example_compiler :: BytecodeCompiler where
  "example_compiler = \<lparr>bc_cache_dir = [RootDir, Normal ''p'', Normal ''.tach'', Normal ''cache''],
     bc_project_root = [RootDir, Normal ''p''], bc_python_exe = [Normal ''python3''],
     bc_expected_magic = Some [1, 2, 3, 4]\<rparr>"

definition example_files :: "(path \<times> lfile) list" where
  "example_files =
     [([RootDir, Normal ''p'', Normal ''a'', Normal ''b.py''], \<lparr>lf_data = [7, 7], lf_mtime = 5\<rparr>),
      ([RootDir, Normal ''p'', Normal ''a_b.py''], \<lparr>lf_data = [9], lf_mtime = 6\<rparr>),
      ([RootDir, Normal ''p'', Normal ''c.py''], \<lparr>lf_data = [], lf_mtime = 6\<rparr>)]"

definition example_lworld :: lworld where
  "example_lworld = \<lparr>lw_files = map_of example_files, lw_mkdir_ok = (\<lambda>_. True), lw_pyo3_python = None\<rparr>"

lemmas example_loader = example_compiler_def example_files_def example_lworld_def

lemma example_fields:
  "bc_project_root example_compiler = [RootDir, Normal ''p'']"
  "bc_expected_magic example_compiler = Some [1, 2, 3, 4]"
  "lw_mkdir_ok example_lworld = (\<lambda>_. True)"
  "lw_files example_lworld = map_of example_files"
  by (simp_all add: example_loader)

lemma example_evaluates:
  "path_to_module_name example_compiler [RootDir, Normal ''p'', Normal ''a'', Normal ''b.py''] = ''a.b''"
  "path_to_module_name example_compiler [RootDir, Normal ''p'', Normal ''c.py''] = ''c''"
  "cache_path example_compiler [RootDir, Normal ''p'', Normal ''a'', Normal ''b.py''] =
     [RootDir, Normal ''p'', Normal ''.tach'', Normal ''cache'', Normal ''a_b.py.pyc'']"
  "cache_path example_compiler [RootDir, Normal ''p'', Normal ''c.py''] =
     [RootDir, Normal ''p'', Normal ''.tach'', Normal ''cache'', Normal ''c.py.pyc'']"
  by code_simp+

lemma example_safe:
  "script_safe [RootDir, Normal ''p'', Normal ''a'', Normal ''b.py'']"
  "script_safe [RootDir, Normal ''p'', Normal ''a_b.py'']"
  "script_safe [RootDir, Normal ''p'', Normal ''c.py'']"
  "script_safe [RootDir, Normal ''p'', Normal ''.tach'', Normal ''cache'', Normal ''a_b.py.pyc'']"
  "script_safe [RootDir, Normal ''p'', Normal ''.tach'', Normal ''cache'', Normal ''c.py.pyc'']"
  by code_simp+


text \<open>C30: Two sources can share a cache file, because the separators of the path become
  underscores: \<^verbatim>\<open>x/y\<close> and \<^verbatim>\<open>x_y\<close>. After compiling the second, compiling the first returns the
  code of the second when the first is not newer, and that is what the registry serves.\<close>

theorem compile_returns_code_of_other_file:
  assumes run: "py_compile_ok run (path_text (bc_python_exe c)) magic code"
    and magic: "bc_expected_magic c = Some magic" "length magic = 4"
    and p: "p = bc_project_root c @ [Normal x, Normal y]" and q: "q = bc_project_root c @ [Normal (x @ ''_'' @ y)]"
    and xy: "CHR ''/'' \<notin> set x" "CHR ''/'' \<notin> set y"
    and safe: "script_safe q" "script_safe (cache_path c q)" and other: "cache_path c q \<noteq> p"
    and files: "lw_files w p = Some fp" "lw_files w q = Some fq" "lw_files w (cache_path c q) = None"
      "code (lf_data fq) = Some bq" "lf_mtime fp \<le> lf_mtime fq"
    and dirs: "\<forall>d. lw_mkdir_ok w d"
  shows "\<exists>w'. compile run c q w = (Inr bq, w') \<and> compile run c p w' = (Inr bq, w')"
proof -
  have "replace_str (x @ ''/'' @ y) ''/'' ''_'' = x @ ''_'' @ y"
    "replace_str (x @ ''_'' @ y) ''/'' ''_'' = x @ ''_'' @ y"
    using split_str_join [of "[x, y]" "CHR ''/''"] split_str_join [of "[x @ ''_'' @ y]" "CHR ''/''"] xy
    by (simp_all add: replace_str_def)
  then have same: "cache_path c p = cache_path c q"
    by (simp add: cache_path_def relative_to_root_def strip_prefix_def p q path_text_def)
  have "needs_compile c w q" using needs_compile_iff [OF magic files(2)] files(3) by simp
  from run magic(2) this safe files(2) dirs show ?thesis
  proof (cases rule: compile_runs)
    case (works bc hdr t)
    let ?w = "w\<lparr>lw_files := (lw_files w)(cache_path c q \<mapsto> \<lparr>lf_data = magic @ hdr @ bc, lf_mtime = t\<rparr>)\<rparr>"
    have "compile run c p ?w = (Inr bc, ?w)"
      using compile_hit [OF magic, of ?w p fp "\<lparr>lf_data = magic @ hdr @ bc, lf_mtime = t\<rparr>" run]
        same other works files magic(2) by simp
    with works files(4) show ?thesis by auto
  qed (use files in simp)
qed

theorem compile_returns_code_of_other_file_witness:
  "\<exists>w'. compile copy_python example_compiler [RootDir, Normal ''p'', Normal ''a_b.py''] example_lworld = (Inr [9], w') \<and>
     compile copy_python example_compiler [RootDir, Normal ''p'', Normal ''a'', Normal ''b.py''] w' = (Inr [9], w')"
proof -
  have q: "cache_path example_compiler [RootDir, Normal ''p'', Normal ''a_b.py''] =
     [RootDir, Normal ''p'', Normal ''.tach'', Normal ''cache'', Normal ''a_b.py.pyc'']" by code_simp
  show ?thesis
    by (rule compile_returns_code_of_other_file [of _ _ "[1, 2, 3, 4]" copy_code _ "''a''" "''b.py''" _ _
          "\<lparr>lf_data = [7, 7], lf_mtime = 5\<rparr>" "\<lparr>lf_data = [9], lf_mtime = 6\<rparr>"])
       (simp_all add: copy_python_ok q example_safe example_fields example_files_def copy_code_def)
qed

section \<open>Module names\<close>

lemma file_stem_of_py: "CHR ''.'' \<notin> set stem \<Longrightarrow> stem \<noteq> [] \<Longrightarrow> file_stem_of (stem @ ''.py'') = stem"
  by (simp add: file_stem_of_def rsplit_dot_def Let_def)

lemma path_text_normals: "path_text (map Normal xs) = str_join ''/'' xs"
  by (cases xs) (auto simp: path_text_def comp_def)

lemma suffix_dot_join:
  assumes "CHR ''.'' \<notin> set x" and "CHR ''.'' \<notin> set y"
  shows "suffix (CHR ''.'' # x) (a @ CHR ''.'' # y) \<longleftrightarrow> x = y"
proof
  assume "suffix (CHR ''.'' # x) (a @ CHR ''.'' # y)"
  then obtain z where "a @ CHR ''.'' # y = z @ CHR ''.'' # x" by (auto simp: suffix_def)
  then have "rev y @ CHR ''.'' # rev a = rev x @ CHR ''.'' # rev z" by (metis append.assoc append_Cons append_Nil rev.simps(2) rev_append)
  then have "takeWhile (\<lambda>c. c \<noteq> CHR ''.'') (rev y @ CHR ''.'' # rev a) = takeWhile (\<lambda>c. c \<noteq> CHR ''.'') (rev x @ CHR ''.'' # rev z)"
    by simp
  moreover have "takeWhile (\<lambda>c. c \<noteq> CHR ''.'') (rev y) = rev y" "takeWhile (\<lambda>c. c \<noteq> CHR ''.'') (rev x) = rev x"
    using assms by (auto simp: takeWhile_eq_all_conv)
  ultimately show "x = y" by (simp add: takeWhile_tail)
qed (simp add: suffix_def)

lemma str_join_snoc: "xs \<noteq> [] \<Longrightarrow> str_join sep (xs @ [x]) = str_join sep xs @ sep @ x"
  by (induction xs rule: induct_list012) auto

lemma suffix_init_join:
  assumes "list_all (\<lambda>x. CHR ''.'' \<notin> set x) xs" and "xs \<noteq> []"
  shows "suffix ''.__init__'' (str_join ''.'' xs) \<longleftrightarrow> 1 < length xs \<and> last xs = ''__init__''"
proof (cases xs rule: rev_cases)
  case (snoc ys y)
  show ?thesis
  proof (cases "ys = []")
    case True
    have "\<not> suffix ''.__init__'' y" using assms snoc by (auto simp: suffix_def)
    with snoc True show ?thesis by simp
  next
    case False
    with assms snoc suffix_dot_join [of "''__init__''" y "str_join ''.'' ys"] show ?thesis
      by (simp add: str_join_snoc) auto
  qed
qed (use assms in simp)

lemma trim_end_matches_once: "p \<noteq> [] \<Longrightarrow> \<not> suffix p a \<Longrightarrow> trim_end_matches p (a @ p) = a"
  by (simp add: trim_end_matches.simps [of p "a @ p"] trim_end_matches.simps [of p a] suffix_def)

text \<open>The module name of a source is its dotted path: the directories below the project root
  and the stem, joined by dots; the initialiser of a package gets the name of the package.\<close>

theorem module_name_of_file:
  assumes dots: "list_all (\<lambda>x. x \<noteq> [] \<and> CHR ''/'' \<notin> set x \<and> CHR ''.'' \<notin> set x) (dirs @ [stem])"
    and dirs: "''__init__'' \<notin> set dirs"
  shows "path_to_module_name c (bc_project_root c @ map Normal dirs @ [Normal (stem @ ''.py'')]) =
     str_join ''.'' (if stem = ''__init__'' \<and> dirs \<noteq> [] then dirs else dirs @ [stem])"
proof -
  let ?p = "bc_project_root c @ map Normal dirs @ [Normal (stem @ ''.py'')]" and ?xs = "dirs @ [stem]"
  have "with_extension (relative_to_root c ?p) [] = map Normal ?xs"
    using dots by (simp add: relative_to_root_def strip_prefix_def with_extension_def file_name_def file_stem_of_py butlast_append)
  moreover have "replace_str (str_join ''/'' ?xs) ''/'' ''.'' = str_join ''.'' ?xs"
    using dots by (subst replace_str_def, subst split_str_join) (auto simp: list_all_iff)
  ultimately have name: "replace_str (path_text (with_extension (relative_to_root c ?p) [])) ''/'' ''.'' = str_join ''.'' ?xs"
    using path_text_normals [of ?xs] by simp
  have suf: "suffix ''.__init__'' (str_join ''.'' ?xs) \<longleftrightarrow> dirs \<noteq> [] \<and> stem = ''__init__''"
    using suffix_init_join [of ?xs] dots by (auto simp: list_all_iff)
  have "trim_end_matches ''.__init__'' (str_join ''.'' dirs @ ''.__init__'') = str_join ''.'' dirs" if "dirs \<noteq> []"
  proof (rule trim_end_matches_once)
    have "last dirs \<noteq> ''__init__''" using dirs last_in_set [OF that] by metis
    with suffix_init_join [of dirs] dots that show "\<not> suffix ''.__init__'' (str_join ''.'' dirs)"
      by (simp add: list_all_iff)
  qed simp
  with suf show ?thesis
    unfolding path_to_module_name_def name Let_def ends_with_def by (simp add: str_join_snoc)
qed

theorem module_name_of_file_witness:
  "path_to_module_name example_compiler [RootDir, Normal ''p'', Normal ''pkg'', Normal ''sub'', Normal ''__init__.py''] = ''pkg.sub''"
  using module_name_of_file [of "[''pkg'', ''sub'']" "''__init__''" example_compiler] by (simp add: example_fields)

section \<open>Lookups of the interpreter\<close>

text \<open>Once a compiler was created, creating another runs no program.\<close>

lemma new_compiler_once:
  assumes first: "new_compiler run root g w = (Inr c, g', w')" and dirs: "\<forall>d. lw_mkdir_ok w'' d"
  shows "\<exists>c'. new_compiler run' root' g' w'' = (Inr c', g', w'') \<and>
     bc_python_exe c' = bc_python_exe c \<and> bc_expected_magic c' = bc_expected_magic c"
proof -
  obtain exe magic g1 w1 where e: "find_python_cached run g w = (Inr exe, g1, w1)"
      and m: "get_python_magic_cached run exe g1 w1 = (Inr magic, g', w')"
      and c: "bc_python_exe c = exe" "bc_expected_magic c = Some magic"
    using first by (auto simp: new_compiler_def Let_def split: if_splits prod.splits sum.splits)
  have "g_python_exe g1 = Some exe" using e by (rule exe.fetched)
  moreover have "g_python_exe g' = g_python_exe g1"
    using m by (auto simp: get_python_magic_cached_def split: option.splits prod.splits sum.splits)
  ultimately have "find_python_cached run' g' w'' = (Inr exe, g', w'')" by (intro exe.hit) simp
  moreover have "get_python_magic_cached run' exe g' w'' = (Inr magic, g', w'')"
    using mag.fetched [OF m] by (intro mag.hit) simp
  ultimately show ?thesis using dirs c by (simp add: new_compiler_def Let_def)
qed

section \<open>Loading\<close>

text \<open>The attributes of a module, as the interpreter reads them.\<close>

definition py_attr :: "pymodules \<Rightarrow> string \<Rightarrow> string \<Rightarrow> pyval option" where
  "py_attr ms name a = Option.bind (hm_get ms name) (\<lambda>as. hm_get as a)"

lemma py_attr_set: "py_attr (set_attr name attr v ms) n a =
    (if n = name \<and> a = attr then Some v else py_attr ms n a)"
  by (auto simp: py_attr_def set_attr_def hm_get_insert split: option.splits)

text \<open>C31: Loading bytecode either raises or leaves the module with its \<^verbatim>\<open>__file__\<close>, its
  \<^verbatim>\<open>__package__\<close> (everything before the last dot of its name, for packages too) and, for a
  package, a \<^verbatim>\<open>__path__\<close> with its directory. It gives back every reference it took exactly when it
  did not stop after unmarshalling because of a NUL in the name or the path, and could patch the module.\<close>

theorem load_module_effect:
  assumes uni: "\<forall>s. ca_unicode_ok api s" and lists: "\<forall>xs. ca_list_ok api xs"
    and load: "load_module api g name source_path bytecode ms = (res, held, ms')"
  shows "(held = [] \<longleftrightarrow> \<not> (bytecode \<noteq> [] \<and> ca_marshal_ok api bytecode \<and> CHR 0x00 \<in> set name \<union> set source_path))
    \<and> (res = Inr True \<longrightarrow> py_attr ms' name ''__file__'' = Some (PyStr source_path) \<and>
         py_attr ms' name ''__package__'' = Some (PyStr (parent_package name)) \<and>
         (ends_with source_path ''__init__.py'' \<or> is_module_package g name = Some True \<longrightarrow>
            py_attr ms' name ''__path__'' =
              Some (PyStrs [case parent (path_of source_path) of None \<Rightarrow> [] | Some d \<Rightarrow> path_text d])))
    \<and> (res \<noteq> Inr True \<longrightarrow> ms' = ms)"
proof -
  let ?dir = "case parent (path_of source_path) of None \<Rightarrow> [] | Some d \<Rightarrow> path_text d"
  let ?pkg = "ends_with source_path ''__init__.py'' \<or> is_module_package g name = Some True"
  have patch: "patch_module_namespace api g name source_path ms1 =
     (Inr (), (if ?pkg then set_attr name ''__path__'' (PyStrs [?dir]) else id)
        (set_attr name ''__package__'' (PyStr (parent_package name)) (set_attr name ''__file__'' (PyStr source_path) ms1)))" for ms1
    using uni lists by (simp add: patch_module_namespace_def Let_def)
  show ?thesis
  proof (cases "bytecode \<noteq> [] \<and> ca_marshal_ok api bytecode \<and> CHR 0x00 \<notin> set name \<and> CHR 0x00 \<notin> set source_path")
    case False
    with load have "held = [] \<longleftrightarrow> bytecode = [] \<or> \<not> ca_marshal_ok api bytecode" "\<exists>e. res = Inl e" "ms' = ms"
      by (auto simp: load_module_def split: if_splits)
    with False show ?thesis by auto
  next
    case True
    show ?thesis
    proof (cases "ca_exec api name source_path bytecode ms")
      case None
      with True load uni show ?thesis by (simp add: load_module_def) auto
    next
      case (Some ms1)
      with True load uni have "res = Inr True" "held = []"
        "ms' = (if ?pkg then set_attr name ''__path__'' (PyStrs [?dir]) else id)
          (set_attr name ''__package__'' (PyStr (parent_package name)) (set_attr name ''__file__'' (PyStr source_path) ms1))"
        by (simp_all add: load_module_def patch Let_def)
      with True show ?thesis by (simp add: py_attr_set)
    qed
  qed
qed

definition example_api :: capi where
  "example_api = \<lparr>ca_marshal_ok = (\<lambda>_. True), ca_unicode_ok = (\<lambda>_. True),
     ca_exec = (\<lambda>n _ _ ms. Some (hm_insert n [] ms)), ca_list_ok = (\<lambda>_. True)\<rparr>"

theorem load_module_effect_witness:
  "\<exists>ms. load_module example_api \<lparr>g_registry = None, g_python_exe = None, g_magic = None\<rparr> ''a.b'' ''/p/a/b.py'' [1] []
       = (Inr True, [], ms) \<and>
     py_attr ms ''a.b'' ''__file__'' = Some (PyStr ''/p/a/b.py'') \<and> py_attr ms ''a.b'' ''__package__'' = Some (PyStr ''a'')"
proof -
  let ?load = "load_module example_api \<lparr>g_registry = None, g_python_exe = None, g_magic = None\<rparr> ''a.b'' ''/p/a/b.py'' [1] []"
  have "fst ?load = Inr True" by code_simp
  then obtain held ms where l: "?load = (Inr True, held, ms)" by (metis prod.collapse)
  have "parent_package ''a.b'' = ''a''" by code_simp
  with load_module_effect [OF _ _ l] l show ?thesis by (simp add: example_api_def)
qed

end
