(* ===== verification/Lifecycle.thy ===== *)
theory Lifecycle
  imports Rust_Path
begin

text \<open>
  Cleanup and signals (\<^verbatim>\<open>lifecycle.rs\<close>, \<^verbatim>\<open>signals.rs\<close>): the guard that tracks what has to be
  released, what dropping it does, and the routing of signals by the two global flags. What the
  operations do to the system is recorded as the sequence of the actions they request; the outcome of
  such a request is ignored by the code. A poisoned lock is entered like any other, so locking leaves no trace.
\<close>

section \<open>Requests to the system\<close>

datatype signal = SIGKILL | SIGSTOP | SIGCONT | SIGINT | SIGTERM | SIGQUIT | OtherSignal nat

datatype sys_action = Kill int signal | RemoveFile path

section \<open>CleanupGuard\<close>

record CleanupGuard =
  cg_worker_pids :: "int list"
  cg_socket_paths :: "path list"
  cg_zygote_pid :: "int option"

definition new_guard :: CleanupGuard where
  "new_guard = \<lparr>cg_worker_pids = [], cg_socket_paths = [], cg_zygote_pid = None\<rparr>"

definition set_zygote_pid :: "int \<Rightarrow> CleanupGuard \<Rightarrow> CleanupGuard" where
  "set_zygote_pid pid g = g\<lparr>cg_zygote_pid := Some pid\<rparr>"

definition track_worker :: "int \<Rightarrow> CleanupGuard \<Rightarrow> CleanupGuard" where
  "track_worker pid g = g\<lparr>cg_worker_pids := cg_worker_pids g @ [pid]\<rparr>"

definition untrack_worker :: "int \<Rightarrow> CleanupGuard \<Rightarrow> CleanupGuard" where
  "untrack_worker pid g = g\<lparr>cg_worker_pids := filter (\<lambda>p. p \<noteq> pid) (cg_worker_pids g)\<rparr>"

definition track_socket :: "path \<Rightarrow> CleanupGuard \<Rightarrow> CleanupGuard" where
  "track_socket p g = g\<lparr>cg_socket_paths := cg_socket_paths g @ [p]\<rparr>"

definition get_worker_pids :: "CleanupGuard \<Rightarrow> int list" where
  "get_worker_pids g = cg_worker_pids g"

definition kill_workers :: "CleanupGuard \<Rightarrow> sys_action list" where
  "kill_workers g =
     concat (map (\<lambda>pid. if pid > 0 then [Kill (- pid) SIGKILL, Kill pid SIGKILL] else []) (cg_worker_pids g)) @
     (case cg_zygote_pid g of
        Some pid \<Rightarrow> if pid > 0 then [Kill pid SIGKILL] else []
      | None \<Rightarrow> [])"

definition cleanup_sockets :: "CleanupGuard \<Rightarrow> sys_action list" where
  "cleanup_sockets g = map RemoveFile (cg_socket_paths g)"

definition drop_guard :: "CleanupGuard \<Rightarrow> sys_action list" where
  "drop_guard g = kill_workers g @ cleanup_sockets g"

lemmas guard_defs = new_guard_def set_zygote_pid_def track_worker_def untrack_worker_def track_socket_def

section \<open>Signals\<close>

record sig_flags =
  fl_debugging :: bool
  fl_shutdown :: bool

definition initial_flags :: sig_flags where
  "initial_flags = \<lparr>fl_debugging = False, fl_shutdown = False\<rparr>"

definition handle_signal :: "signal \<Rightarrow> sig_flags \<Rightarrow> sig_flags" where
  "handle_signal sig f =
     (case sig of
        SIGINT \<Rightarrow> (if fl_debugging f then f else f\<lparr>fl_shutdown := True\<rparr>)
      | SIGTERM \<Rightarrow> f\<lparr>fl_shutdown := True\<rparr>
      | SIGQUIT \<Rightarrow> f\<lparr>fl_shutdown := True\<rparr>
      | _ \<Rightarrow> f)"

definition shutdown_requested :: "sig_flags \<Rightarrow> bool" where
  "shutdown_requested f = fl_shutdown f"

text \<open>The debugger stores the debugging flag while the signal thread runs.\<close>

datatype flag_event = Signalled signal | Debugging bool

fun flag_step :: "flag_event \<Rightarrow> sig_flags \<Rightarrow> sig_flags" where
  "flag_step (Signalled s) f = handle_signal s f"
| "flag_step (Debugging b) f = f\<lparr>fl_debugging := b\<rparr>"

section \<open>Histories of a guard\<close>

datatype guard_op = SetZygote int | Track int | Untrack int | TrackSocket path

fun apply_op :: "guard_op \<Rightarrow> CleanupGuard \<Rightarrow> CleanupGuard" where
  "apply_op (SetZygote p) g = set_zygote_pid p g"
| "apply_op (Track p) g = track_worker p g"
| "apply_op (Untrack p) g = untrack_worker p g"
| "apply_op (TrackSocket p) g = track_socket p g"

inductive history :: "guard_op list \<Rightarrow> CleanupGuard \<Rightarrow> bool" where
  start: "history [] new_guard"
| step: "history ops g \<Longrightarrow> history (ops @ [op]) (apply_op op g)"

text \<open>What the history says is still in use.\<close>

definition still_tracked :: "guard_op list \<Rightarrow> int set" where
  "still_tracked ops = {p. \<exists>a b. ops = a @ Track p # b \<and> Untrack p \<notin> set b}"

definition zygotes :: "guard_op list \<Rightarrow> int list" where
  "zygotes ops = List.map_filter (\<lambda>op. case op of SetZygote p \<Rightarrow> Some p | _ \<Rightarrow> None) ops"

definition sockets :: "guard_op list \<Rightarrow> path list" where
  "sockets ops = List.map_filter (\<lambda>op. case op of TrackSocket p \<Rightarrow> Some p | _ \<Rightarrow> None) ops"

lemma snoc_eq_split:
  "ops @ [op] = a @ x # b \<longleftrightarrow> (b = [] \<and> ops = a \<and> op = x) \<or> (\<exists>b'. b = b' @ [op] \<and> ops = a @ x # b')"
  by (cases b rule: rev_cases) auto

lemma in_still_tracked_snoc:
  "p \<in> still_tracked (ops @ [op]) \<longleftrightarrow> op = Track p \<or> op \<noteq> Untrack p \<and> p \<in> still_tracked ops"
proof
  assume "p \<in> still_tracked (ops @ [op])"
  then obtain a b where "ops @ [op] = a @ Track p # b" and b: "Untrack p \<notin> set b"
    by (auto simp: still_tracked_def)
  then consider "op = Track p" | b' where "b = b' @ [op]" "ops = a @ Track p # b'"
    unfolding snoc_eq_split by blast
  then show "op = Track p \<or> op \<noteq> Untrack p \<and> p \<in> still_tracked ops"
    by cases (use b in \<open>auto simp: still_tracked_def\<close>)
next
  assume "op = Track p \<or> op \<noteq> Untrack p \<and> p \<in> still_tracked ops"
  then consider "op = Track p" | a b where "op \<noteq> Untrack p" "ops = a @ Track p # b" "Untrack p \<notin> set b"
    by (auto simp: still_tracked_def)
  then show "p \<in> still_tracked (ops @ [op])"
  proof cases
    case 1
    then show ?thesis unfolding still_tracked_def by (auto intro: exI [of _ ops] exI [of _ "[]"])
  next
    case (2 a b)
    then have "ops @ [op] = a @ Track p # (b @ [op])" "Untrack p \<notin> set (b @ [op])" by auto
    then show ?thesis unfolding still_tracked_def by blast
  qed
qed

lemma still_tracked_snoc:
  "still_tracked (ops @ [op]) =
     (case op of Track p \<Rightarrow> insert p (still_tracked ops) | Untrack p \<Rightarrow> still_tracked ops - {p} | _ \<Rightarrow> still_tracked ops)"
  by (cases op) (auto simp: in_still_tracked_snoc)

lemma still_tracked_Nil [simp]: "still_tracked [] = {}"
  by (simp add: still_tracked_def)

text \<open>The guard holds exactly what its history says.\<close>

lemma history_guard:
  "history ops g \<Longrightarrow> set (cg_worker_pids g) = still_tracked ops \<and> cg_socket_paths g = sockets ops \<and>
     cg_zygote_pid g = (if zygotes ops = [] then None else Some (last (zygotes ops)))"
proof (induction rule: history.induct)
  case start
  show ?case by (simp add: new_guard_def sockets_def zygotes_def map_filter_simps)
next
  case (step ops g op)
  then show ?case
    by (cases op) (auto simp: guard_defs still_tracked_snoc sockets_def zygotes_def map_filter_append map_filter_simps)
qed

lemma history_fold: "history ops (fold apply_op ops new_guard)"
  by (induction ops rule: rev_induct) (auto intro: history.intros)

lemma set_kill_workers:
  "set (kill_workers g) =
     {Kill t SIGKILL | t p. p \<in> set (cg_worker_pids g) \<and> p > 0 \<and> (t = p \<or> t = - p)} \<union>
     {Kill p SIGKILL | p. cg_zygote_pid g = Some p \<and> p > 0}"
  by (auto simp: kill_workers_def split: option.splits)

section \<open>Properties\<close>

text \<open>C33: Dropping the guard releases everything that is still in use and touches nothing else. It
  kills first: every worker tracked and not untracked since, and its group, and the last zygote set,
  and no other process, and never group 0 or the caller's; then it removes the tracked sockets in the
  order they were tracked.\<close>

theorem drop_releases_exactly:
  assumes "history ops g"
  shows "\<exists>kills. drop_guard g = kills @ map RemoveFile (sockets ops) \<and>
     set kills = {Kill t SIGKILL | t p. p \<in> still_tracked ops \<and> p > 0 \<and> (t = p \<or> t = - p)} \<union>
       {Kill p SIGKILL | p. zygotes ops \<noteq> [] \<and> p = last (zygotes ops) \<and> p > 0} \<and>
     (\<forall>s. Kill 0 s \<notin> set kills)"
proof -
  have g: "set (cg_worker_pids g) = still_tracked ops" "cg_socket_paths g = sockets ops"
    "cg_zygote_pid g = (if zygotes ops = [] then None else Some (last (zygotes ops)))"
    using history_guard [OF assms] by auto
  then show ?thesis
    by (intro exI [of _ "kill_workers g"]) (auto simp: drop_guard_def cleanup_sockets_def set_kill_workers)
qed

theorem drop_releases_exactly_witness:
  "history [Track 7, SetZygote 3, Track 9, TrackSocket [Normal ''s''], Untrack 7]
     \<lparr>cg_worker_pids = [9], cg_socket_paths = [[Normal ''s'']], cg_zygote_pid = Some 3\<rparr> \<and>
   (\<exists>kills. drop_guard \<lparr>cg_worker_pids = [9], cg_socket_paths = [[Normal ''s'']], cg_zygote_pid = Some 3\<rparr> =
      kills @ [RemoveFile [Normal ''s'']])"
proof -
  let ?g = "\<lparr>cg_worker_pids = [9], cg_socket_paths = [[Normal ''s'']], cg_zygote_pid = Some 3\<rparr>"
  have h: "history [Track 7, SetZygote 3, Track 9, TrackSocket [Normal ''s''], Untrack 7] ?g"
    using history_fold [of "[Track 7, SetZygote 3, Track 9, TrackSocket [Normal ''s''], Untrack 7]"]
    by (simp add: guard_defs)
  from drop_releases_exactly [OF h] h show ?thesis by (auto simp: sockets_def map_filter_simps)
qed

text \<open>C34: A shutdown is requested exactly when a termination or quit signal arrived, or an interrupt
  arrived while no debug session was running; once requested it stays so.\<close>

theorem shutdown_requested_iff:
  "shutdown_requested (fold flag_step es initial_flags) \<longleftrightarrow>
     (\<exists>a s b. es = a @ Signalled s # b \<and>
        (s = SIGTERM \<or> s = SIGQUIT \<or> (s = SIGINT \<and> \<not> fl_debugging (fold flag_step a initial_flags))))"
proof (induction es rule: rev_induct)
  case Nil
  show ?case by (simp add: shutdown_requested_def initial_flags_def)
next
  case (snoc e es)
  let ?f = "fold flag_step es initial_flags"
  let ?now = "\<lambda>s. s = SIGTERM \<or> s = SIGQUIT \<or> (s = SIGINT \<and> \<not> fl_debugging ?f)"
  have "shutdown_requested (flag_step e ?f) \<longleftrightarrow> shutdown_requested ?f \<or> (\<exists>s. e = Signalled s \<and> ?now s)"
    by (cases e) (auto simp: shutdown_requested_def handle_signal_def split: signal.splits)
  also have "\<dots> \<longleftrightarrow> (\<exists>a s b. es @ [e] = a @ Signalled s # b \<and>
        (s = SIGTERM \<or> s = SIGQUIT \<or> (s = SIGINT \<and> \<not> fl_debugging (fold flag_step a initial_flags))))"
    unfolding snoc.IH snoc_eq_split by blast
  finally show ?case by simp
qed

end
