(* ===== verification/Debugger.thy ===== *)
theory Debugger
  imports Lifecycle
begin

text \<open>
  The terminal proxy for interactive debugging (\<^verbatim>\<open>debugger.rs\<close>): the terminal manager, the debug
  server, and a debug session, which pauses the other workers, puts the terminal into raw mode and
  copies bytes in both directions in two threads. The threads are a step relation; a thread that waits
  for input that does not come has no step. Terminal attributes are an arbitrary type and making
  them raw is a parameter. Messages on stderr are left out.
\<close>

section \<open>Pausing workers\<close>

definition pause_workers :: "int list \<Rightarrow> int option \<Rightarrow> sys_action list" where
  "pause_workers worker_pids debug_worker_pid =
     concat (map (\<lambda>pid. if Some pid = debug_worker_pid then []
                        else if pid > 0 then [Kill pid SIGSTOP] else []) worker_pids)"

definition resume_workers :: "int list \<Rightarrow> sys_action list" where
  "resume_workers worker_pids = concat (map (\<lambda>pid. if pid > 0 then [Kill pid SIGCONT] else []) worker_pids)"

section \<open>TerminalManager\<close>

datatype TerminalMode = Cooked | Raw

record 'tio TerminalManager =
  tm_original_termios :: "'tio option"
  tm_current_mode :: TerminalMode

text \<open>The terminal, the globals of the module and the debugging flag; the outcomes of the next calls
  to \<^verbatim>\<open>tcsetattr\<close> (an empty list: they all succeed) and the actions requested.\<close>

record 'tio dworld =
  dw_tty :: 'tio
  dw_tcget_ok :: bool
  dw_tcset :: "bool list"
  dw_in_raw_mode :: bool
  dw_original_termios :: "'tio option"
  dw_flags :: sig_flags
  dw_actions :: "sys_action list"

datatype debug_error = TcgetFailed | NoTermios | RawFailed | RestoreFailed | BlockingFailed | CloneFailed | StaleSocket | BindFailed | NonblockFailed

definition tcsetattr :: "'tio \<Rightarrow> 'tio dworld \<Rightarrow> bool \<times> 'tio dworld" where
  "tcsetattr t w =
     (case dw_tcset w of
        False # os \<Rightarrow> (False, w\<lparr>dw_tcset := os\<rparr>)
      | True # os \<Rightarrow> (True, w\<lparr>dw_tcset := os, dw_tty := t\<rparr>)
      | [] \<Rightarrow> (True, w\<lparr>dw_tty := t\<rparr>))"

definition new_terminal :: "'tio dworld \<Rightarrow> (debug_error, 'tio TerminalManager) result \<times> 'tio dworld" where
  "new_terminal w =
     (if \<not> dw_tcget_ok w then (Inl TcgetFailed, w)
      else (Inr \<lparr>tm_original_termios = Some (dw_tty w), tm_current_mode = Cooked\<rparr>,
            w\<lparr>dw_original_termios := Some (dw_tty w)\<rparr>))"

definition enter_raw_mode ::
  "('tio \<Rightarrow> 'tio) \<Rightarrow> 'tio TerminalManager \<Rightarrow> 'tio dworld
     \<Rightarrow> (debug_error, unit) result \<times> 'tio TerminalManager \<times> 'tio dworld" where
  "enter_raw_mode cfmakeraw tm w =
     (if tm_current_mode tm = Raw then (Inr (), tm, w)
      else case tm_original_termios tm of
             None \<Rightarrow> (Inl NoTermios, tm, w)
           | Some original \<Rightarrow>
             (case tcsetattr (cfmakeraw original) w of
                (False, w') \<Rightarrow> (Inl RawFailed, tm, w')
              | (True, w') \<Rightarrow> (Inr (), tm\<lparr>tm_current_mode := Raw\<rparr>, w'\<lparr>dw_in_raw_mode := True\<rparr>)))"

definition restore ::
  "'tio TerminalManager \<Rightarrow> 'tio dworld \<Rightarrow> (debug_error, unit) result \<times> 'tio TerminalManager \<times> 'tio dworld" where
  "restore tm w =
     (if tm_current_mode tm = Cooked then (Inr (), tm, w)
      else case (case tm_original_termios tm of None \<Rightarrow> (True, w) | Some original \<Rightarrow> tcsetattr original w) of
             (False, w') \<Rightarrow> (Inl RestoreFailed, tm, w')
           | (True, w') \<Rightarrow> (Inr (), tm\<lparr>tm_current_mode := Cooked\<rparr>, w'\<lparr>dw_in_raw_mode := False\<rparr>))"

definition term_mode :: "'tio TerminalManager \<Rightarrow> TerminalMode" where
  "term_mode tm = tm_current_mode tm"

definition drop_terminal :: "'tio TerminalManager \<Rightarrow> 'tio dworld \<Rightarrow> 'tio dworld" where
  "drop_terminal tm w = snd (snd (restore tm w))"

text \<open>What the hook does before the default handler runs.\<close>

definition panic_hook :: "'tio dworld \<Rightarrow> 'tio dworld" where
  "panic_hook w =
     (if dw_in_raw_mode w
      then (case dw_original_termios w of None \<Rightarrow> w | Some original \<Rightarrow> snd (tcsetattr original w))
             \<lparr>dw_in_raw_mode := False\<rparr>
      else w)"

section \<open>DebugServer\<close>

record DebugServer =
  ds_socket_path :: path

definition debug_socket_path :: "nat \<Rightarrow> path" where
  "debug_socket_path pid = path_of (''/tmp/tach_debug_'' @ show_nat pid @ ''.sock'')"

text \<open>The socket files that exist, and what can fail: removing a stale file, binding, the mode.\<close>

definition new_debug_server ::
  "nat \<Rightarrow> bool \<Rightarrow> bool \<Rightarrow> bool \<Rightarrow> path set \<Rightarrow> (debug_error, DebugServer) result \<times> path set" where
  "new_debug_server pid remove_ok bind_ok nonblock_ok files =
     (let socket_path = debug_socket_path pid in
      if socket_path \<in> files \<and> \<not> remove_ok then (Inl StaleSocket, files)
      else if \<not> bind_ok then (Inl BindFailed, files - {socket_path})
      else if \<not> nonblock_ok then (Inl NonblockFailed, insert socket_path files)
      else (Inr \<lparr>ds_socket_path = socket_path\<rparr>, insert socket_path files))"

definition cleanup_server :: "DebugServer \<Rightarrow> bool \<Rightarrow> path set \<Rightarrow> path set" where
  "cleanup_server ds remove_ok files =
     (if ds_socket_path ds \<in> files \<and> remove_ok then files - {ds_socket_path ds} else files)"

datatype 'c accept_outcome = Accepted 'c | AcceptWouldBlock | AcceptError

definition try_accept :: "'c accept_outcome \<Rightarrow> 'c option" where
  "try_accept outcome = (case outcome of Accepted c \<Rightarrow> Some c | AcceptWouldBlock \<Rightarrow> None | AcceptError \<Rightarrow> None)"

section \<open>The two threads of a session\<close>

text \<open>What a read returns. The list of the coming reads is empty when the reader waits.\<close>

datatype read_outcome = Data "u8 list" | Eof | WouldBlock | ReadFailed

datatype reader_pc = RHead | RRead | RDone
datatype main_pc = MHead | MRead | MStop | MJoin | MDone

record proxy =
  px_running :: bool
  px_reader :: reader_pc
  px_main :: main_pc
  px_socket_in :: "read_outcome list"
  px_stdout :: "u8 list"
  px_stdin :: "read_outcome list"
  px_socket_out :: "u8 list"

definition start_proxy :: "read_outcome list \<Rightarrow> read_outcome list \<Rightarrow> proxy" where
  "start_proxy socket_in stdin =
     \<lparr>px_running = True, px_reader = RHead, px_main = MHead, px_socket_in = socket_in, px_stdout = [],
      px_stdin = stdin, px_socket_out = []\<rparr>"

inductive reader_step :: "proxy \<Rightarrow> proxy \<Rightarrow> bool" where
  head: "px_reader s = RHead \<Longrightarrow> reader_step s (s\<lparr>px_reader := if px_running s then RRead else RDone\<rparr>)"
| eof: "px_reader s = RRead \<Longrightarrow> px_socket_in s = Eof # i \<Longrightarrow>
    reader_step s (s\<lparr>px_reader := RDone, px_running := False, px_socket_in := i\<rparr>)"
| copy: "px_reader s = RRead \<Longrightarrow> px_socket_in s = Data bs # i \<Longrightarrow>
    reader_step s (s\<lparr>px_reader := RHead, px_socket_in := i, px_stdout := px_stdout s @ bs\<rparr>)"
| write_failed: "px_reader s = RRead \<Longrightarrow> px_socket_in s = Data bs # i \<Longrightarrow>
    reader_step s (s\<lparr>px_reader := RDone, px_socket_in := i\<rparr>)"
| again: "px_reader s = RRead \<Longrightarrow> px_socket_in s = WouldBlock # i \<Longrightarrow>
    reader_step s (s\<lparr>px_reader := RHead, px_socket_in := i\<rparr>)"
| failed: "px_reader s = RRead \<Longrightarrow> px_socket_in s = ReadFailed # i \<Longrightarrow>
    reader_step s (s\<lparr>px_reader := RDone, px_running := False, px_socket_in := i\<rparr>)"

inductive main_step :: "proxy \<Rightarrow> proxy \<Rightarrow> bool" where
  head: "px_main s = MHead \<Longrightarrow> main_step s (s\<lparr>px_main := if px_running s then MRead else MStop\<rparr>)"
| stop: "px_main s = MRead \<Longrightarrow> px_stdin s = r # i \<Longrightarrow> r = Eof \<or> r = ReadFailed \<Longrightarrow>
    main_step s (s\<lparr>px_main := MStop, px_stdin := i\<rparr>)"
| copy: "px_main s = MRead \<Longrightarrow> px_stdin s = Data bs # i \<Longrightarrow>
    main_step s (s\<lparr>px_main := MHead, px_stdin := i, px_socket_out := px_socket_out s @ bs\<rparr>)"
| write_failed: "px_main s = MRead \<Longrightarrow> px_stdin s = Data bs # i \<Longrightarrow>
    main_step s (s\<lparr>px_main := MStop, px_stdin := i\<rparr>)"
| again: "px_main s = MRead \<Longrightarrow> px_stdin s = WouldBlock # i \<Longrightarrow>
    main_step s (s\<lparr>px_main := MHead, px_stdin := i\<rparr>)"
| tell: "px_main s = MStop \<Longrightarrow> main_step s (s\<lparr>px_main := MJoin, px_running := False\<rparr>)"
| join: "px_main s = MJoin \<Longrightarrow> px_reader s = RDone \<Longrightarrow> main_step s (s\<lparr>px_main := MDone\<rparr>)"

definition proxy_step :: "proxy \<Rightarrow> proxy \<Rightarrow> bool" where
  "proxy_step s s' \<longleftrightarrow> reader_step s s' \<or> main_step s s'"

section \<open>A session\<close>

text \<open>Up to the start of the threads; an early return drops the terminal manager.\<close>

definition session_setup ::
  "('tio \<Rightarrow> 'tio) \<Rightarrow> int list \<Rightarrow> int option \<Rightarrow> bool \<Rightarrow> bool \<Rightarrow> 'tio dworld
     \<Rightarrow> (debug_error, 'tio TerminalManager) result \<times> 'tio dworld" where
  "session_setup cfmakeraw worker_pids debug_worker_pid blocking_ok clone_ok w =
     (let w1 = w\<lparr>dw_flags := (dw_flags w)\<lparr>fl_debugging := True\<rparr>\<rparr>;
          w2 = w1\<lparr>dw_actions := dw_actions w1 @ pause_workers worker_pids debug_worker_pid\<rparr>
      in case new_terminal w2 of
           (Inl e, w3) \<Rightarrow> (Inl e, w3)
         | (Inr tm, w3) \<Rightarrow>
           (case enter_raw_mode cfmakeraw tm w3 of
              (Inl e, tm', w4) \<Rightarrow> (Inl e, drop_terminal tm' w4)
            | (Inr (), tm', w4) \<Rightarrow>
                if \<not> blocking_ok then (Inl BlockingFailed, drop_terminal tm' w4)
                else if \<not> clone_ok then (Inl CloneFailed, drop_terminal tm' w4)
                else (Inr tm', w4)))"

definition session_end ::
  "int list \<Rightarrow> 'tio TerminalManager \<Rightarrow> 'tio dworld \<Rightarrow> (debug_error, unit) result \<times> 'tio dworld" where
  "session_end worker_pids tm w =
     (case restore tm w of
        (Inl e, tm', w1) \<Rightarrow> (Inl e, drop_terminal tm' w1)
      | (Inr (), tm', w1) \<Rightarrow>
        (let w2 = w1\<lparr>dw_actions := dw_actions w1 @ resume_workers worker_pids\<rparr>;
             w3 = w2\<lparr>dw_flags := (dw_flags w2)\<lparr>fl_debugging := False\<rparr>\<rparr>
         in (Inr (), drop_terminal tm' w3)))"

text \<open>The outcomes a session can have; it has none when a thread waits forever.\<close>

inductive handle_session ::
  "('tio \<Rightarrow> 'tio) \<Rightarrow> int list \<Rightarrow> int option \<Rightarrow> bool \<Rightarrow> bool \<Rightarrow> proxy \<Rightarrow> 'tio dworld
     \<Rightarrow> (debug_error, unit) result \<Rightarrow> proxy \<Rightarrow> 'tio dworld \<Rightarrow> bool"
  for cfmakeraw worker_pids debug_worker_pid blocking_ok clone_ok io w
where
  setup_failed: "session_setup cfmakeraw worker_pids debug_worker_pid blocking_ok clone_ok w = (Inl e, w') \<Longrightarrow>
    handle_session cfmakeraw worker_pids debug_worker_pid blocking_ok clone_ok io w (Inl e) io w'"
| proxied: "session_setup cfmakeraw worker_pids debug_worker_pid blocking_ok clone_ok w = (Inr tm, w1) \<Longrightarrow>
    proxy_step\<^sup>*\<^sup>* io io' \<Longrightarrow> px_main io' = MDone \<Longrightarrow> session_end worker_pids tm w1 = (res, w2) \<Longrightarrow>
    handle_session cfmakeraw worker_pids debug_worker_pid blocking_ok clone_ok io w res io' w2"

section \<open>The state of the workers\<close>

text \<open>Whether a process is stopped after a sequence of actions: by the last of its stop and continue
  signals.\<close>

fun stop_step :: "int \<Rightarrow> sys_action \<Rightarrow> bool \<Rightarrow> bool" where
  "stop_step pid (Kill t SIGSTOP) st = (t = pid \<or> st)"
| "stop_step pid (Kill t SIGCONT) st = (t \<noteq> pid \<and> st)"
| "stop_step pid _ st = st"

definition stopped :: "sys_action list \<Rightarrow> int \<Rightarrow> bool" where
  "stopped as pid = fold (stop_step pid) as False"

lemma fold_pause:
  "fold (stop_step p) (pause_workers pids d) st \<longleftrightarrow> st \<or> (p \<in> set pids \<and> p > 0 \<and> Some p \<noteq> d)"
  by (induction pids arbitrary: st) (auto simp: pause_workers_def)

lemma fold_resume:
  "fold (stop_step p) (resume_workers pids) st \<longleftrightarrow> st \<and> \<not> (p \<in> set pids \<and> p > 0)"
  by (induction pids arbitrary: st) (auto simp: resume_workers_def)

section \<open>Terminal lemmas\<close>

lemma tcsetattr_frame:
  "tcsetattr t w = (ok, w') \<Longrightarrow> dw_flags w' = dw_flags w \<and> dw_actions w' = dw_actions w \<and>
     dw_in_raw_mode w' = dw_in_raw_mode w \<and> dw_original_termios w' = dw_original_termios w \<and>
     dw_tty w' = (if ok then t else dw_tty w)"
  by (auto simp: tcsetattr_def split: list.splits bool.splits)

lemma restore_frame:
  "restore tm w = (r, tm', w') \<Longrightarrow> dw_flags w' = dw_flags w \<and> dw_actions w' = dw_actions w"
  by (auto simp: restore_def dest!: tcsetattr_frame split: if_splits option.splits prod.splits bool.splits)

lemma drop_terminal_frame:
  "dw_flags (drop_terminal tm w) = dw_flags w \<and> dw_actions (drop_terminal tm w) = dw_actions w"
  unfolding drop_terminal_def by (metis prod.collapse restore_frame)

lemma drop_cooked: "tm_current_mode tm = Cooked \<Longrightarrow> drop_terminal tm w = w"
  by (simp add: drop_terminal_def restore_def)

text \<open>A successful setup leaves a raw terminal whose former attributes are saved twice.\<close>

lemma setup_ok:
  assumes "session_setup cfmakeraw pids d blocking_ok clone_ok w = (Inr tm, w1)"
  shows "tm = \<lparr>tm_original_termios = Some (dw_tty w), tm_current_mode = Raw\<rparr> \<and> dw_tty w1 = cfmakeraw (dw_tty w) \<and>
     dw_in_raw_mode w1 \<and> dw_original_termios w1 = Some (dw_tty w) \<and>
     dw_actions w1 = dw_actions w @ pause_workers pids d \<and> fl_debugging (dw_flags w1)"
  using assms
  by (auto simp: session_setup_def Let_def new_terminal_def enter_raw_mode_def
      dest!: tcsetattr_frame split: if_splits prod.splits sum.splits bool.splits)

lemma setup_failed_frame:
  assumes "session_setup cfmakeraw pids d blocking_ok clone_ok w = (Inl e, w1)"
  shows "dw_actions w1 = dw_actions w @ pause_workers pids d \<and> fl_debugging (dw_flags w1)"
  using assms
  by (auto simp: session_setup_def Let_def new_terminal_def enter_raw_mode_def drop_terminal_frame
      dest!: tcsetattr_frame split: if_splits prod.splits sum.splits bool.splits)

section \<open>What the threads copy\<close>

definition payload :: "read_outcome list \<Rightarrow> u8 list" where
  "payload rs = concat (List.map_filter (\<lambda>r. case r of Data bs \<Rightarrow> Some bs | _ \<Rightarrow> None) rs)"

lemma payload_append [simp]: "payload (xs @ ys) = payload xs @ payload ys"
  by (simp add: payload_def map_filter_append)

lemma payload_simps [simp]:
  "payload [] = []" "payload [Data bs] = bs" "payload [Eof] = []" "payload [WouldBlock] = []" "payload [ReadFailed] = []"
  by (simp_all add: payload_def map_filter_simps)

text \<open>The invariant: what was read splits the input, and has been written unless the thread ended.\<close>

definition copied :: "read_outcome list \<Rightarrow> read_outcome list \<Rightarrow> u8 list \<Rightarrow> bool \<Rightarrow> bool" where
  "copied all rest out active \<longleftrightarrow>
     (\<exists>read. all = read @ rest \<and> prefix out (payload read) \<and> (active \<longrightarrow> out = payload read))"

lemma copied_start: "copied all all [] True"
  by (simp add: copied_def)

lemma copied_stop: "copied all rest out active \<Longrightarrow> copied all rest out False"
  by (auto simp: copied_def)

lemma copied_next:
  assumes "copied all (r # rest) out True"
  shows "copied all rest (out @ payload [r]) True" and "copied all rest out False"
proof -
  obtain read where r: "all = (read @ [r]) @ rest" "out = payload read" using assms by (auto simp: copied_def)
  then show "copied all rest (out @ payload [r]) True" unfolding copied_def
    by (intro exI [of _ "read @ [r]"]) simp
  from r show "copied all rest out False" unfolding copied_def
    by (intro exI [of _ "read @ [r]"]) simp
qed

lemmas copied_data = copied_next(1) [of all "Data bs" for all bs, simplified]
lemmas copied_again = copied_next(1) [of all WouldBlock for all, simplified]
lemmas copied_intros = copied_start copied_data copied_again copied_next(2)

definition proxy_inv :: "read_outcome list \<Rightarrow> read_outcome list \<Rightarrow> proxy \<Rightarrow> bool" where
  "proxy_inv si stdin s \<longleftrightarrow>
     copied si (px_socket_in s) (px_stdout s) (px_reader s \<noteq> RDone) \<and>
     copied stdin (px_stdin s) (px_socket_out s) (px_main s = MHead \<or> px_main s = MRead) \<and>
     (px_main s = MJoin \<or> px_main s = MDone \<longrightarrow> \<not> px_running s) \<and> (px_main s = MDone \<longrightarrow> px_reader s = RDone)"

lemma reader_step_inv: "reader_step s s' \<Longrightarrow> proxy_inv si stdin s \<Longrightarrow> proxy_inv si stdin s'"
  by (induction rule: reader_step.induct)
     (auto simp: proxy_inv_def intro: copied_intros copied_stop)

lemma main_step_inv: "main_step s s' \<Longrightarrow> proxy_inv si stdin s \<Longrightarrow> proxy_inv si stdin s'"
  by (induction rule: main_step.induct)
     (auto simp: proxy_inv_def intro: copied_intros copied_stop)

interpretation threads: step_system proxy_step "proxy_inv si stdin" for si stdin
  by unfold_locales (auto simp: proxy_step_def intro: reader_step_inv main_step_inv)

lemma reachable_inv: "proxy_step\<^sup>*\<^sup>* (start_proxy si stdin) s \<Longrightarrow> proxy_inv si stdin s"
  by (erule threads.reachable) (simp add: proxy_inv_def start_proxy_def copied_start)

text \<open>A schedule of the two threads in which every write succeeds.\<close>

definition reader_next :: "proxy \<Rightarrow> proxy" where
  "reader_next s =
     (case px_reader s of
        RHead \<Rightarrow> s\<lparr>px_reader := if px_running s then RRead else RDone\<rparr>
      | RRead \<Rightarrow>
          (case px_socket_in s of
             [] \<Rightarrow> s
           | Data bs # i \<Rightarrow> s\<lparr>px_reader := RHead, px_socket_in := i, px_stdout := px_stdout s @ bs\<rparr>
           | WouldBlock # i \<Rightarrow> s\<lparr>px_reader := RHead, px_socket_in := i\<rparr>
           | _ # i \<Rightarrow> s\<lparr>px_reader := RDone, px_running := False, px_socket_in := i\<rparr>)
      | RDone \<Rightarrow> s)"

definition main_next :: "proxy \<Rightarrow> proxy" where
  "main_next s =
     (case px_main s of
        MHead \<Rightarrow> s\<lparr>px_main := if px_running s then MRead else MStop\<rparr>
      | MRead \<Rightarrow>
          (case px_stdin s of
             [] \<Rightarrow> s
           | Data bs # i \<Rightarrow> s\<lparr>px_main := MHead, px_stdin := i, px_socket_out := px_socket_out s @ bs\<rparr>
           | WouldBlock # i \<Rightarrow> s\<lparr>px_main := MHead, px_stdin := i\<rparr>
           | _ # i \<Rightarrow> s\<lparr>px_main := MStop, px_stdin := i\<rparr>)
      | MStop \<Rightarrow> s\<lparr>px_main := MJoin, px_running := False\<rparr>
      | MJoin \<Rightarrow> (if px_reader s = RDone then s\<lparr>px_main := MDone\<rparr> else s)
      | MDone \<Rightarrow> s)"

fun run_threads :: "bool list \<Rightarrow> proxy \<Rightarrow> proxy" where
  "run_threads [] s = s"
| "run_threads (b # bs) s = run_threads bs (if b then reader_next s else main_next s)"

lemma reader_next_step: "reader_next s = s \<or> reader_step s (reader_next s)"
  by (auto simp: reader_next_def intro: reader_step.intros
      split: reader_pc.split list.split read_outcome.split)
     (metis reader_step.head)+

lemma main_next_step: "main_next s = s \<or> main_step s (main_next s)"
  by (auto simp: main_next_def intro: main_step.intros split: main_pc.split list.split read_outcome.split)
     (metis main_step.head)+

lemma run_threads_steps: "proxy_step\<^sup>*\<^sup>* s (run_threads bs s)"
proof (induction bs s rule: run_threads.induct)
  case (2 b bs s)
  let ?t = "if b then reader_next s else main_next s"
  have "proxy_step\<^sup>*\<^sup>* s ?t"
    using reader_next_step [of s] main_next_step [of s] by (cases b) (auto simp: proxy_step_def)
  with "2" show ?case by (cases b) auto
qed simp

section \<open>Properties\<close>

text \<open>C37: The two threads of a debug session copy faithfully, however they interleave: what reached
  the terminal is a prefix of what the worker sent, and what reached the worker a prefix of what was
  typed; nothing read is left out while the thread runs; and when the session is over both threads
  have stopped.\<close>

theorem session_copies_in_order:
  assumes "proxy_step\<^sup>*\<^sup>* (start_proxy si stdin) s"
  shows "\<exists>a b. si = a @ px_socket_in s \<and> stdin = b @ px_stdin s \<and>
     prefix (px_stdout s) (payload a) \<and> prefix (px_socket_out s) (payload b) \<and>
     (px_reader s \<noteq> RDone \<longrightarrow> px_stdout s = payload a) \<and>
     (px_main s \<in> {MHead, MRead} \<longrightarrow> px_socket_out s = payload b) \<and>
     (px_main s = MDone \<longrightarrow> px_reader s = RDone \<and> \<not> px_running s)"
  using reachable_inv [OF assms] unfolding proxy_inv_def copied_def by blast

definition ex_io :: proxy where
  "ex_io = start_proxy [Data [1, 2], Eof] [Data [9]]"

definition ex_io_end :: proxy where
  "ex_io_end = run_threads [False, True, True, False, True, True, False, False, False] ex_io"

lemma ex_io_end: "px_main ex_io_end = MDone" "px_stdout ex_io_end = [1, 2]" "px_socket_out ex_io_end = [9]"
  by (simp_all add: ex_io_end_def ex_io_def start_proxy_def reader_next_def main_next_def)

lemma ex_io_steps: "proxy_step\<^sup>*\<^sup>* ex_io ex_io_end"
  unfolding ex_io_end_def by (rule run_threads_steps)

theorem session_copies_in_order_witness:
  "\<exists>a b. [Data [1, 2], Eof] = a @ px_socket_in ex_io_end \<and> [Data [9]] = b @ px_stdin ex_io_end \<and>
     prefix [1, 2] (payload a) \<and> prefix [9] (payload b)"
  using session_copies_in_order [OF ex_io_steps [unfolded ex_io_def]] ex_io_end by metis

text \<open>The main thread does not notice the end of the session while it waits for a key.\<close>

lemma session_waits_for_key:
  "\<exists>s. proxy_step\<^sup>*\<^sup>* (start_proxy [Eof] []) s \<and> px_reader s = RDone \<and> \<not> px_running s \<and> px_main s = MRead \<and>
     \<not> (\<exists>s'. proxy_step s s')"
proof -
  let ?s = "run_threads [False, True, True] (start_proxy [Eof] [])"
  have "?s = \<lparr>px_running = False, px_reader = RDone, px_main = MRead, px_socket_in = [], px_stdout = [],
      px_stdin = [], px_socket_out = []\<rparr>"
    by (simp add: start_proxy_def reader_next_def main_next_def)
  then show ?thesis using run_threads_steps [of "start_proxy [Eof] []" "[False, True, True]"]
    by (intro exI [of _ ?s]) (auto simp: proxy_step_def elim: reader_step.cases main_step.cases)
qed

text \<open>C35: A debug session that ends well leaves no trace: the terminal has the attributes it had, raw
  mode is off, interrupts are handled as usual again, and no worker the session knew of is stopped;
  other processes are as they were.\<close>

theorem session_leaves_no_trace:
  assumes "handle_session cfmakeraw pids d blocking_ok clone_ok io w (Inr ()) io' w'"
  shows "dw_tty w' = dw_tty w \<and> \<not> dw_in_raw_mode w' \<and> \<not> fl_debugging (dw_flags w') \<and>
     (\<forall>p. stopped (dw_actions w') p \<longleftrightarrow> stopped (dw_actions w) p \<and> \<not> (p \<in> set pids \<and> p > 0))"
  using assms
proof (cases rule: handle_session.cases)
  case (proxied tm w1)
  note s = setup_ok [OF proxied(1)]
  have "dw_tty w' = dw_tty w \<and> \<not> dw_in_raw_mode w' \<and> \<not> fl_debugging (dw_flags w') \<and>
      dw_actions w' = dw_actions w1 @ resume_workers pids"
    using proxied(4) s
    by (auto simp: session_end_def restore_def drop_cooked dest!: tcsetattr_frame
        split: prod.splits sum.splits if_splits bool.splits)
  with s show ?thesis by (auto simp: stopped_def fold_pause fold_resume)
qed

text \<open>C36: A debug session that ends with an error leaves every other worker stopped and the debugging
  flag set, so that interrupts are ignored from then on: the early returns skip the steps that undo
  them.\<close>

theorem session_error_leaves_workers_stopped:
  assumes "handle_session cfmakeraw pids d blocking_ok clone_ok io w (Inl e) io' w'"
  shows "fl_debugging (dw_flags w') \<and> {p \<in> set pids. p > 0 \<and> Some p \<noteq> d} \<subseteq> {p. stopped (dw_actions w') p} \<and>
     handle_signal SIGINT (dw_flags w') = dw_flags w'"
  using assms
proof (cases rule: handle_session.cases)
  case setup_failed
  with setup_failed_frame [OF setup_failed(2)] show ?thesis
    by (auto simp: stopped_def fold_pause handle_signal_def)
next
  case (proxied tm w1)
  note s = setup_ok [OF proxied(1)]
  have "dw_flags w' = dw_flags w1 \<and> dw_actions w' = dw_actions w1"
    using proxied(4)
    by (auto simp: session_end_def Let_def drop_terminal_frame dest!: restore_frame
        split: prod.splits sum.splits)
  with s show ?thesis by (auto simp: stopped_def fold_pause handle_signal_def)
qed

definition ex_dworld :: "bool \<Rightarrow> nat dworld" where
  "ex_dworld tty = \<lparr>dw_tty = 5, dw_tcget_ok = tty, dw_tcset = [], dw_in_raw_mode = False, dw_original_termios = None,
     dw_flags = initial_flags, dw_actions = []\<rparr>"

theorem session_leaves_no_trace_witness:
  "\<exists>w'. handle_session Suc [7, 8] (Some 7) True True ex_io (ex_dworld True) (Inr ()) ex_io_end w' \<and>
     dw_tty w' = 5 \<and> \<not> stopped (dw_actions w') 8"
proof -
  let ?start = "session_setup Suc [7, 8] (Some 7) True True (ex_dworld True)"
  obtain tm w1 where st: "?start = (Inr tm, w1)" and tm: "tm = \<lparr>tm_original_termios = Some 5, tm_current_mode = Raw\<rparr>"
      and w1: "dw_tcset w1 = []"
    by (simp add: session_setup_def ex_dworld_def new_terminal_def enter_raw_mode_def tcsetattr_def)
  obtain w2 where "session_end [7, 8] tm w1 = (Inr (), w2)"
    using tm w1 by (simp add: session_end_def restore_def tcsetattr_def Let_def)
  then have "handle_session Suc [7, 8] (Some 7) True True ex_io (ex_dworld True) (Inr ()) ex_io_end w2"
    using st ex_io_end(1) by (intro handle_session.proxied) (simp_all add: ex_io_steps)
  from session_leaves_no_trace [OF this] this show ?thesis by (auto simp: ex_dworld_def)
qed

theorem session_error_leaves_workers_stopped_witness:
  "\<exists>w'. handle_session Suc [7, 8] (Some 7) True True ex_io (ex_dworld False) (Inl TcgetFailed) ex_io w' \<and>
     fl_debugging (dw_flags w') \<and> stopped (dw_actions w') 8"
proof -
  obtain w' where "session_setup Suc [7, 8] (Some 7) True True (ex_dworld False) = (Inl TcgetFailed, w')"
    by (simp add: session_setup_def ex_dworld_def new_terminal_def)
  then have "handle_session Suc [7, 8] (Some 7) True True ex_io (ex_dworld False) (Inl TcgetFailed) ex_io w'"
    by (rule handle_session.setup_failed)
  from session_error_leaves_workers_stopped [OF this] this show ?thesis by auto
qed

text \<open>A panic in raw mode: the hook puts the saved attributes back, when the call succeeds.\<close>

lemma panic_in_session_restores:
  assumes "session_setup cfmakeraw pids d blocking_ok clone_ok w = (Inr tm, w1)" and "dw_tcset w1 = []"
  shows "dw_tty (panic_hook w1) = dw_tty w \<and> \<not> dw_in_raw_mode (panic_hook w1)"
  using setup_ok [OF assms(1)] assms(2) by (simp add: panic_hook_def tcsetattr_def)

text \<open>The server's socket file is gone when it could be removed at the end.\<close>

lemma server_socket_removed:
  "new_debug_server pid remove_ok bind_ok nonblock_ok files = (Inr ds, files') \<Longrightarrow>
     ds_socket_path ds \<in> files' \<and> cleanup_server ds True files' = files - {debug_socket_path pid}"
  by (auto simp: new_debug_server_def cleanup_server_def Let_def split: if_splits)

end
