(* ===== verification/Environment.thy ===== *)
theory Environment
  imports Rust_Path
begin

text \<open>
  Detection of the project's virtual environment (\<^verbatim>\<open>environment.rs\<close>). The file system is given by
  what exists, which paths are directories and the entries of a directory, in the order they are
  read (\<^const>\<open>None\<close> when it cannot be read; entries with errors left out).
\<close>

record env_fs =
  ef_virtual_env :: "string option"
  ef_exists :: "path \<Rightarrow> bool"
  ef_is_dir :: "path \<Rightarrow> bool"
  ef_read_dir :: "path \<Rightarrow> path list option"

fun first_site :: "env_fs \<Rightarrow> path list \<Rightarrow> path option" where
  "first_site fs [] = None"
| "first_site fs (p # ps) =
     (if ef_is_dir fs p \<and> (case file_name p of None \<Rightarrow> False | Some name \<Rightarrow> starts_with name ''python'') \<and>
         ef_exists fs (join p [Normal ''site-packages''])
      then Some (join p [Normal ''site-packages'']) else first_site fs ps)"

definition find_site_packages_in_venv :: "env_fs \<Rightarrow> path \<Rightarrow> path option" where
  "find_site_packages_in_venv fs venv =
     (let lib = join venv [Normal ''lib''] in
      if \<not> ef_exists fs lib then None
      else case ef_read_dir fs lib of None \<Rightarrow> None | Some entries \<Rightarrow> first_site fs entries)"

definition find_site_packages :: "env_fs \<Rightarrow> path \<Rightarrow> path option" where
  "find_site_packages fs project_root =
     (let explicit = Option.bind (ef_virtual_env fs) (\<lambda>venv. find_site_packages_in_venv fs (path_of venv));
          local = (\<lambda>name. let d = join project_root [Normal name] in
                     if ef_exists fs d then find_site_packages_in_venv fs d else None)
      in case explicit of Some sp \<Rightarrow> Some sp
         | None \<Rightarrow> (case local ''.venv'' of Some sp \<Rightarrow> Some sp | None \<Rightarrow> local ''venv''))"

definition get_python_paths :: "env_fs \<Rightarrow> path \<Rightarrow> path \<times> path option" where
  "get_python_paths fs project_root = (project_root, find_site_packages fs project_root)"

text \<open>What is found exists.\<close>

lemma first_site_exists: "first_site fs ps = Some sp \<Longrightarrow> ef_exists fs sp"
  by (induction ps) (auto split: if_splits)

lemma find_in_venv_exists: "find_site_packages_in_venv fs v = Some sp \<Longrightarrow> ef_exists fs sp"
  by (auto simp: find_site_packages_in_venv_def Let_def dest: first_site_exists split: if_splits option.splits)

lemma find_site_packages_exists: "find_site_packages fs root = Some sp \<Longrightarrow> ef_exists fs sp"
  by (auto simp: find_site_packages_def Let_def bind_eq_Some_conv dest: find_in_venv_exists split: option.splits if_splits)

end
