(* ===== verification/Isolation.thy ===== *)
theory Isolation
  imports Rust_Path
begin

text \<open>
  Isolation of a worker (\<^verbatim>\<open>isolation.rs\<close>): the sequence of privileged operations and what they make
  of the worker's view of the file system. Each operation may fail, which an argument decides; the
  first failure ends the setup. Flags and options of the mounts are kept as data.
\<close>

section \<open>Operations\<close>

datatype ms_flag = MS_REC | MS_PRIVATE | MS_BIND | MS_REMOUNT | MS_RDONLY

datatype iso_op =
    Unshare
  | Mount "path option" path "string option" "ms_flag list" "string option"
  | IpLinkUp
  | CreateDirAll path

definition root_dir :: path where "root_dir = [RootDir]"

definition worker_base :: "nat \<Rightarrow> path" where
  "worker_base worker_id = path_of (''/run/tach/worker_'' @ show_nat worker_id)"

definition overlay_opts :: "path \<Rightarrow> path \<Rightarrow> path \<Rightarrow> string" where
  "overlay_opts lower upper work =
     ''lowerdir='' @ path_text lower @ '',upperdir='' @ path_text upper @ '',workdir='' @ path_text work"

definition setup_loopback :: "iso_op list" where
  "setup_loopback = [IpLinkUp]"

definition isolation_ops :: "nat \<Rightarrow> path \<Rightarrow> iso_op list" where
  "isolation_ops worker_id project_root =
     (let base = worker_base worker_id;
          tmp_upper = join base [Normal ''tmp_upper'']; tmp_work = join base [Normal ''tmp_work''];
          proj_upper = join base [Normal ''proj_upper'']; proj_work = join base [Normal ''proj_work''];
          tmp = [RootDir, Normal ''tmp''] in
      [Unshare, Mount None root_dir None [MS_REC, MS_PRIVATE] None] @ setup_loopback @
      [CreateDirAll base,
       Mount (Some root_dir) root_dir None [MS_BIND, MS_REC] None,
       Mount (Some root_dir) root_dir None [MS_BIND, MS_REMOUNT, MS_RDONLY, MS_REC] None,
       Mount (Some [Normal ''tmpfs'']) base (Some ''tmpfs'') [] (Some ''size=100M,mode=0755''),
       CreateDirAll tmp_upper, CreateDirAll tmp_work, CreateDirAll proj_upper, CreateDirAll proj_work,
       Mount (Some [Normal ''overlay'']) tmp (Some ''overlay'') [] (Some (overlay_opts tmp tmp_upper tmp_work)),
       Mount (Some [Normal ''overlay'']) project_root (Some ''overlay'') [] (Some (overlay_opts project_root proj_upper proj_work))])"

text \<open>Run until an operation fails: whether all succeeded, and the operations performed.\<close>

fun run_ops :: "(iso_op \<Rightarrow> bool) \<Rightarrow> iso_op list \<Rightarrow> bool \<times> iso_op list" where
  "run_ops ok [] = (True, [])"
| "run_ops ok (op # ops) =
     (if ok op then let (r, performed) = run_ops ok ops in (r, op # performed) else (False, []))"

definition setup_filesystem :: "string option \<Rightarrow> (iso_op \<Rightarrow> bool) \<Rightarrow> nat \<Rightarrow> path \<Rightarrow> bool \<times> iso_op list" where
  "setup_filesystem no_isolation ok worker_id project_root =
     (if (case no_isolation of None \<Rightarrow> [] | Some v \<Rightarrow> v) = ''1'' then (True, [])
      else run_ops ok (isolation_ops worker_id project_root))"

section \<open>The view of the worker\<close>

text \<open>Own namespaces, mounts cut off from the host's, the root read-only, and the file systems the
  setup mounts, by mount point. File systems the host has mounted below the root are not in the
  view.\<close>

record view =
  vw_own_ns :: bool
  vw_private :: bool
  vw_root_ro :: bool
  vw_mounts :: "(path \<times> string) list"
  vw_host_changed :: bool

definition host_view :: view where
  "host_view = \<lparr>vw_own_ns = False, vw_private = False, vw_root_ro = False, vw_mounts = [], vw_host_changed = False\<rparr>"

text \<open>A mount is seen on the host unless it is made in an own namespace cut off from it; marking the
  mounts private is itself no mount.\<close>

fun view_step :: "iso_op \<Rightarrow> view \<Rightarrow> view" where
  "view_step Unshare v = v\<lparr>vw_own_ns := True\<rparr>"
| "view_step (Mount src target fstype flags opts) v =
     (let v' = (if MS_PRIVATE \<in> set flags then v else v\<lparr>vw_host_changed := vw_host_changed v \<or> \<not> (vw_own_ns v \<and> vw_private v)\<rparr>) in
      if MS_PRIVATE \<in> set flags then v'\<lparr>vw_private := True\<rparr>
      else if MS_RDONLY \<in> set flags \<and> target = root_dir then v'\<lparr>vw_root_ro := True\<rparr>
      else case fstype of Some t \<Rightarrow> v'\<lparr>vw_mounts := vw_mounts v' @ [(target, t)]\<rparr> | None \<Rightarrow> v')"
| "view_step IpLinkUp v = v"
| "view_step (CreateDirAll p) v = v"

definition view_after :: "iso_op list \<Rightarrow> view" where
  "view_after ops = fold view_step ops host_view"

text \<open>The path may be written: by the topmost mount above it, or because the root is not read-only.\<close>

definition writable :: "view \<Rightarrow> path \<Rightarrow> bool" where
  "writable v p \<longleftrightarrow> \<not> vw_root_ro v \<or> list_ex (\<lambda>(t, _). prefix t p) (vw_mounts v)"

lemma run_ops_prefix: "run_ops ok ops = (r, performed) \<Longrightarrow> prefix performed ops \<and> (r \<longrightarrow> performed = ops)"
  by (induction ops arbitrary: performed) (auto split: if_splits prod.splits)

lemma run_ops_ok: "run_ops (\<lambda>_. True) ops = (True, ops)"
  by (induction ops) auto

lemma view_step_host:
  "vw_own_ns v \<Longrightarrow> vw_private v \<Longrightarrow> vw_own_ns (view_step op v) \<and> vw_private (view_step op v) \<and>
     vw_host_changed (view_step op v) = vw_host_changed v"
  by (cases op) (auto simp: Let_def split: option.split)

lemma fold_view_host:
  "vw_own_ns v \<Longrightarrow> vw_private v \<Longrightarrow> vw_host_changed (fold view_step ops v) = vw_host_changed v"
proof (induction ops arbitrary: v)
  case (Cons op ops)
  with view_step_host [of v op] show ?case by simp
qed simp

lemma isolation_ops_split:
  "isolation_ops worker_id project_root = Unshare # Mount None root_dir None [MS_REC, MS_PRIVATE] None # drop 2 (isolation_ops worker_id project_root)"
  by (simp add: isolation_ops_def Let_def)

text \<open>Whatever fails, nothing is mounted where the host can see it.\<close>

lemma host_unchanged:
  assumes "prefix ops (isolation_ops worker_id project_root)"
  shows "\<not> vw_host_changed (view_after ops)"
proof -
  have "prefix ops (Unshare # Mount None root_dir None [MS_REC, MS_PRIVATE] None # drop 2 (isolation_ops worker_id project_root))"
    using assms isolation_ops_split by metis
  then consider "ops = []" | "ops = [Unshare]" | r where "ops = Unshare # Mount None root_dir None [MS_REC, MS_PRIVATE] None # r"
    by (auto simp: prefix_Cons)
  then show ?thesis
    by cases (simp_all add: view_after_def host_view_def fold_view_host)
qed

section \<open>Properties\<close>



text \<open>Two workers never share a base directory.\<close>

lemma worker_base_eq: "worker_base n = [RootDir, Normal ''run'', Normal ''tach'', Normal (''worker_'' @ show_nat n)]"
proof -
  have "CHR ''/'' \<notin> set (show_nat n)"
  proof
    assume "CHR ''/'' \<in> set (show_nat n)"
    then obtain d where "d < 10" "CHR ''/'' = digit_char d" using show_nat_digits by blast
    then have "(of_char (CHR ''/'') :: nat) = 48 + d" using of_char_digit by metis
    then show False by simp
  qed
  then have "path_ok [RootDir, Normal ''run'', Normal ''tach'', Normal (''worker_'' @ show_nat n)]"
    by (simp add: normal_ok_def)
  from path_of_path_text [OF this] show ?thesis by (simp add: worker_base_def path_text_def)
qed

lemma worker_base_inject: "worker_base m = worker_base n \<longleftrightarrow> m = n"
  by (simp add: worker_base_eq show_nat_inject)

end
