(* ===== verification/Zygote.thy ===== *)
theory Zygote
  imports Environment Isolation Protocol Logcapture Snapshot
begin

text \<open>
  The fork server (\<^verbatim>\<open>zygote.rs\<close>): the functions it gives to Python for snapshots, the start-up, the
  command loop, the worker process from the fork to its exit, and the threads that collect and
  forward results.

  Python and its harness are parameters (what a call returns and what it prints). The result of a
  fork and of making a socket pair is given by the number of the request. A worker is the payload it
  was forked with; the worker process is a function of it. Death signals and signal dispositions have
  no effect in the model. Messages on stderr are left out.
\<close>

section \<open>Snapshots seen from the worker\<close>

record wk_snapshot =
  wk_reset_regions :: "(addr \<times> addr) list"
  wk_snapshot_enabled :: bool

datatype zygote_error =
    StopFailed | SysPath | PytestMissing | DjangoSetup | ModuleInjection | HarnessLoad | SessionInit | SocketClosed
  | SocketPair | SignalSetup | NoCurrentDir | CloneSocket

definition init_snapshot_mode ::
  "bool \<Rightarrow> bool \<Rightarrow> bool \<Rightarrow> string option \<Rightarrow> bool \<Rightarrow> wk_snapshot \<Rightarrow> (zygote_error, bool) result \<times> wk_snapshot" where
  "init_snapshot_mode uffd_ok connect_ok send_ok maps stop_ok st =
     (if \<not> uffd_ok then (Inr False, st)
      else if \<not> connect_ok then (Inr False, st)
      else if \<not> send_ok then (Inr False, st)
      else let st1 = (case parse_memory_maps maps of
                        Some regions \<Rightarrow> st\<lparr>wk_reset_regions :=
                          map (\<lambda>r. (mr_start r, mr_len r)) (filter (\<lambda>r. should_snapshot r \<and> \<not> is_stack r) regions)\<rparr>
                      | None \<Rightarrow> st)
           in if \<not> stop_ok then (Inl StopFailed, st1)
              else (Inr True, st1\<lparr>wk_snapshot_enabled := True\<rparr>))"

text \<open>A region whose \<^verbatim>\<open>madvise\<close> fails keeps its contents.\<close>

definition reset_memory :: "(addr \<times> addr \<Rightarrow> bool) \<Rightarrow> wk_snapshot \<Rightarrow> (addr \<Rightarrow> u8) \<Rightarrow> addr \<Rightarrow> u8" where
  "reset_memory madvise_ok st mem =
     (if \<not> wk_snapshot_enabled st then mem else mem_drop (filter madvise_ok (wk_reset_regions st)) mem)"

section \<open>Start-up\<close>

text \<open>Python as far as the start-up depends on it.\<close>

record pystart =
  ps_sys_path :: "string list"
  ps_path_is_list :: bool
  ps_pytest_ok :: "string list \<Rightarrow> bool"
  ps_django_ok :: bool
  ps_inject_ok :: bool
  ps_harness_ok :: bool
  ps_init_session_ok :: "string \<Rightarrow> bool"

definition extend_sys_path :: "string \<Rightarrow> path option \<Rightarrow> string list \<Rightarrow> string list" where
  "extend_sys_path cwd site_packages sys_path =
     (let p1 = (case site_packages of Some sp \<Rightarrow> path_text sp # sys_path | None \<Rightarrow> sys_path) in cwd # p1)"

definition init_python ::
  "pystart \<Rightarrow> string \<Rightarrow> path option \<Rightarrow> string option \<Rightarrow> (zygote_error, string list) result" where
  "init_python py cwd site_packages target_env =
     (if \<not> ps_path_is_list py then Inl SysPath
      else let sys_path = extend_sys_path cwd site_packages (ps_sys_path py) in
        if \<not> ps_pytest_ok py sys_path then Inl PytestMissing
        else if \<not> ps_django_ok py then Inl DjangoSetup
        else if \<not> ps_inject_ok py then Inl ModuleInjection
        else if \<not> ps_harness_ok py then Inl HarnessLoad
        else if \<not> ps_init_session_ok py (case target_env of Some t \<Rightarrow> t | None \<Rightarrow> cwd) then Inl SessionInit
        else Inr sys_path)"

section \<open>The command loop\<close>

text \<open>The command socket, the one-byte command buffer, the number of forks asked for, and the workers
  forked with their process ids.\<close>

record zyg =
  zy_cmd :: sock
  zy_buf :: u8
  zy_requests :: nat
  zy_workers :: "(u32 \<times> TestPayload) list"

text \<open>\<^verbatim>\<open>read\<close> of one byte: at the end of the stream it returns zero bytes and leaves the buffer as it
  is, which the code takes for a command like any other.\<close>

fun read_cmd :: "zyg \<Rightarrow> bool \<times> zyg" where
  "read_cmd z =
     (case s_in (zy_cmd z) of
        [] \<Rightarrow> (True, z)
      | Byte b # i \<Rightarrow> (True, z\<lparr>zy_buf := b, zy_cmd := (zy_cmd z)\<lparr>s_in := i\<rparr>\<rparr>)
      | Timeout # i \<Rightarrow> (False, z\<lparr>zy_cmd := (zy_cmd z)\<lparr>s_in := i\<rparr>\<rparr>))"

text \<open>What a request to fork gives: whether the socket pair could be made, and the process id.\<close>

type_synonym fork_outcome = "bool \<times> u32 option"

text \<open>A fork command: an error that ends the zygote, or the state to go on with.\<close>

definition handle_fork ::
  "(u8 list \<Rightarrow> TestPayload option) \<Rightarrow> (nat \<Rightarrow> fork_outcome) \<Rightarrow> zyg \<Rightarrow> (zygote_error, zyg) result" where
  "handle_fork de kern z =
     (case read_frame (s_in (zy_cmd z)) of
        (None, i) \<Rightarrow> Inl SocketClosed
      | (Some payload_buf, i) \<Rightarrow>
        (let z1 = z\<lparr>zy_cmd := (zy_cmd z)\<lparr>s_in := i\<rparr>\<rparr> in
         case de payload_buf of
           None \<Rightarrow> Inr z1
         | Some payload \<Rightarrow>
           (let (pair_ok, pid) = kern (zy_requests z1); z2 = z1\<lparr>zy_requests := zy_requests z1 + 1\<rparr> in
            if \<not> pair_ok then Inl SocketPair
            else case pid of
                   None \<Rightarrow> Inr z2
                 | Some child \<Rightarrow>
                   (case write_all (u32_to_le child) (zy_cmd z2) of
                      (False, _) \<Rightarrow> Inl SocketClosed
                    | (True, cmd) \<Rightarrow> Inr (z2\<lparr>zy_cmd := cmd, zy_workers := zy_workers z2 @ [(child, payload)]\<rparr>)))))"

partial_function (option) command_loop ::
  "(u8 list \<Rightarrow> TestPayload option) \<Rightarrow> (nat \<Rightarrow> fork_outcome) \<Rightarrow> zyg \<Rightarrow> (zygote_error, zyg) result option" where
  "command_loop de kern z =
     (let (ok, z1) = read_cmd z in
      if \<not> ok then Some (Inr z1)
      else if zy_buf z1 = CMD_FORK then
        (case handle_fork de kern z1 of
           Inl e \<Rightarrow> Some (Inl e)
         | Inr z2 \<Rightarrow> command_loop de kern z2)
      else if zy_buf z1 = CMD_EXIT then Some (Inr z1)
      else command_loop de kern z1)"

definition entrypoint ::
  "(u8 list \<Rightarrow> TestPayload option) \<Rightarrow> (nat \<Rightarrow> fork_outcome) \<Rightarrow> env_fs \<Rightarrow> pystart \<Rightarrow> bool \<Rightarrow> path option
     \<Rightarrow> string option \<Rightarrow> bool \<Rightarrow> sock \<Rightarrow> (zygote_error, zyg) result option" where
  "entrypoint de kern fs py signal_ok cwd target_env clone_ok cmd_socket =
     (if \<not> signal_ok then Some (Inl SignalSetup)
      else case cwd of
             None \<Rightarrow> Some (Inl NoCurrentDir)
           | Some cwd \<Rightarrow>
             (case init_python py (path_text cwd) (find_site_packages fs cwd) target_env of
                Inl e \<Rightarrow> Some (Inl e)
              | Inr _ \<Rightarrow>
                (case write_all [MSG_READY] cmd_socket of
                   (False, _) \<Rightarrow> Some (Inl SocketClosed)
                 | (True, cmd) \<Rightarrow>
                   if \<not> clone_ok then Some (Inl CloneSocket)
                   else command_loop de kern \<lparr>zy_cmd = cmd, zy_buf = 0, zy_requests = 0, zy_workers = []\<rparr>)))"

section \<open>A worker\<close>

text \<open>The harness runs a test given by file and node id: the status and the message, or an exception,
  and what it did to the open files. The line the worker prints first shows the fixture names
  as \<^verbatim>\<open>{:?}\<close> does for names that need no escapes, as identifiers do.\<close>

type_synonym harness = "string \<Rightarrow> string \<Rightarrow> os \<Rightarrow> (string, u8 \<times> string) result \<times> os"

definition full_node_id :: "TestPayload \<Rightarrow> string" where
  "full_node_id p = tp_file_path p @ ''::'' @ tp_test_name p"

definition executing_line :: "TestPayload \<Rightarrow> string" where
  "executing_line p = ''Executing '' @ full_node_id p @ '' with fixtures ['' @
     str_join '', '' (map (\<lambda>f. [CHR 0x22] @ fi_name f @ [CHR 0x22]) (tp_fixtures p)) @ '']'' @ [CHR 0x0A]"

definition run_worker :: "harness \<Rightarrow> nat \<Rightarrow> TestPayload \<Rightarrow> os \<Rightarrow> TestResult \<times> os" where
  "run_worker run_test elapsed_ns p s =
     (let s1 = sys_write 1 (executing_line p) s;
          (result, s2) = run_test (tp_file_path p) (full_node_id p) s1;
          duration_ns = of_nat elapsed_ns
      in (case result of
            Inr (status, message) \<Rightarrow>
              \<lparr>tr_test_id = tp_test_id p, tr_status = status, tr_duration_ns = duration_ns, tr_message = message\<rparr>
          | Inl e \<Rightarrow>
              \<lparr>tr_test_id = tp_test_id p, tr_status = STATUS_HARNESS_ERROR, tr_duration_ns = duration_ns,
               tr_message = ''PyO3 Error: '' @ e\<rparr>, s2))"

text \<open>The worker after the fork: its exit code, what it wrote to its result socket, and the files.
  Telling the harness the debug socket and the initialisation after the fork are calls into Python whose
  failure is ignored; \<^term>\<open>hygiene\<close> is what they do to the open files.\<close>

definition worker_process ::
  "(u32 \<Rightarrow> bool) \<Rightarrow> (TestPayload \<Rightarrow> os \<Rightarrow> os) \<Rightarrow> harness \<Rightarrow> (TestResult \<Rightarrow> u8 list option) \<Rightarrow> nat
     \<Rightarrow> TestPayload \<Rightarrow> os \<Rightarrow> nat \<times> u8 list \<times> os" where
  "worker_process isolate hygiene run_test ser elapsed_ns p s =
     (if \<not> isolate (tp_test_id p) then (1, [], s)
      else let s1 = (if tp_log_fd p \<ge> 0 then snd (redirect_output (tp_log_fd p) s) else s);
               s2 = hygiene p s1;
               (result, s3) = run_worker run_test elapsed_ns p s2
           in (0, case encode_with_length ser result of Some bytes \<Rightarrow> bytes | None \<Rightarrow> [], s3))"

section \<open>Results\<close>

text \<open>The thread of a worker passes a complete frame on and drops everything else; the forwarding
  thread writes the frames in the order of the channel until a write fails.\<close>

definition collect_worker :: "rd_item list \<Rightarrow> u8 list option" where
  "collect_worker s =
     (case read_exact 4 s of
        (None, _) \<Rightarrow> None
      | (Some len_buf, s1) \<Rightarrow>
        (case read_exact (unat (u32_from_le len_buf)) s1 of
           (None, _) \<Rightarrow> None
         | (Some result_buf, _) \<Rightarrow> Some (len_buf @ result_buf)))"

fun forward_results :: "u8 list list \<Rightarrow> sock \<Rightarrow> sock" where
  "forward_results [] s = s"
| "forward_results (data # rest) s =
     (case write_all data s of (True, s') \<Rightarrow> forward_results rest s' | (False, s') \<Rightarrow> s')"

section \<open>Lemmas\<close>

declare read_cmd.simps [simp del]

lemma read_cmd_byte:
  "s_in (zy_cmd z) = Byte b # i \<Longrightarrow> read_cmd z = (True, z\<lparr>zy_buf := b, zy_cmd := (zy_cmd z)\<lparr>s_in := i\<rparr>\<rparr>)"
  by (simp add: read_cmd.simps)

lemma handle_fork_ok:
  assumes "s_in (zy_cmd z) = enc_frame buf @ i" and "length buf < 2 ^ 32" and "de buf = Some p"
    and "kern (zy_requests z) = (True, Some child)" and "s_wfail (zy_cmd z) = []"
  shows "handle_fork de kern z =
     Inr (z\<lparr>zy_cmd := (zy_cmd z)\<lparr>s_in := i, s_out := s_out (zy_cmd z) @ u32_to_le child\<rparr>,
            zy_requests := zy_requests z + 1, zy_workers := zy_workers z @ [(child, p)]\<rparr>)"
  using assms fr.dec_enc [OF assms(2), of i] by (simp add: handle_fork_def write_all_def Let_def)

lemma collect_worker_frame: "length payload < 2 ^ 32 \<Longrightarrow> collect_worker (map Byte (frame payload) @ s) = Some (frame payload)"
proof -
  assume l: "length payload < 2 ^ 32"
  have "read_exact 4 (map Byte (frame payload) @ s) =
      (Some (u32_to_le (of_nat (length payload))), map Byte payload @ s)"
    using read_exact_bytes [of "u32_to_le (of_nat (length payload))" "map Byte payload @ s"] by (simp add: frame_def)
  with l show ?thesis
    by (simp add: collect_worker_def unat_of_nat_u32 read_exact_bytes frame_def)
qed

lemma forward_results_out: "s_wfail s = [] \<Longrightarrow> s_out (forward_results ds s) = s_out s @ concat ds"
  by (induction ds arbitrary: s) (simp_all add: write_all_def)

lemma fork_command:
  assumes "s_in (zy_cmd z) = Byte CMD_FORK # enc_frame buf @ i" and "length buf < 2 ^ 32" and "de buf = Some p"
    and "kern (zy_requests z) = (True, Some child)" and "s_wfail (zy_cmd z) = []"
  shows "command_loop de kern z = command_loop de kern
     (z\<lparr>zy_buf := CMD_FORK, zy_cmd := (zy_cmd z)\<lparr>s_in := i, s_out := s_out (zy_cmd z) @ u32_to_le child\<rparr>,
        zy_requests := zy_requests z + 1, zy_workers := zy_workers z @ [(child, p)]\<rparr>)"
proof -
  let ?z = "z\<lparr>zy_buf := CMD_FORK, zy_cmd := (zy_cmd z)\<lparr>s_in := enc_frame buf @ i\<rparr>\<rparr>"
  have "handle_fork de kern ?z =
     Inr (?z\<lparr>zy_cmd := (zy_cmd ?z)\<lparr>s_in := i, s_out := s_out (zy_cmd ?z) @ u32_to_le child\<rparr>,
            zy_requests := zy_requests ?z + 1, zy_workers := zy_workers ?z @ [(child, p)]\<rparr>)"
    using assms by (intro handle_fork_ok) simp_all
  then show ?thesis
    by (subst command_loop.simps) (simp add: read_cmd_byte [OF assms(1)])
qed

lemma exit_command:
  assumes "s_in (zy_cmd z) = Byte CMD_EXIT # i"
  shows "command_loop de kern z = Some (Inr (z\<lparr>zy_buf := CMD_EXIT, zy_cmd := (zy_cmd z)\<lparr>s_in := i\<rparr>\<rparr>))"
  by (subst command_loop.simps) (simp add: read_cmd_byte [OF assms] cmd_defs)

lemma unknown_command:
  assumes "s_in (zy_cmd z) = Byte b # i" and "b \<noteq> CMD_FORK" and "b \<noteq> CMD_EXIT"
  shows "command_loop de kern z = command_loop de kern (z\<lparr>zy_buf := b, zy_cmd := (zy_cmd z)\<lparr>s_in := i\<rparr>\<rparr>)"
  by (subst command_loop.simps) (simp add: read_cmd_byte [OF assms(1)] assms(2,3))

text \<open>The commands of a supervisor: fork commands and then an exit.\<close>

definition fork_commands :: "u8 list list \<Rightarrow> rd_item list" where
  "fork_commands bufs = concat (map (\<lambda>buf. Byte CMD_FORK # enc_frame buf) bufs)"

lemma command_loop_forks:
  assumes "list_all2 (\<lambda>buf p. length buf < 2 ^ 32 \<and> de buf = Some p) bufs ps"
    and "\<forall>n. kern n = (True, Some (pid n))" and "s_wfail (zy_cmd z) = []"
    and "s_in (zy_cmd z) = fork_commands bufs @ Byte CMD_EXIT # i"
  shows "\<exists>z'. command_loop de kern z = Some (Inr z') \<and>
     zy_workers z' = zy_workers z @ zip (map pid [zy_requests z..<zy_requests z + length ps]) ps \<and>
     s_out (zy_cmd z') = s_out (zy_cmd z) @ concat (map (u32_to_le \<circ> pid) [zy_requests z..<zy_requests z + length ps]) \<and>
     s_in (zy_cmd z') = i"
  using assms(1,3,4)
proof (induction bufs ps arbitrary: z rule: list_all2_induct)
  case Nil
  then show ?case by (simp add: fork_commands_def exit_command)
next
  case (Cons buf bufs p ps)
  let ?z = "z\<lparr>zy_buf := CMD_FORK, zy_cmd := (zy_cmd z)\<lparr>s_in := fork_commands bufs @ Byte CMD_EXIT # i,
      s_out := s_out (zy_cmd z) @ u32_to_le (pid (zy_requests z))\<rparr>,
      zy_requests := zy_requests z + 1, zy_workers := zy_workers z @ [(pid (zy_requests z), p)]\<rparr>"
  have step: "command_loop de kern z = command_loop de kern ?z"
    using Cons.prems Cons.hyps(1) assms(2) by (intro fork_command) (auto simp: fork_commands_def)
  have up: "[zy_requests z..<zy_requests z + length (p # ps)] =
      zy_requests z # [Suc (zy_requests z)..<Suc (zy_requests z) + length ps]"
    by (simp add: upt_rec)
  from Cons.IH [of ?z] Cons.prems step up show ?case by (auto simp del: upt_Suc)
qed

section \<open>Properties\<close>

text \<open>C23: The zygote serves its commands in order: it forks one worker for each fork command, with the
  payload of that command, answers each with the process id of the worker, and stops at the exit
  command, leaving what follows unread.\<close>

theorem zygote_serves_commands:
  assumes "list_all2 (\<lambda>buf p. length buf < 2 ^ 32 \<and> de buf = Some p) bufs ps"
    and "\<forall>n. kern n = (True, Some (pid n))"
    and "cmd = \<lparr>s_out = [], s_wfail = [], s_in = fork_commands bufs @ Byte CMD_EXIT # i\<rparr>"
    and "init_python py (path_text cwd) (find_site_packages fs cwd) target = Inr sys_path"
  shows "\<exists>z. entrypoint de kern fs py True (Some cwd) target True cmd = Some (Inr z) \<and>
     map snd (zy_workers z) = ps \<and> map fst (zy_workers z) = map pid [0..<length ps] \<and>
     s_out (zy_cmd z) = MSG_READY # concat (map u32_to_le (map fst (zy_workers z))) \<and> s_in (zy_cmd z) = i"
proof -
  let ?z = "\<lparr>zy_cmd = cmd\<lparr>s_out := [MSG_READY]\<rparr>, zy_buf = 0, zy_requests = 0, zy_workers = []\<rparr>"
  obtain z where z: "command_loop de kern ?z = Some (Inr z)"
      "zy_workers z = zip (map pid [0..<length ps]) ps"
      "s_out (zy_cmd z) = [MSG_READY] @ concat (map (u32_to_le \<circ> pid) [0..<length ps])" "s_in (zy_cmd z) = i"
    using command_loop_forks [OF assms(1,2), of ?z i] assms(3) by auto
  have "entrypoint de kern fs py True (Some cwd) target True cmd = command_loop de kern ?z"
    using assms(3,4) by (simp add: entrypoint_def write_all_def)
  moreover have "map (u32_to_le \<circ> pid) [0..<length ps] = map u32_to_le (map fst (zip (map pid [0..<length ps]) ps))" by simp
  ultimately show ?thesis using z by (simp del: map_map)
qed

definition ex_pystart :: pystart where
  "ex_pystart = \<lparr>ps_sys_path = [], ps_path_is_list = True, ps_pytest_ok = (\<lambda>_. True), ps_django_ok = True, ps_inject_ok = True,
     ps_harness_ok = True, ps_init_session_ok = (\<lambda>_. True)\<rparr>"

definition ex_env_fs :: env_fs where
  "ex_env_fs = \<lparr>ef_virtual_env = None, ef_exists = (\<lambda>_. False), ef_is_dir = (\<lambda>_. False), ef_read_dir = (\<lambda>_. None)\<rparr>"

definition ex_payload :: TestPayload where
  "ex_payload = \<lparr>tp_test_id = 4, tp_file_path = ''t.py'', tp_test_name = ''test_x'', tp_is_async = False, tp_fixtures = [],
     tp_log_fd = - 1, tp_debug_socket_path = []\<rparr>"

theorem zygote_serves_commands_witness:
  "\<exists>z. entrypoint (\<lambda>buf. if buf = [5] then Some ex_payload else None) (\<lambda>n. (True, Some (of_nat n + 100))) ex_env_fs
       ex_pystart True (Some [RootDir]) None True
       \<lparr>s_out = [], s_wfail = [], s_in = fork_commands [[5], [5]] @ [Byte CMD_EXIT]\<rparr> = Some (Inr z) \<and>
     map snd (zy_workers z) = [ex_payload, ex_payload]"
proof -
  have l: "list_all2 (\<lambda>buf p. length buf < 2 ^ 32 \<and> (if buf = [5] then Some ex_payload else None) = Some p)
      [[5], [5]] [ex_payload, ex_payload]" by simp
  have i: "init_python ex_pystart (path_text [RootDir]) (find_site_packages ex_env_fs [RootDir]) None =
      Inr (extend_sys_path (path_text [RootDir]) (find_site_packages ex_env_fs [RootDir]) [])"
    by (simp add: init_python_def ex_pystart_def)
  have k: "\<forall>n. (\<lambda>n. (True, Some (of_nat n + 100))) n = (True, Some ((\<lambda>n. of_nat n + 100) n))" by simp
  obtain z where "entrypoint (\<lambda>buf. if buf = [5] then Some ex_payload else None) (\<lambda>n. (True, Some (of_nat n + 100))) ex_env_fs
       ex_pystart True (Some [RootDir]) None True
       \<lparr>s_out = [], s_wfail = [], s_in = fork_commands [[5], [5]] @ [Byte CMD_EXIT]\<rparr> = Some (Inr z)"
     "map snd (zy_workers z) = [ex_payload, ex_payload]"
    using zygote_serves_commands [OF l k refl i, of "[]"] by (elim exE conjE)
  then show ?thesis by (intro exI conjI)
qed

text \<open>A byte that is no command makes the zygote spin when the stream then ends: the read returns
  zero bytes and leaves the byte in the buffer, and the loop goes on forever.\<close>

lemma zygote_spins_after_unknown_byte:
  assumes "s_in (zy_cmd z) = [Byte b]" and "b \<noteq> CMD_FORK" and "b \<noteq> CMD_EXIT"
  shows "command_loop de kern z = None"
proof -
  let ?spin = "\<lambda>z. s_in (zy_cmd z) = [] \<and> zy_buf z \<noteq> CMD_FORK \<and> zy_buf z \<noteq> CMD_EXIT"
  have "\<not> ?spin z'" if "command_loop de kern z' = Some y" for z' y
  proof (rule command_loop.raw_induct [where P = "\<lambda>d k z y. \<not> ?spin z", OF _ that])
    fix f d k z y
    assume IH: "\<And>d k z y. f d k z = Some y \<Longrightarrow> \<not> ?spin z"
      and eq: "(let (ok, z1) = read_cmd z in if \<not> ok then Some (Inr z1)
         else if zy_buf z1 = CMD_FORK then (case handle_fork d k z1 of Inl e \<Rightarrow> Some (Inl e) | Inr z2 \<Rightarrow> f d k z2)
         else if zy_buf z1 = CMD_EXIT then Some (Inr z1) else f d k z1) = Some y"
    show "\<not> ?spin z"
    proof
      assume spin: "?spin z"
      then have "read_cmd z = (True, z)" by (simp add: read_cmd.simps)
      with eq spin have "f d k z = Some y" by simp
      with IH spin show False by blast
    qed
  qed
  then have "command_loop de kern (z\<lparr>zy_buf := b, zy_cmd := (zy_cmd z)\<lparr>s_in := []\<rparr>\<rparr>) = None"
    using assms(2,3) by fastforce
  with unknown_command [OF assms] show ?thesis by simp
qed

text \<open>What a worker has to say, if its isolation worked.\<close>

definition worker_outcome ::
  "(u32 \<Rightarrow> bool) \<Rightarrow> (TestPayload \<Rightarrow> os \<Rightarrow> os) \<Rightarrow> harness \<Rightarrow> nat \<Rightarrow> TestPayload \<Rightarrow> os \<Rightarrow> TestResult option" where
  "worker_outcome isolate hygiene run_test elapsed_ns p s =
     (if \<not> isolate (tp_test_id p) then None
      else Some (fst (run_worker run_test elapsed_ns p
        (hygiene p (if tp_log_fd p \<ge> 0 then snd (redirect_output (tp_log_fd p) s) else s)))))"

lemma run_worker_id: "tr_test_id (fst (run_worker run_test n p k)) = tp_test_id p"
  by (auto simp: run_worker_def Let_def split: prod.split sum.split)

lemma worker_process_out:
  "fst (snd (worker_process isolate hygiene run_test ser n p s)) =
     (case worker_outcome isolate hygiene run_test n p s of
        None \<Rightarrow> [] | Some r \<Rightarrow> (case ser r of None \<Rightarrow> [] | Some b \<Rightarrow> frame b))"
  by (auto simp: worker_process_def worker_outcome_def encode_with_length_def frame_def Let_def
      split: prod.split option.split)

lemma collect_worker_out:
  assumes "\<forall>r. worker_outcome isolate hygiene run_test n p s = Some r \<longrightarrow> (\<exists>b. ser r = Some b \<and> length b < 2 ^ 32)"
  shows "collect_worker (map Byte (fst (snd (worker_process isolate hygiene run_test ser n p s)))) =
     map_option (\<lambda>r. frame (the (ser r))) (worker_outcome isolate hygiene run_test n p s)"
proof (cases "worker_outcome isolate hygiene run_test n p s")
  case None
  then show ?thesis by (simp add: worker_process_out collect_worker_def numeral_eq_Suc)
next
  case (Some r)
  with assms obtain b where "ser r = Some b" "length b < 2 ^ 32" by auto
  with Some collect_worker_frame [of b "[]"] show ?thesis by (simp add: worker_process_out)
qed

text \<open>Results reach the supervisor: reading frames from what the zygote forwards gives exactly the
  results of the workers whose isolation worked, in the order in which their threads passed them on,
  each with the id, status and message its test had; a worker that was not isolated sends nothing and
  no test code runs in it.\<close>

lemma worker_results_reach_supervisor:
  assumes ok: "\<forall>(p, s)\<in>set ws. \<forall>r. worker_outcome isolate hygiene run_test n p s = Some r \<longrightarrow>
       (\<exists>b. ser r = Some b \<and> length b < 2 ^ 32 \<and> de b = Some r)"
    and sock: "s_wfail sock = []" "s_out sock = []"
    and frames: "frames = List.map_filter (\<lambda>(p, s). collect_worker
        (map Byte (fst (snd (worker_process isolate hygiene run_test ser n p s))))) ws"
    and rs: "rs = List.map_filter (\<lambda>(p, s). worker_outcome isolate hygiene run_test n p s) ws"
  shows "\<exists>bs. decode_n read_frame (length rs) (map Byte (s_out (forward_results frames sock)) @ rest) = (bs, rest) \<and>
     map de bs = map Some rs"
proof -
  have "frames = map (\<lambda>r. frame (the (ser r))) rs"
    unfolding frames rs using ok
  proof (induction ws)
    case (Cons w ws)
    obtain p s where w: "w = (p, s)" by fastforce
    have "collect_worker (map Byte (fst (snd (worker_process isolate hygiene run_test ser n p s)))) =
        map_option (\<lambda>r. frame (the (ser r))) (worker_outcome isolate hygiene run_test n p s)"
      using Cons.prems w by (intro collect_worker_out) fastforce
    with Cons w show ?case by (cases "worker_outcome isolate hygiene run_test n p s") (simp_all add: map_filter_simps)
  qed (simp add: map_filter_simps)
  then have out: "map Byte (s_out (forward_results frames sock)) = concat (map enc_frame (map (\<lambda>r. the (ser r)) rs))"
    using sock by (simp add: forward_results_out map_concat enc_frame_def comp_def)
  have all: "\<exists>b. ser r = Some b \<and> length b < 2 ^ 32 \<and> de b = Some r" if "r \<in> set rs" for r
  proof -
    from that obtain w where "w \<in> set ws" "(case w of (p, s) \<Rightarrow> worker_outcome isolate hygiene run_test n p s) = Some r"
      unfolding rs List.map_filter_def by auto
    with ok show ?thesis by (cases w) fastforce
  qed
  then have "decode_n read_frame (length (map (\<lambda>r. the (ser r)) rs)) (concat (map enc_frame (map (\<lambda>r. the (ser r)) rs)) @ rest) =
      (map (\<lambda>r. the (ser r)) rs, rest)"
    by (intro fr.decode_stream) (fastforce simp: list_all_iff)
  moreover have "map de (map (\<lambda>r. the (ser r)) rs) = map Some rs" using all by fastforce
  ultimately show ?thesis unfolding out by (intro exI [of _ "map (\<lambda>r. the (ser r)) rs"]) simp
qed

definition ex_harness :: harness where
  "ex_harness path node s = (Inr (1, ''assert 0''), s)"

text \<open>Resetting drops exactly the cached regions, never the stack, once a snapshot was made.\<close>

lemma reset_memory_exact:
  assumes "init_snapshot_mode True True True (Some c) True st = (Inr True, st')"
  shows "reset_memory madvise_ok st' mem a =
     (if \<exists>r\<in>set (the (parse_memory_maps (Some c))). should_snapshot r \<and> \<not> is_stack r \<and>
          madvise_ok (mr_start r, mr_len r) \<and> a - mr_start r < mr_len r then 0 else mem a)"
  using assms
  by (auto simp: init_snapshot_mode_def parse_memory_maps_def reset_memory_def mem_drop_def list_ex_iff Let_def)

text \<open>The project root comes before the virtual environment in the search path.\<close>

lemma sys_path_order: "extend_sys_path cwd (Some sp) ps = [cwd, path_text sp] @ ps"
  by (simp add: extend_sys_path_def)

end
