(* ===== verification/System.thy ===== *)
theory System
  imports Scheduler Zygote
begin

text \<open>
  The whole system at work: the supervisor (\<^verbatim>\<open>scheduler.rs\<close>), the command loop of the zygote, the
  workers it forks, the thread that collects the result of each worker and the thread that forwards
  the results (\<^verbatim>\<open>zygote.rs\<close>), running at the same time. A step of the system is a step of one of them, up to
  its next blocking call; the steps are made of the definitions of the scheduler and of the zygote. The
  sockets connect them: what one side writes is what the other can read, and a read goes on when
  the bytes it needs are there.

  The start is the state after the zygote has said that it is ready. There are three relations: the steps of a
  system in which nothing dies and no answer is late, these with the death of workers, and these with
  everything that depends on time or on a signal (reads that time out, stale workers, the deadline, the request to
  shut down, the loss of the zygote). Time is left open: the deadline can pass at any moment of the last loop. The
  forwarding thread writes a frame at once. The log files are those of the supervisor only.
\<close>

section \<open>Sending a test and waiting for the process id\<close>

text \<open>\<^verbatim>\<open>dispatch_test\<close> blocks between its two halves: it sends the command and waits for the answer.\<close>

definition dispatch_send ::
  "(TestPayload \<Rightarrow> u8 list option) \<Rightarrow> RunnableTest \<Rightarrow> u32 \<Rightarrow> nat \<Rightarrow> Scheduler
     \<Rightarrow> (dispatch_error, unit) result \<times> Scheduler" where
  "dispatch_send ser test test_id slot s =
     (case ser (test_payload s test test_id slot) of
        None \<Rightarrow> (Inl SerializeFailed, s)
      | Some payload_bytes \<Rightarrow>
        (let len = of_nat (length payload_bytes) :: u32;
             (ok, cmd) = write_each [[CMD_FORK], u32_to_le len, payload_bytes] (sc_cmd_socket s) in
         if \<not> ok then (Inl WriteFailed, s\<lparr>sc_cmd_socket := cmd\<rparr>)
         else (Inr (), s\<lparr>sc_cmd_socket := cmd\<rparr>)))"

definition dispatch_confirm ::
  "RunnableTest \<Rightarrow> u32 \<Rightarrow> nat \<Rightarrow> Scheduler \<Rightarrow> (dispatch_error, unit) result \<times> Scheduler" where
  "dispatch_confirm test test_id slot s =
     (case read_exact 4 (s_in (sc_cmd_socket s)) of
        (None, rest) \<Rightarrow> (Inl ReadPidFailed, s\<lparr>sc_cmd_socket := (sc_cmd_socket s)\<lparr>s_in := rest\<rparr>\<rparr>)
      | (Some pid_buf, rest) \<Rightarrow>
        (let (now, s') = instant_now (s\<lparr>sc_cmd_socket := (sc_cmd_socket s)\<lparr>s_in := rest\<rparr>\<rparr>) in
         (Inr (), s'\<lparr>sc_active_workers :=
            hm_insert test_id \<lparr>aw_test_name = rt_test_name test, aw_slot = slot, aw_start_time = now\<rparr>
              (sc_active_workers s')\<rparr>)))"

lemma dispatch_test_split:
  "dispatch_test ser test test_id slot s =
     (case dispatch_send ser test test_id slot s of
        (Inl e, s') \<Rightarrow> (Inl e, s')
      | (Inr _, s') \<Rightarrow> dispatch_confirm test test_id slot s')"
  by (simp add: dispatch_test_def dispatch_send_def dispatch_confirm_def Let_def
      split: option.split prod.split del: write_each.simps)

section \<open>The state of the system\<close>

text \<open>What the repository does not contain: the serializers, the text of errors, the outcomes of the
  kernel, the isolation of a worker, what Python does after a fork, and the harness.\<close>

record components =
  cp_ser :: "TestPayload \<Rightarrow> u8 list option"
  cp_de_payload :: "u8 list \<Rightarrow> TestPayload option"
  cp_ser_result :: "TestResult \<Rightarrow> u8 list option"
  cp_de :: "u8 list \<Rightarrow> TestResult option"
  cp_err_text :: "dispatch_error \<Rightarrow> string"
  cp_kern :: "nat \<Rightarrow> fork_outcome"
  cp_isolate :: "u32 \<Rightarrow> bool"
  cp_hygiene :: "TestPayload \<Rightarrow> os \<Rightarrow> os"
  cp_run_test :: harness

text \<open>Where the supervisor is: in one of its loops, in the read of a process id, or after its run.\<close>

datatype sup_phase = Looping | Waiting u32 RunnableTest nat | Finished

text \<open>A worker with its thread: it runs, it has ended and what it wrote can be read, its result was
  passed on to the channel, or its thread ended without a result.\<close>

datatype job = JRunning TestPayload | JWritten "u8 list" | JPassed | JLost

record system =
  sy_phase :: sup_phase
  sy_queue :: "(u32 \<times> RunnableTest) list"
  sy_run :: running
  sy_start :: nat
  sy_zyg :: zyg
  sy_jobs :: "job list"
  sy_channel :: "u8 list list"
  sy_result :: sock
  sy_forwarding :: bool
  sy_alive :: bool

definition system_start :: "RunnableTest list \<Rightarrow> Scheduler \<Rightarrow> system" where
  "system_start tests s0 =
     \<lparr>sy_phase = Looping, sy_queue = enumerate_tests tests, sy_run = run_init tests s0,
      sy_start = sc_clock s0 (sc_tick s0),
      sy_zyg = \<lparr>zy_cmd = \<lparr>s_out = [MSG_READY], s_wfail = [], s_in = []\<rparr>, zy_buf = 0, zy_requests = 0, zy_workers = []\<rparr>,
      sy_jobs = [], sy_channel = [], sy_result = \<lparr>s_out = [], s_wfail = [], s_in = []\<rparr>,
      sy_forwarding = True, sy_alive = True\<rparr>"

text \<open>The bytes a socket gained are delivered to the other end.\<close>

definition deliver :: "sock \<Rightarrow> sock \<Rightarrow> rd_item list \<Rightarrow> rd_item list" where
  "deliver old new peer_in = peer_in @ map Byte (drop (length (s_out old)) (s_out new))"

definition to_zygote :: "Scheduler \<Rightarrow> Scheduler \<Rightarrow> zyg \<Rightarrow> zyg" where
  "to_zygote old new z =
     z\<lparr>zy_cmd := (zy_cmd z)\<lparr>s_in := deliver (sc_cmd_socket old) (sc_cmd_socket new) (s_in (zy_cmd z))\<rparr>\<rparr>"

definition to_supervisor :: "zyg \<Rightarrow> zyg \<Rightarrow> running \<Rightarrow> running" where
  "to_supervisor old new r =
     r\<lparr>rn_sched := (rn_sched r)\<lparr>sc_cmd_socket := (sc_cmd_socket (rn_sched r))\<lparr>
         s_in := deliver (zy_cmd old) (zy_cmd new) (s_in (sc_cmd_socket (rn_sched r)))\<rparr>\<rparr>\<rparr>"

definition to_results :: "sock \<Rightarrow> sock \<Rightarrow> running \<Rightarrow> running" where
  "to_results old new r =
     r\<lparr>rn_sched := (rn_sched r)\<lparr>sc_result_socket := deliver old new (sc_result_socket (rn_sched r))\<rparr>\<rparr>"

section \<open>The steps\<close>

text \<open>The supervisor.\<close>

definition at_capacity :: "running \<Rightarrow> bool" where
  "at_capacity r \<longleftrightarrow> sc_max_workers (rn_sched r) \<le> length (sc_active_workers (rn_sched r))"

definition tick_now :: "running \<Rightarrow> running" where
  "tick_now r = r\<lparr>rn_sched := snd (instant_now (rn_sched r))\<rparr>"

inductive sup_step :: "components \<Rightarrow> RunnableTest list \<Rightarrow> system \<Rightarrow> system \<Rightarrow> bool" for C tests where
  send: "sup_step C tests st
     (st\<lparr>sy_phase := Waiting i t slot, sy_queue := q, sy_run := r\<lparr>rn_sched := s\<rparr>,
         sy_zyg := to_zygote (rn_sched r) s (sy_zyg st)\<rparr>)"
  if "sy_phase st = Looping" and "sy_queue st = (i, t) # q" and "\<not> at_capacity (sy_run st)"
    and "slot = unat i mod sc_max_workers (rn_sched (sy_run st))"
    and "r = report_event (TestStart (rt_test_name t) (path_text (rt_file_path t))) (sy_run st)"
    and "dispatch_send (cp_ser C) t i slot (rn_sched r) = (Inr (), s)"
| send_failed: "sup_step C tests st
     (st\<lparr>sy_queue := q,
         sy_run := count_result (rt_test_name t, ''fail'', 0, Some (cp_err_text C e)) (r\<lparr>rn_sched := s\<rparr>),
         sy_zyg := to_zygote (rn_sched r) s (sy_zyg st)\<rparr>)"
  if "sy_phase st = Looping" and "sy_queue st = (i, t) # q" and "\<not> at_capacity (sy_run st)"
    and "slot = unat i mod sc_max_workers (rn_sched (sy_run st))"
    and "r = report_event (TestStart (rt_test_name t) (path_text (rt_file_path t))) (sy_run st)"
    and "dispatch_send (cp_ser C) t i slot (rn_sched r) = (Inl e, s)"
| confirm: "sup_step C tests st (st\<lparr>sy_phase := Looping, sy_run := (sy_run st)\<lparr>rn_sched := s\<rparr>\<rparr>)"
  if "sy_phase st = Waiting i t slot" and "dispatch_confirm t i slot (rn_sched (sy_run st)) = (Inr (), s)"
| collect_for_slot: "sup_step C tests st (st\<lparr>sy_run := count_result rep ((sy_run st)\<lparr>rn_sched := s\<rparr>)\<rparr>)"
  if "sy_phase st = Looping" and "sy_queue st \<noteq> []" and "at_capacity (sy_run st)"
    and "try_collect_result_for_reporter (cp_de C) (rn_sched (sy_run st)) = (Some rep, s)"
| collect_rest: "sup_step C tests st (st\<lparr>sy_run := count_result rep ((tick_now (sy_run st))\<lparr>rn_sched := s\<rparr>)\<rparr>)"
  if "sy_phase st = Looping" and "sy_queue st = []" and "rn_collected (sy_run st) < length tests"
    and "try_collect_result_for_reporter (cp_de C) (rn_sched (tick_now (sy_run st))) = (Some rep, s)"
| finish: "sup_step C tests st
     (st\<lparr>sy_phase := Finished,
         sy_run := report_event (RunFinished (rn_passed r) (rn_failed r) 0
           (of_nat ((sc_clock (rn_sched r) (sc_tick (rn_sched r)) - sy_start st) div 1000000))) (r\<lparr>rn_sched := s\<rparr>),
         sy_zyg := to_zygote (rn_sched (tick_now r)) s (sy_zyg st)\<rparr>)"
  if "sy_phase st = Looping" and "sy_queue st = []" and "r = sy_run st" and "\<not> rn_collected r < length tests"
    and "sched_shutdown (rn_sched (tick_now r)) = (ok, s)"

text \<open>The command loop of the zygote. A fork command is served when its frame has arrived.\<close>

definition new_jobs :: "zyg \<Rightarrow> zyg \<Rightarrow> job list" where
  "new_jobs old new = map (\<lambda>w. JRunning (snd w)) (drop (length (zy_workers old)) (zy_workers new))"

inductive zyg_step :: "components \<Rightarrow> system \<Rightarrow> system \<Rightarrow> bool" for C where
  serve: "zyg_step C st
     (st\<lparr>sy_zyg := z', sy_jobs := sy_jobs st @ new_jobs z z', sy_run := to_supervisor z z' (sy_run st)\<rparr>)"
  if "sy_alive st" and "s_in (zy_cmd (sy_zyg st)) \<noteq> []" and "read_cmd (sy_zyg st) = (True, z)" and "zy_buf z = CMD_FORK"
    and "fst (read_frame (s_in (zy_cmd z))) \<noteq> None" and "handle_fork (cp_de_payload C) (cp_kern C) z = Inr z'"
| give_up: "zyg_step C st (st\<lparr>sy_zyg := z, sy_alive := False\<rparr>)"
  if "sy_alive st" and "s_in (zy_cmd (sy_zyg st)) \<noteq> []" and "read_cmd (sy_zyg st) = (True, z)" and "zy_buf z = CMD_FORK"
    and "fst (read_frame (s_in (zy_cmd z))) \<noteq> None" and "handle_fork (cp_de_payload C) (cp_kern C) z = Inl e"
| leave: "zyg_step C st (st\<lparr>sy_zyg := z, sy_alive := False\<rparr>)"
  if "sy_alive st" and "s_in (zy_cmd (sy_zyg st)) \<noteq> []" and "read_cmd (sy_zyg st) = (True, z)" and "zy_buf z = CMD_EXIT"
| ignore: "zyg_step C st (st\<lparr>sy_zyg := z\<rparr>)"
  if "sy_alive st" and "s_in (zy_cmd (sy_zyg st)) \<noteq> []" and "read_cmd (sy_zyg st) = (True, z)"
    and "zy_buf z \<noteq> CMD_FORK" and "zy_buf z \<noteq> CMD_EXIT"

text \<open>A worker runs its test and exits; its thread then reads its socket to the end.\<close>

inductive job_step :: "components \<Rightarrow> system \<Rightarrow> system \<Rightarrow> bool" for C where
  run: "job_step C st (st\<lparr>sy_jobs := (sy_jobs st)[i := JWritten
     (fst (snd (worker_process (cp_isolate C) (cp_hygiene C) (cp_run_test C) (cp_ser_result C) elapsed_ns p s)))]\<rparr>)"
  if "sy_alive st" and "i < length (sy_jobs st)" and "sy_jobs st ! i = JRunning p"
| pass: "job_step C st (st\<lparr>sy_jobs := (sy_jobs st)[i := JPassed], sy_channel := sy_channel st @ [full]\<rparr>)"
  if "sy_alive st" and "i < length (sy_jobs st)" and "sy_jobs st ! i = JWritten bs"
    and "collect_worker (map Byte bs) = Some full"
| lose: "job_step C st (st\<lparr>sy_jobs := (sy_jobs st)[i := JLost]\<rparr>)"
  if "sy_alive st" and "i < length (sy_jobs st)" and "sy_jobs st ! i = JWritten bs" and "collect_worker (map Byte bs) = None"

text \<open>A worker can be killed at any time: what it wrote until then stays readable.\<close>

inductive die_step :: "components \<Rightarrow> system \<Rightarrow> system \<Rightarrow> bool" for C where
  die: "die_step C st (st\<lparr>sy_jobs := (sy_jobs st)[i := JWritten (take k
     (fst (snd (worker_process (cp_isolate C) (cp_hygiene C) (cp_run_test C) (cp_ser_result C) elapsed_ns p s))))]\<rparr>)"
  if "sy_alive st" and "i < length (sy_jobs st)" and "sy_jobs st ! i = JRunning p"

text \<open>The forwarding thread ends at the first write that fails.\<close>

inductive fwd_step :: "system \<Rightarrow> system \<Rightarrow> bool" where
  forward: "fwd_step st (st\<lparr>sy_channel := cs, sy_result := out, sy_forwarding := ok,
      sy_run := to_results (sy_result st) out (sy_run st)\<rparr>)"
  if "sy_alive st" and "sy_forwarding st" and "sy_channel st = c # cs" and "write_all c (sy_result st) = (ok, out)"

text \<open>
  The other branches of the supervisor's loops: the request to shut down, an attempt to collect that gives no
  result, after which the last loop looks for stale workers, the deadline, and a process id that does not come
  because the zygote is gone.
\<close>

inductive late_step :: "components \<Rightarrow> RunnableTest list \<Rightarrow> system \<Rightarrow> system \<Rightarrow> bool" for C tests where
  shutdown: "late_step C tests st (st\<lparr>sy_queue := [], sy_run := report_event (ErrorEvent ''Shutdown requested'') (sy_run st)\<rparr>)"
  if "sy_phase st = Looping" and "sy_queue st \<noteq> []"
| miss_for_slot: "late_step C tests st (st\<lparr>sy_run := (sy_run st)\<lparr>rn_sched := s\<rparr>\<rparr>)"
  if "sy_phase st = Looping" and "sy_queue st \<noteq> []" and "at_capacity (sy_run st)"
    and "try_collect_result_for_reporter (cp_de C) (rn_sched (sy_run st)) = (None, s)"
| miss_rest: "late_step C tests st (st\<lparr>sy_run := collect_step (cp_de C) (tick_now (sy_run st))\<rparr>)"
  if "sy_phase st = Looping" and "sy_queue st = []" and "rn_collected (sy_run st) < length tests"
    and "try_collect_result_for_reporter (cp_de C) (rn_sched (tick_now (sy_run st))) = (None, s)"
| deadline: "late_step C tests st
     (st\<lparr>sy_phase := Finished,
         sy_run := report_event (RunFinished (rn_passed r) (rn_failed r) 0
           (of_nat ((sc_clock (rn_sched r) (sc_tick (rn_sched r)) - sy_start st) div 1000000))) (r\<lparr>rn_sched := s\<rparr>),
         sy_zyg := to_zygote (rn_sched (tick_now r)) s (sy_zyg st)\<rparr>)"
  if "sy_phase st = Looping" and "sy_queue st = []" and "r = tick_now (sy_run st)" and "rn_collected r < length tests"
    and "sched_shutdown (rn_sched (tick_now r)) = (ok, s)"
| confirm_failed: "late_step C tests st
     (st\<lparr>sy_phase := Looping,
         sy_run := count_result (rt_test_name t, ''fail'', 0, Some (cp_err_text C e)) ((sy_run st)\<lparr>rn_sched := s\<rparr>)\<rparr>)"
  if "sy_phase st = Waiting i t slot" and "\<not> sy_alive st" and "dispatch_confirm t i slot (rn_sched (sy_run st)) = (Inl e, s)"

definition system_step :: "components \<Rightarrow> RunnableTest list \<Rightarrow> system \<Rightarrow> system \<Rightarrow> bool" where
  "system_step C tests st st' \<longleftrightarrow> sup_step C tests st st' \<or> zyg_step C st st' \<or> job_step C st st' \<or> fwd_step st st'"

definition crashing_step :: "components \<Rightarrow> RunnableTest list \<Rightarrow> system \<Rightarrow> system \<Rightarrow> bool" where
  "crashing_step C tests st st' \<longleftrightarrow> system_step C tests st st' \<or> die_step C st st'"

definition any_step :: "components \<Rightarrow> RunnableTest list \<Rightarrow> system \<Rightarrow> system \<Rightarrow> bool" where
  "any_step C tests st st' \<longleftrightarrow> crashing_step C tests st st' \<or> late_step C tests st st'"


inductive_cases sup_stepE: "sup_step C tests st st'"
inductive_cases job_stepE: "job_step C st st'"
inductive_cases die_stepE: "die_step C st st'"
inductive_cases fwd_stepE: "fwd_step st st'"

text \<open>The steps of the zygote are the iterations of its command loop.\<close>

lemma served_as_in_loop:
  assumes "read_cmd zs = (True, z)" and "zy_buf z = CMD_FORK" and "handle_fork de kern z = Inr z'"
  shows "command_loop de kern zs = command_loop de kern z'"
  by (subst command_loop.simps) (simp add: assms)

lemma left_as_in_loop:
  assumes "read_cmd zs = (True, z)" and "zy_buf z = CMD_EXIT"
  shows "command_loop de kern zs = Some (Inr z)"
  by (subst command_loop.simps) (simp add: assms cmd_defs)

section \<open>The invariant\<close>

text \<open>The payload of a test, and what its worker can answer.\<close>

definition payload_of :: "Scheduler \<Rightarrow> RunnableTest list \<Rightarrow> nat \<Rightarrow> TestPayload" where
  "payload_of s0 tests i = test_payload s0 (tests ! i) (of_nat i) (unat (of_nat i :: u32) mod sc_max_workers s0)"

definition answer :: "components \<Rightarrow> TestPayload \<Rightarrow> TestResult \<Rightarrow> bool" where
  "answer C p r \<longleftrightarrow> (\<exists>n s. worker_outcome (cp_isolate C) (cp_hygiene C) (cp_run_test C) n p s = Some r)"

lemma answer_id: "answer C p r \<Longrightarrow> tr_test_id r = tp_test_id p"
  by (auto simp: answer_def worker_outcome_def run_worker_id split: if_splits)

lemma payload_id [simp]: "tp_test_id (payload_of s0 tests i) = of_nat i"
  by (simp add: payload_of_def test_payload_def)

text \<open>
  What the system relies on: there are slots, a fork works, and the serializers are inverse to each other on
  the payloads of the tests and on the answers of their workers, which fit into a frame.
\<close>

definition components_ok :: "components \<Rightarrow> RunnableTest list \<Rightarrow> Scheduler \<Rightarrow> bool" where
  "components_ok C tests s0 \<longleftrightarrow>
     length tests < 2 ^ 32 \<and> 0 < sc_max_workers s0 \<and> (\<forall>n. \<exists>pid. cp_kern C n = (True, Some pid)) \<and>
     (\<forall>i<length tests. \<exists>b. cp_ser C (payload_of s0 tests i) = Some b \<and> length b < 2 ^ 32 \<and>
        cp_de_payload C b = Some (payload_of s0 tests i)) \<and>
     (\<forall>i<length tests. \<forall>r b. answer C (payload_of s0 tests i) r \<longrightarrow> cp_ser_result C r = Some b \<longrightarrow>
        length b < 2 ^ 32 \<and> cp_de C b = Some r)"

text \<open>Every worker can be isolated and its answer serialized.\<close>

definition workers_ok_all :: "components \<Rightarrow> RunnableTest list \<Rightarrow> Scheduler \<Rightarrow> bool" where
  "workers_ok_all C tests s0 \<longleftrightarrow>
     (\<forall>i<length tests. cp_isolate C (of_nat i) \<and>
        (\<forall>r. answer C (payload_of s0 tests i) r \<longrightarrow> cp_ser_result C r \<noteq> None))"

text \<open>The frame of a result, and what a worker may have written when it is gone.\<close>

abbreviation result_bytes :: "components \<Rightarrow> TestResult \<Rightarrow> u8 list" where
  "result_bytes C r \<equiv> the (cp_ser_result C r)"

definition written :: "components \<Rightarrow> TestPayload \<Rightarrow> u8 list \<Rightarrow> bool" where
  "written C p bs \<longleftrightarrow> (\<exists>n s k. bs = take k (fst (snd
     (worker_process (cp_isolate C) (cp_hygiene C) (cp_run_test C) (cp_ser_result C) n p s))))"

lemma collect_worker_cut:
  assumes "length b < 2 ^ 32" and "collect_worker (map Byte (take k (frame b))) = Some full"
  shows "full = frame b"
proof (cases "length (frame b) \<le> k")
  case True
  with assms collect_worker_frame [of b "[]"] show ?thesis by simp
next
  case False
  have "read_frame (map Byte (take k (frame b))) = (None, [])"
    by (rule read_frame_cut [of _ b]) (use False assms(1) in \<open>simp_all add: take_is_prefix\<close>)
  with assms(2) show ?thesis
    by (auto simp: collect_worker_def read_frame_def split: prod.splits option.splits)
qed

text \<open>A result that was passed on is the complete answer of the worker.\<close>

lemma collected_answer:
  assumes "written C p bs" and "collect_worker (map Byte bs) = Some full"
    and fits: "\<And>r b. answer C p r \<Longrightarrow> cp_ser_result C r = Some b \<Longrightarrow> length b < 2 ^ 32"
  obtains r where "answer C p r" and "cp_ser_result C r \<noteq> None" and "full = frame (result_bytes C r)"
proof -
  from assms(1) obtain n s k where bs: "bs = take k (fst (snd
      (worker_process (cp_isolate C) (cp_hygiene C) (cp_run_test C) (cp_ser_result C) n p s)))"
    by (auto simp: written_def)
  have "collect_worker [] = None" by (simp add: collect_worker_def numeral_eq_Suc)
  with assms(2) bs obtain r b where
    r: "worker_outcome (cp_isolate C) (cp_hygiene C) (cp_run_test C) n p s = Some r" "cp_ser_result C r = Some b"
    by (auto simp: worker_process_out split: option.splits)
  moreover from r(1) have a: "answer C p r" by (auto simp: answer_def)
  moreover have "full = frame b"
    using assms(2) bs r fits [OF a r(2)] by (auto simp: worker_process_out intro: collect_worker_cut)
  ultimately show ?thesis by (auto intro: that)
qed

text \<open>What the supervisor never changes.\<close>

definition config_kept :: "Scheduler \<Rightarrow> Scheduler \<Rightarrow> bool" where
  "config_kept s0 s \<longleftrightarrow> sc_log_capture s = sc_log_capture s0 \<and> sc_debug_socket_path s = sc_debug_socket_path s0 \<and>
     sc_max_workers s = sc_max_workers s0 \<and> s_wfail (sc_cmd_socket s) = []"

text \<open>
  After \<^term>\<open>k\<close> confirmed and \<^term>\<open>c\<close> reported tests: the command socket carries nothing, one fork command, one
  process id or the exit command, and never more tests are out than there are slots.
\<close>

definition phase_ok :: "components \<Rightarrow> RunnableTest list \<Rightarrow> Scheduler \<Rightarrow> nat \<Rightarrow> nat \<Rightarrow> system \<Rightarrow> bool" where
  "phase_ok C tests s0 c k st \<longleftrightarrow>
     (let to_zyg = s_in (zy_cmd (sy_zyg st)); to_sup = s_in (sc_cmd_socket (rn_sched (sy_run st)));
          n = length tests; m = sc_max_workers s0 in
      case sy_phase st of
        Looping \<Rightarrow> sy_alive st \<and> k \<le> n \<and> k \<le> c + m \<and> length (sy_jobs st) = k \<and>
          sy_queue st = drop k (enumerate_tests tests) \<and> to_zyg = [] \<and> to_sup = []
      | Waiting i t slot \<Rightarrow> sy_alive st \<and> k < n \<and> k < c + m \<and> i = of_nat k \<and> t = tests ! k \<and>
          sy_queue st = drop (Suc k) (enumerate_tests tests) \<and>
          (length (sy_jobs st) = k \<and> to_sup = [] \<and>
             (\<exists>buf. cp_ser C (payload_of s0 tests k) = Some buf \<and> to_zyg = Byte CMD_FORK # enc_frame buf) \<or>
           length (sy_jobs st) = Suc k \<and> to_zyg = [] \<and> (\<exists>pid. to_sup = map Byte (u32_to_le pid)))
      | Finished \<Rightarrow> k = n \<and> c = n \<and> length (sy_jobs st) = n \<and> sy_queue st = [] \<and>
          to_zyg = (if sy_alive st then [Byte CMD_EXIT] else []))"

text \<open>The results \<^term>\<open>rs\<close> that were forwarded and \<^term>\<open>hs\<close> that are in the channel: one for each job whose
  result was passed on, an answer of the worker of that test.\<close>

definition results_ok ::
  "components \<Rightarrow> RunnableTest list \<Rightarrow> Scheduler \<Rightarrow> TestResult list \<Rightarrow> TestResult list \<Rightarrow> system \<Rightarrow> bool" where
  "results_ok C tests s0 rs hs st \<longleftrightarrow>
     sy_channel st = map (\<lambda>r. frame (result_bytes C r)) hs \<and> distinct (map tr_test_id (rs @ hs)) \<and>
     (\<forall>r\<in>set (rs @ hs). unat (tr_test_id r) < length (sy_jobs st) \<and> sy_jobs st ! unat (tr_test_id r) = JPassed \<and>
        answer C (payload_of s0 tests (unat (tr_test_id r))) r \<and> cp_ser_result C r \<noteq> None) \<and>
     (\<forall>i<length (sy_jobs st). sy_jobs st ! i = JPassed \<longrightarrow> of_nat i \<in> tr_test_id ` set (rs @ hs))"

definition jobs_ok :: "components \<Rightarrow> RunnableTest list \<Rightarrow> Scheduler \<Rightarrow> system \<Rightarrow> bool" where
  "jobs_ok C tests s0 st \<longleftrightarrow> (\<forall>i<length (sy_jobs st).
     (\<forall>p. sy_jobs st ! i = JRunning p \<longrightarrow> p = payload_of s0 tests i) \<and>
     (\<forall>bs. sy_jobs st ! i = JWritten bs \<longrightarrow> written C (payload_of s0 tests i) bs))"

text \<open>The reported results could have come in this order.\<close>

definition order_ok :: "nat \<Rightarrow> nat \<Rightarrow> nat \<Rightarrow> TestResult list \<Rightarrow> bool" where
  "order_ok m k c rs \<longleftrightarrow> c \<le> length rs \<and> (\<forall>j<c. unat (tr_test_id (rs ! j)) < k \<and> unat (tr_test_id (rs ! j)) < j + m)"

definition sys_at ::
  "components \<Rightarrow> RunnableTest list \<Rightarrow> Scheduler \<Rightarrow> TestResult list \<Rightarrow> nat \<Rightarrow> TestResult list \<Rightarrow> nat \<Rightarrow> system \<Rightarrow> bool" where
  "sys_at C tests s0 rs c hs k st \<longleftrightarrow>
     in_step (cp_de C) tests (map (result_bytes C) rs) rs [] k c (sy_run st) \<and> order_ok (sc_max_workers s0) k c rs \<and>
     config_kept s0 (rn_sched (sy_run st)) \<and> phase_ok C tests s0 c k st \<and> results_ok C tests s0 rs hs st \<and>
     jobs_ok C tests s0 st \<and> sy_forwarding st \<and> s_wfail (sy_result st) = [] \<and> s_wfail (zy_cmd (sy_zyg st)) = []"

definition sys_inv :: "components \<Rightarrow> RunnableTest list \<Rightarrow> Scheduler \<Rightarrow> system \<Rightarrow> bool" where
  "sys_inv C tests s0 st \<longleftrightarrow> (\<exists>rs c hs k. sys_at C tests s0 rs c hs k st)"

lemma sys_atD:
  assumes "sys_at C tests s0 rs c hs k st"
  shows "in_step (cp_de C) tests (map (result_bytes C) rs) rs [] k c (sy_run st)" "order_ok (sc_max_workers s0) k c rs"
    "config_kept s0 (rn_sched (sy_run st))" "phase_ok C tests s0 c k st" "results_ok C tests s0 rs hs st"
    "jobs_ok C tests s0 st" "sy_forwarding st" "s_wfail (sy_result st) = []" "s_wfail (zy_cmd (sy_zyg st)) = []"
  using assms by (simp_all add: sys_at_def)

text \<open>The number of steps that are left: seven for each test, and two to end.\<close>

fun job_left :: "job \<Rightarrow> nat" where
  "job_left (JRunning p) = 3"
| "job_left (JWritten bs) = 2"
| "job_left JPassed = 0"
| "job_left JLost = 0"

definition steps_left :: "RunnableTest list \<Rightarrow> system \<Rightarrow> nat" where
  "steps_left tests st =
     2 * length (sy_queue st) + (case sy_phase st of Waiting _ _ _ \<Rightarrow> 2 | Looping \<Rightarrow> 1 | Finished \<Rightarrow> 0) +
     4 * (length tests - length (sy_jobs st)) + sum_list (map job_left (sy_jobs st)) + length (sy_channel st) +
     (length tests - rn_collected (sy_run st)) + (if sy_alive st then 1 else 0)"

subsection \<open>Facts about a state\<close>

lemma in_step_same:
  assumes "in_step de tests bufs rs tail k c r"
    and "sc_active_workers (rn_sched r') = sc_active_workers (rn_sched r)"
    and "sc_result_socket (rn_sched r') = sc_result_socket (rn_sched r)"
    and "finished (rn_events r') = finished (rn_events r)" and "counted r'"
  shows "in_step de tests bufs rs tail k c r'"
  using assms by (simp add: in_step_def)

lemma in_step_collected:
  "in_step de tests bufs rs tail k c r \<Longrightarrow> c \<le> length rs \<Longrightarrow> rn_collected r = c"
  by (simp add: in_step_def counted_collected)

lemma in_step_forward:
  assumes "in_step de tests bufs rs [] k c r" and "c \<le> length rs" and "length bufs = length rs"
    and "sc_active_workers (rn_sched r') = sc_active_workers (rn_sched r)" and "rn_events r' = rn_events r"
    and "sc_result_socket (rn_sched r') = sc_result_socket (rn_sched r) @ enc_frame b" and "counted r'"
  shows "in_step de tests (bufs @ [b]) (rs @ [x]) [] k c r'"
  using assms by (simp add: in_step_def)

lemma order_taken: "order_ok m k c rs \<Longrightarrow> \<forall>x\<in>set (take c rs). unat (tr_test_id x) < k"
  by (auto simp: order_ok_def in_set_conv_nth)

lemma phase_bound: "phase_ok C tests s0 c k st \<Longrightarrow> k \<le> length tests \<and> length (sy_jobs st) \<le> length tests"
  by (auto simp: phase_ok_def Let_def split: sup_phase.splits)

lemma components_okD:
  assumes "components_ok C tests s0"
  shows "length tests < 2 ^ 32" "0 < sc_max_workers s0" "\<exists>pid. cp_kern C n = (True, Some pid)"
    "i < length tests \<Longrightarrow> \<exists>b. cp_ser C (payload_of s0 tests i) = Some b \<and> length b < 2 ^ 32 \<and>
       cp_de_payload C b = Some (payload_of s0 tests i)"
    "i < length tests \<Longrightarrow> answer C (payload_of s0 tests i) r \<Longrightarrow> cp_ser_result C r = Some b \<Longrightarrow>
       length b < 2 ^ 32 \<and> cp_de C b = Some r"
  using assms unfolding components_ok_def by blast+

lemma results_fit:
  assumes "results_ok C tests s0 rs hs st" and "components_ok C tests s0" and "length (sy_jobs st) \<le> length tests"
    and "r \<in> set (rs @ hs)"
  shows "length (result_bytes C r) < 2 ^ 32 \<and> cp_de C (result_bytes C r) = Some r"
proof -
  have *: "unat (tr_test_id r) < length (sy_jobs st)" "answer C (payload_of s0 tests (unat (tr_test_id r))) r"
    "cp_ser_result C r \<noteq> None" using assms(1,4) by (auto simp: results_ok_def)
  with components_okD(5) [OF assms(2) _ *(2)] assms(3) show ?thesis by fastforce
qed

lemma sys_at_active:
  assumes "sys_at C tests s0 rs c hs k st" and "length tests < 2 ^ 32"
  shows "length (sc_active_workers (rn_sched (sy_run st))) = k - c"
proof (rule in_step_active [OF sys_atD(1) [OF assms(1)]])
  show "k \<le> 2 ^ 32" using phase_bound [OF sys_atD(4) [OF assms(1)]] assms(2) by simp
  show "distinct (map tr_test_id rs)" using sys_atD(5) [OF assms(1)] by (simp add: results_ok_def)
  show "c \<le> length rs" using sys_atD(2) [OF assms(1)] by (simp add: order_ok_def)
  show "\<forall>x\<in>set (take c rs). unat (tr_test_id x) < k" using sys_atD(2) [OF assms(1)] by (rule order_taken)
qed

lemma payload_kept:
  "config_kept s0 s \<Longrightarrow> slot = unat (of_nat k :: u32) mod sc_max_workers s \<Longrightarrow>
     test_payload s (tests ! k) (of_nat k) slot = payload_of s0 tests k"
  by (simp add: config_kept_def payload_of_def test_payload_def)

lemma sys_at_start:
  assumes "sc_active_workers s0 = []" and "sc_result_socket s0 = []"
    and "s_wfail (sc_cmd_socket s0) = []" and "s_in (sc_cmd_socket s0) = []"
  shows "sys_at C tests s0 [] 0 [] 0 (system_start tests s0)"
  using assms
  by (simp add: sys_at_def system_start_def run_init_def in_step_def order_ok_def config_kept_def phase_ok_def
      results_ok_def jobs_ok_def finished_def counted_def passes_def failures_def)

lemma steps_left_start: "steps_left tests (system_start tests s0) = 7 * length tests + 2"
  by (simp add: steps_left_def system_start_def run_init_def enumerate_tests_def)

subsection \<open>Every step keeps the invariant and is one of those left\<close>

definition goes_on :: "components \<Rightarrow> RunnableTest list \<Rightarrow> Scheduler \<Rightarrow> system \<Rightarrow> system \<Rightarrow> bool" where
  "goes_on C tests s0 st st' \<longleftrightarrow> sys_inv C tests s0 st' \<and> steps_left tests st' < steps_left tests st"

lemma goes_onI:
  "sys_at C tests s0 rs c hs k st' \<Longrightarrow> steps_left tests st' < steps_left tests st \<Longrightarrow> goes_on C tests s0 st st'"
  by (auto simp: goes_on_def sys_inv_def)

lemma looping:
  assumes "sys_at C tests s0 rs c hs k st" and "sy_phase st = Looping"
  shows "sy_alive st" "k \<le> length tests" "k \<le> c + sc_max_workers s0" "length (sy_jobs st) = k"
    "sy_queue st = drop k (enumerate_tests tests)" "s_in (zy_cmd (sy_zyg st)) = []"
    "s_in (sc_cmd_socket (rn_sched (sy_run st))) = []"
  using sys_atD(4) [OF assms(1)] assms(2) by (simp_all add: phase_ok_def Let_def)

lemma queue_head:
  assumes "sys_at C tests s0 rs c hs k st" and "sy_phase st = Looping" and "sy_queue st = (i, t) # q"
  shows "k < length tests" "i = of_nat k" "t = tests ! k" "q = drop (Suc k) (enumerate_tests tests)"
proof -
  have q: "drop k (enumerate_tests tests) = (i, t) # q" using looping(5) [OF assms(1,2)] assms(3) by simp
  then have "drop k (enumerate_tests tests) \<noteq> []" by simp
  then show k: "k < length tests" by (simp add: enumerate_tests_def)
  from q show "i = of_nat k" "t = tests ! k" "q = drop (Suc k) (enumerate_tests tests)"
    by (simp_all add: drop_enumerate_tests [OF k])
qed

lemma dispatch_send_ok:
  assumes "ser (test_payload s t i slot) = Some buf" and "s_wfail (sc_cmd_socket s) = []"
  shows "dispatch_send ser t i slot s = (Inr (), s\<lparr>sc_cmd_socket :=
     (sc_cmd_socket s)\<lparr>s_out := s_out (sc_cmd_socket s) @ CMD_FORK # frame buf\<rparr>\<rparr>)"
  using assms by (simp add: dispatch_send_def write_each_ok frame_def Let_def del: write_each.simps)

text \<open>The command of the next test can be sent.\<close>

lemma send_next:
  assumes ok: "components_ok C tests s0" and at: "sys_at C tests s0 rs c hs k st" and "sy_phase st = Looping"
    and k: "k < length tests" and r: "r = report_event e (sy_run st)"
    and slot: "slot = unat (of_nat k :: u32) mod sc_max_workers (rn_sched (sy_run st))"
  obtains buf where "cp_ser C (payload_of s0 tests k) = Some buf"
    and "dispatch_send (cp_ser C) (tests ! k) (of_nat k) slot (rn_sched r) = (Inr (), (rn_sched (sy_run st))\<lparr>sc_cmd_socket :=
       (sc_cmd_socket (rn_sched (sy_run st)))\<lparr>s_out := s_out (sc_cmd_socket (rn_sched (sy_run st))) @ CMD_FORK # frame buf\<rparr>\<rparr>)"
proof -
  note c = sys_atD(3) [OF at]
  obtain buf where b: "cp_ser C (payload_of s0 tests k) = Some buf" using components_okD(4) [OF ok k] by blast
  have "cp_ser C (test_payload (rn_sched (sy_run st)) (tests ! k) (of_nat k) slot) = Some buf"
    using payload_kept [OF c slot, of tests] b by simp
  then have "dispatch_send (cp_ser C) (tests ! k) (of_nat k) slot (rn_sched (sy_run st)) = (Inr (), (rn_sched (sy_run st))\<lparr>sc_cmd_socket :=
       (sc_cmd_socket (rn_sched (sy_run st)))\<lparr>s_out := s_out (sc_cmd_socket (rn_sched (sy_run st))) @ CMD_FORK # frame buf\<rparr>\<rparr>)"
    by (rule dispatch_send_ok) (use c in \<open>simp add: config_kept_def\<close>)
  then show ?thesis using that [OF b] r by (simp add: report_event_def)
qed

lemma send_goes_on:
  assumes ok: "components_ok C tests s0" and at: "sys_at C tests s0 rs c hs k st"
    and ph: "sy_phase st = Looping" and q: "sy_queue st = (i, t) # q" and cap: "\<not> at_capacity (sy_run st)"
    and slot: "slot = unat i mod sc_max_workers (rn_sched (sy_run st))"
    and r: "r = report_event (TestStart (rt_test_name t) (path_text (rt_file_path t))) (sy_run st)"
    and d: "dispatch_send (cp_ser C) t i slot (rn_sched r) = (Inr (), s)"
  shows "goes_on C tests s0 st (st\<lparr>sy_phase := Waiting i t slot, sy_queue := q, sy_run := r\<lparr>rn_sched := s\<rparr>,
         sy_zyg := to_zygote (rn_sched r) s (sy_zyg st)\<rparr>)"
proof (rule goes_onI)
  let ?st = "st\<lparr>sy_phase := Waiting i t slot, sy_queue := q, sy_run := r\<lparr>rn_sched := s\<rparr>,
         sy_zyg := to_zygote (rn_sched r) s (sy_zyg st)\<rparr>"
  note h = queue_head [OF at ph q] and l = looping [OF at ph] and a = sys_atD [OF at]
  obtain buf where b: "cp_ser C (payload_of s0 tests k) = Some buf"
    and s: "s = (rn_sched (sy_run st))\<lparr>sc_cmd_socket :=
       (sc_cmd_socket (rn_sched (sy_run st)))\<lparr>s_out := s_out (sc_cmd_socket (rn_sched (sy_run st))) @ CMD_FORK # frame buf\<rparr>\<rparr>"
    using send_next [OF ok at ph h(1) r] slot d h by (metis Pair_inject)
  have rs: "rn_sched r = rn_sched (sy_run st)" by (simp add: r report_event_def)
  have "k - c < sc_max_workers s0"
    using cap sys_at_active [OF at components_okD(1) [OF ok]] a(3) by (simp add: at_capacity_def config_kept_def)
  then have "k < c + sc_max_workers s0" by simp
  then have p: "phase_ok C tests s0 c k ?st"
    using h l b by (simp add: phase_ok_def to_zygote_def deliver_def rs s enc_frame_def)
  have i: "in_step (cp_de C) tests (map (result_bytes C) rs) rs [] k c (sy_run ?st)"
    by (rule in_step_same [OF a(1)])
       (use a(1) in \<open>simp_all add: s r report_event_def finished_def in_step_def counted_def passes_def failures_def\<close>)
  show "sys_at C tests s0 rs c hs k ?st"
    using a i p by (simp add: sys_at_def s config_kept_def results_ok_def jobs_ok_def to_zygote_def)
  show "steps_left tests ?st < steps_left tests st"
    using q ph by (simp add: steps_left_def r report_event_def)
qed

lemma confirm_goes_on:
  assumes ok: "components_ok C tests s0" and at: "sys_at C tests s0 rs c hs k st"
    and ph: "sy_phase st = Waiting i t slot" and d: "dispatch_confirm t i slot (rn_sched (sy_run st)) = (Inr (), s)"
  shows "goes_on C tests s0 st (st\<lparr>sy_phase := Looping, sy_run := (sy_run st)\<lparr>rn_sched := s\<rparr>\<rparr>)"
proof (rule goes_onI)
  let ?st = "st\<lparr>sy_phase := Looping, sy_run := (sy_run st)\<lparr>rn_sched := s\<rparr>\<rparr>" and ?s = "rn_sched (sy_run st)"
  note a = sys_atD [OF at]
  have "read_exact 4 [] = (None, [])" by (simp add: numeral_eq_Suc)
  with d have "s_in (sc_cmd_socket ?s) \<noteq> []" by (auto simp: dispatch_confirm_def)
  with a(4) ph obtain pid where w: "sy_alive st" "k < length tests" "k < c + sc_max_workers s0" "i = of_nat k" "t = tests ! k"
      "sy_queue st = drop (Suc k) (enumerate_tests tests)" "length (sy_jobs st) = Suc k" "s_in (zy_cmd (sy_zyg st)) = []"
      "s_in (sc_cmd_socket ?s) = map Byte (u32_to_le pid)"
    by (auto simp: phase_ok_def Let_def)
  have "read_exact 4 (map Byte (u32_to_le pid)) = (Some (u32_to_le pid), [])"
    using read_exact_bytes_n [of 4 "u32_to_le pid" "[]"] by simp
  with d w have s: "s = ?s\<lparr>sc_cmd_socket := (sc_cmd_socket ?s)\<lparr>s_in := []\<rparr>, sc_tick := Suc (sc_tick ?s), sc_active_workers :=
      hm_insert i \<lparr>aw_test_name = rt_test_name t, aw_slot = slot, aw_start_time = sc_clock ?s (sc_tick ?s)\<rparr> (sc_active_workers ?s)\<rparr>"
    by (simp add: dispatch_confirm_def instant_now_def)
  have i: "in_step (cp_de C) tests (map (result_bytes C) rs) rs [] (Suc k) c (sy_run ?st)"
    by (rule in_step_insert [OF a(1) _ order_taken [OF a(2)],
          where w = "\<lparr>aw_test_name = rt_test_name t, aw_slot = slot, aw_start_time = sc_clock ?s (sc_tick ?s)\<rparr>"])
       (use w components_okD(1) [OF ok] a(1) in \<open>simp_all add: s in_step_def counted_def\<close>)
  have "order_ok (sc_max_workers s0) (Suc k) c rs" using a(2) by (auto simp: order_ok_def less_Suc_eq)
  with a i w show "sys_at C tests s0 rs c hs (Suc k) ?st"
    by (simp add: sys_at_def s config_kept_def results_ok_def jobs_ok_def phase_ok_def)
  show "steps_left tests ?st < steps_left tests st" using ph by (simp add: steps_left_def)
qed

lemma results_count:
  assumes "results_ok C tests s0 rs hs st"
  shows "length (rs @ hs) \<le> length (sy_jobs st)"
proof -
  let ?ids = "map (\<lambda>r. unat (tr_test_id r)) (rs @ hs)"
  have "distinct (map tr_test_id (rs @ hs))" using assms by (simp add: results_ok_def)
  then have "distinct (map unat (map tr_test_id (rs @ hs)))"
    by (subst distinct_map) (simp add: inj_on_def word_unat_eq_iff)
  then have "card (set ?ids) = length (rs @ hs)" by (metis (no_types) comp_apply distinct_card length_map list.map_comp map_eq_conv)
  moreover have "set ?ids \<subseteq> {..<length (sy_jobs st)}" using assms by (auto simp: results_ok_def)
  ultimately show ?thesis by (metis card_lessThan card_mono finite_lessThan)
qed

lemma try_collect_config:
  assumes "try_collect_result_for_reporter de s = (rep, s')"
  shows "sc_cmd_socket s' = sc_cmd_socket s" "config_kept s0 s' = config_kept s0 s"
proof -
  from assms show cmd: "sc_cmd_socket s' = sc_cmd_socket s"
    by (auto simp: try_collect_result_for_reporter_def Let_def split: prod.splits option.splits)
  from assms have "sc_log_capture s' = sc_log_capture s"
    by (auto simp: try_collect_result_for_reporter_def Let_def split: prod.splits option.splits)
  moreover from assms have "sc_debug_socket_path s' = sc_debug_socket_path s"
    by (auto simp: try_collect_result_for_reporter_def Let_def split: prod.splits option.splits)
  ultimately show "config_kept s0 s' = config_kept s0 s" using cmd try_collect_max [OF assms] by (simp add: config_kept_def)
qed

lemma collectable:
  assumes ok: "components_ok C tests s0" and at: "sys_at C tests s0 rs c hs k st" and ph: "sy_phase st = Looping"
    and r: "r = (sy_run st)\<lparr>rn_sched := (rn_sched (sy_run st))\<lparr>sc_tick := n\<rparr>\<rparr>" and c: "c < length rs"
  obtains rep s where "try_collect_result_for_reporter (cp_de C) (rn_sched r) = (Some rep, s)"
    and "in_step (cp_de C) tests (map (result_bytes C) rs) rs [] k (Suc c) (count_result rep (r\<lparr>rn_sched := s\<rparr>))"
    and "unat (tr_test_id (rs ! c)) < k"
proof -
  note a = sys_atD [OF at] and l = looping [OF at ph]
  have i: "in_step (cp_de C) tests (map (result_bytes C) rs) rs [] k c r" using a(1) by (simp only: r in_step_tick)
  have id: "unat (tr_test_id (rs ! c)) < k" using a(5) c l(4) by (simp add: results_ok_def)
  have fits: "list_all2 (\<lambda>b x. length b < 2 ^ 32 \<and> cp_de C b = Some x) (map (result_bytes C) rs) rs"
    using results_fit [OF a(5) ok] l(2,4) by (simp add: list_all2_conv_all_nth)
  have "distinct (map tr_test_id rs)" using a(5) by (simp add: results_ok_def)
  from in_step_collect [OF i fits c id this] that id show ?thesis by blast
qed

lemma collect_goes_on:
  assumes ok: "components_ok C tests s0" and at: "sys_at C tests s0 rs c hs k st" and ph: "sy_phase st = Looping"
    and r: "r = (sy_run st)\<lparr>rn_sched := (rn_sched (sy_run st))\<lparr>sc_tick := n\<rparr>\<rparr>"
    and t: "try_collect_result_for_reporter (cp_de C) (rn_sched r) = (Some rep, s)"
  shows "goes_on C tests s0 st (st\<lparr>sy_run := count_result rep (r\<lparr>rn_sched := s\<rparr>)\<rparr>)"
proof (rule goes_onI)
  let ?st = "st\<lparr>sy_run := count_result rep (r\<lparr>rn_sched := s\<rparr>)\<rparr>"
  note a = sys_atD [OF at] and l = looping [OF at ph]
  have res: "length (rs @ hs) \<le> k" using results_count [OF a(5)] l(4) by simp
  have c: "c < length rs"
  proof (rule ccontr)
    assume "\<not> c < length rs"
    then have "sc_result_socket (rn_sched r) = []" using a(1) r by (simp add: in_step_def)
    with t show False by (simp add: try_collect_empty)
  qed
  have i': "in_step (cp_de C) tests (map (result_bytes C) rs) rs [] k (Suc c) (sy_run ?st)"
    and id: "unat (tr_test_id (rs ! c)) < k" using collectable [OF ok at ph r c] t by auto
  have o: "order_ok (sc_max_workers s0) k (Suc c) rs" using a(2) c id l(3) by (auto simp: order_ok_def less_Suc_eq)
  note f = try_collect_config [OF t]
  have p: "phase_ok C tests s0 (Suc c) k ?st" using l ph f r by (simp add: phase_ok_def)
  show "sys_at C tests s0 rs (Suc c) hs k ?st"
    using a i' o p f(1) f(2) [of s0] r by (simp add: sys_at_def results_ok_def jobs_ok_def config_kept_def)
  have "rn_collected (sy_run st) = c" "rn_collected (sy_run ?st) = Suc c"
    using in_step_collected [OF a(1)] in_step_collected [OF i'] c by simp_all
  then show "steps_left tests ?st < steps_left tests st" using res l(2) c by (simp add: steps_left_def)
qed

lemma finish_goes_on:
  assumes ok: "components_ok C tests s0" and at: "sys_at C tests s0 rs c hs k st"
    and ph: "sy_phase st = Looping" and q: "sy_queue st = []" and r: "r = sy_run st" and n: "\<not> rn_collected r < length tests"
    and d: "sched_shutdown (rn_sched (tick_now r)) = (done_ok, s)"
  shows "goes_on C tests s0 st (st\<lparr>sy_phase := Finished,
         sy_run := report_event (RunFinished (rn_passed r) (rn_failed r) 0 ms) (r\<lparr>rn_sched := s\<rparr>),
         sy_zyg := to_zygote (rn_sched (tick_now r)) s (sy_zyg st)\<rparr>)"
proof (rule goes_onI)
  let ?st = "st\<lparr>sy_phase := Finished,
         sy_run := report_event (RunFinished (rn_passed r) (rn_failed r) 0 ms) (r\<lparr>rn_sched := s\<rparr>),
         sy_zyg := to_zygote (rn_sched (tick_now r)) s (sy_zyg st)\<rparr>"
  note a = sys_atD [OF at] and l = looping [OF at ph]
  have k: "k = length tests" using l(2,5) q by (simp add: enumerate_tests_def)
  have c: "rn_collected r = c" "c \<le> length rs"
    using in_step_collected [OF a(1)] a(2) r by (simp_all add: order_ok_def)
  then have cn: "c = length tests" using n results_count [OF a(5)] l(4) k by simp
  have "s_wfail (sc_cmd_socket (rn_sched (tick_now r))) = []" using a(3) r by (simp add: config_kept_def tick_now_def)
  with d have s: "s = (rn_sched (tick_now r))\<lparr>sc_cmd_socket := (sc_cmd_socket (rn_sched r))\<lparr>s_out :=
      s_out (sc_cmd_socket (rn_sched r)) @ [CMD_EXIT]\<rparr>\<rparr>"
    by (simp add: sched_shutdown_def write_all_def tick_now_def)
  have p: "phase_ok C tests s0 c k ?st"
    using k cn l q r by (simp add: phase_ok_def s to_zygote_def deliver_def tick_now_def report_event_def)
  have i: "in_step (cp_de C) tests (map (result_bytes C) rs) rs [] k c (sy_run ?st)"
    by (rule in_step_same [OF a(1)])
       (use a(1) in \<open>simp_all add: s r tick_now_def report_event_def finished_def in_step_def counted_def passes_def failures_def\<close>)
  show "sys_at C tests s0 rs c hs k ?st"
    using a i p r by (simp add: sys_at_def s config_kept_def results_ok_def jobs_ok_def to_zygote_def tick_now_def report_event_def)
  show "steps_left tests ?st < steps_left tests st"
    using q ph r by (simp add: steps_left_def report_event_def)
qed

lemma sup_goes_on:
  assumes ok: "components_ok C tests s0" and at: "sys_at C tests s0 rs c hs k st" and "sup_step C tests st st'"
  shows "goes_on C tests s0 st st'"
  using assms(3)
proof cases
  case (send i t q slot r s)
  then show ?thesis using send_goes_on [OF ok at] by simp
next
  case (send_failed i t q slot r e s)
  note h = queue_head [OF at send_failed(2,3)]
  have "slot = unat (of_nat k :: u32) mod sc_max_workers (rn_sched (sy_run st))" using send_failed(5) h by simp
  then have "\<exists>s. dispatch_send (cp_ser C) (tests ! k) (of_nat k) slot (rn_sched r) = (Inr (), s)"
    by (rule send_next [OF ok at send_failed(2) h(1) send_failed(6)]) blast
  with send_failed(7) h show ?thesis by simp
next
  case (confirm i t slot s)
  then show ?thesis using confirm_goes_on [OF ok at] by simp
next
  case (collect_for_slot rep s)
  have "sy_run st = (sy_run st)\<lparr>rn_sched := (rn_sched (sy_run st))\<lparr>sc_tick := sc_tick (rn_sched (sy_run st))\<rparr>\<rparr>" by simp
  from collect_goes_on [OF ok at collect_for_slot(2) this collect_for_slot(5)] collect_for_slot(1) show ?thesis by simp
next
  case (collect_rest rep s)
  have "tick_now (sy_run st) = (sy_run st)\<lparr>rn_sched := (rn_sched (sy_run st))\<lparr>sc_tick := Suc (sc_tick (rn_sched (sy_run st)))\<rparr>\<rparr>"
    by (simp add: tick_now_def)
  from collect_goes_on [OF ok at collect_rest(2) this collect_rest(5)] collect_rest(1) show ?thesis by simp
next
  case (finish r ok' s)
  then show ?thesis using finish_goes_on [OF ok at] by simp
qed

text \<open>What the zygote can find in its command socket.\<close>

lemma pending_command:
  assumes "sys_at C tests s0 rs c hs k st" and "sy_alive st" and "s_in (zy_cmd (sy_zyg st)) \<noteq> []"
  shows "(\<exists>i t slot buf. sy_phase st = Waiting i t slot \<and> k < length tests \<and> length (sy_jobs st) = k \<and>
            cp_ser C (payload_of s0 tests k) = Some buf \<and> s_in (zy_cmd (sy_zyg st)) = Byte CMD_FORK # enc_frame buf \<and>
            s_in (sc_cmd_socket (rn_sched (sy_run st))) = []) \<or>
         sy_phase st = Finished \<and> s_in (zy_cmd (sy_zyg st)) = [Byte CMD_EXIT]"
  using sys_atD(4) [OF assms(1)] assms(2,3) by (auto simp: phase_ok_def Let_def split: sup_phase.splits)

text \<open>A new worker changes nothing of the others.\<close>

lemma new_job:
  assumes "results_ok C tests s0 rs hs st" and "jobs_ok C tests s0 st"
    and "sy_jobs st' = sy_jobs st @ [JRunning (payload_of s0 tests (length (sy_jobs st)))]" and "sy_channel st' = sy_channel st"
  shows "results_ok C tests s0 rs hs st'" and "jobs_ok C tests s0 st'"
  using assms by (auto simp: results_ok_def jobs_ok_def nth_append less_Suc_eq)

lemma serve_ok:
  assumes ok: "components_ok C tests s0" and at: "sys_at C tests s0 rs c hs k st"
    and buf: "cp_ser C (payload_of s0 tests k) = Some buf" "k < length tests"
    and "s_in (zy_cmd (sy_zyg st)) = Byte CMD_FORK # enc_frame buf"
  obtains z child where "read_cmd (sy_zyg st) = (True, z)" and "zy_buf z = CMD_FORK"
    and "fst (read_frame (s_in (zy_cmd z))) \<noteq> None"
    and "handle_fork (cp_de_payload C) (cp_kern C) z =
      Inr (z\<lparr>zy_cmd := (zy_cmd z)\<lparr>s_in := [], s_out := s_out (zy_cmd z) @ u32_to_le child\<rparr>,
            zy_requests := zy_requests z + 1, zy_workers := zy_workers z @ [(child, payload_of s0 tests k)]\<rparr>)"
    and "s_wfail (zy_cmd z) = []"
proof -
  let ?z = "(sy_zyg st)\<lparr>zy_buf := CMD_FORK, zy_cmd := (zy_cmd (sy_zyg st))\<lparr>s_in := enc_frame buf\<rparr>\<rparr>"
  have b: "length buf < 2 ^ 32" "cp_de_payload C buf = Some (payload_of s0 tests k)"
    using components_okD(4) [OF ok buf(2)] buf(1) by auto
  obtain child where child: "cp_kern C (zy_requests ?z) = (True, Some child)" using components_okD(3) [OF ok] by blast
  have h: "handle_fork (cp_de_payload C) (cp_kern C) ?z =
      Inr (?z\<lparr>zy_cmd := (zy_cmd ?z)\<lparr>s_in := [], s_out := s_out (zy_cmd ?z) @ u32_to_le child\<rparr>,
            zy_requests := zy_requests ?z + 1, zy_workers := zy_workers ?z @ [(child, payload_of s0 tests k)]\<rparr>)"
    by (rule handle_fork_ok [where buf = buf]) (use b child sys_atD(9) [OF at] in simp_all)
  show ?thesis
    by (rule that [OF read_cmd_byte [OF assms(5)] _ _ h])
       (use fr.dec_enc [OF b(1), of "[]"] sys_atD(9) [OF at] in simp_all)
qed

lemma serve_goes_on:
  assumes ok: "components_ok C tests s0" and at: "sys_at C tests s0 rs c hs k st" and "sy_alive st"
    and "s_in (zy_cmd (sy_zyg st)) \<noteq> []" and rd: "read_cmd (sy_zyg st) = (True, z)" and "zy_buf z = CMD_FORK"
    and hf: "handle_fork (cp_de_payload C) (cp_kern C) z = Inr z'"
  shows "goes_on C tests s0 st
     (st\<lparr>sy_zyg := z', sy_jobs := sy_jobs st @ new_jobs z z', sy_run := to_supervisor z z' (sy_run st)\<rparr>)"
proof (rule goes_onI)
  let ?st = "st\<lparr>sy_zyg := z', sy_jobs := sy_jobs st @ new_jobs z z', sy_run := to_supervisor z z' (sy_run st)\<rparr>"
  note a = sys_atD [OF at]
  have "s_in (zy_cmd (sy_zyg st)) \<noteq> [Byte CMD_EXIT]"
    using rd assms(6) by (auto simp: read_cmd_byte cmd_defs)
  with pending_command [OF at assms(3,4)] obtain i t slot buf where w: "sy_phase st = Waiting i t slot" "k < length tests"
    "length (sy_jobs st) = k" "cp_ser C (payload_of s0 tests k) = Some buf"
    "s_in (zy_cmd (sy_zyg st)) = Byte CMD_FORK # enc_frame buf" "s_in (sc_cmd_socket (rn_sched (sy_run st))) = []" by blast
  from serve_ok [OF ok at w(4,2,5)] rd hf obtain child where
    z': "z' = z\<lparr>zy_cmd := (zy_cmd z)\<lparr>s_in := [], s_out := s_out (zy_cmd z) @ u32_to_le child\<rparr>,
            zy_requests := zy_requests z + 1, zy_workers := zy_workers z @ [(child, payload_of s0 tests k)]\<rparr>"
    and wf: "s_wfail (zy_cmd z) = []" by (metis Pair_inject sum.inject(2))
  have j: "new_jobs z z' = [JRunning (payload_of s0 tests k)]" by (simp add: new_jobs_def z')
  have "results_ok C tests s0 rs hs ?st" "jobs_ok C tests s0 ?st"
    by (rule new_job [OF a(5,6)]; simp add: j w(3))+
  moreover have "in_step (cp_de C) tests (map (result_bytes C) rs) rs [] k c (sy_run ?st)"
    by (rule in_step_same [OF a(1)]) (use a(1) in \<open>simp_all add: to_supervisor_def in_step_def counted_def\<close>)
  moreover have "phase_ok C tests s0 c k ?st"
    using a(4) w by (simp add: phase_ok_def j) (auto simp: z' to_supervisor_def deliver_def)
  ultimately show "sys_at C tests s0 rs c hs k ?st"
    using a wf by (simp add: sys_at_def config_kept_def to_supervisor_def z')
  show "steps_left tests ?st < steps_left tests st"
    using w(2,3) by (simp add: steps_left_def j to_supervisor_def)
qed

lemma zyg_goes_on:
  assumes ok: "components_ok C tests s0" and at: "sys_at C tests s0 rs c hs k st" and "zyg_step C st st'"
  shows "goes_on C tests s0 st st'"
  using assms(3)
proof cases
  case (serve z z')
  then show ?thesis using serve_goes_on [OF ok at] by simp
next
  case (give_up z e)
  have "s_in (zy_cmd (sy_zyg st)) \<noteq> [Byte CMD_EXIT]" using give_up(4,5) by (auto simp: read_cmd_byte cmd_defs)
  with pending_command [OF at give_up(2,3)] obtain buf where "k < length tests" "cp_ser C (payload_of s0 tests k) = Some buf"
    "s_in (zy_cmd (sy_zyg st)) = Byte CMD_FORK # enc_frame buf" by blast
  from serve_ok [OF ok at this(2,1,3)] give_up(4,7) show ?thesis by (metis Pair_inject sum.simps(4))
next
  case (leave z)
  have "\<nexists>l. s_in (zy_cmd (sy_zyg st)) = Byte CMD_FORK # l" using leave(4,5) by (auto simp: read_cmd_byte cmd_defs)
  with pending_command [OF at leave(2,3)] have ph: "sy_phase st = Finished" "s_in (zy_cmd (sy_zyg st)) = [Byte CMD_EXIT]" by blast+
  with leave(4) have z: "z = (sy_zyg st)\<lparr>zy_buf := CMD_EXIT, zy_cmd := (zy_cmd (sy_zyg st))\<lparr>s_in := []\<rparr>\<rparr>"
    by (simp add: read_cmd_byte)
  show ?thesis
  proof (rule goes_onI)
    show "sys_at C tests s0 rs c hs k st'" using sys_atD [OF at] ph leave(2)
      by (simp add: leave(1) z sys_at_def phase_ok_def results_ok_def jobs_ok_def)
    show "steps_left tests st' < steps_left tests st" using leave(2) by (simp add: leave(1) steps_left_def)
  qed
next
  case (ignore z)
  with pending_command [OF at ignore(2,3)] show ?thesis by (auto simp: read_cmd_byte)
qed

text \<open>A step of one job leaves the phases and the supervisor as they are.\<close>

lemma sys_at_job:
  assumes at: "sys_at C tests s0 rs c hs k st" and "results_ok C tests s0 rs hs' st'" and "jobs_ok C tests s0 st'"
    and "st' = st\<lparr>sy_jobs := js, sy_channel := ch\<rparr>" and "length js = length (sy_jobs st)"
  shows "sys_at C tests s0 rs c hs' k st'"
  using assms by (auto simp: sys_at_def phase_ok_def Let_def split: sup_phase.splits)

lemma jobs_ok_update:
  assumes "jobs_ok C tests s0 st" and "i < length (sy_jobs st)" and "sy_jobs st' = (sy_jobs st)[i := x]"
    and "\<And>p. x \<noteq> JRunning p" and "\<And>bs. x = JWritten bs \<Longrightarrow> written C (payload_of s0 tests i) bs"
  shows "jobs_ok C tests s0 st'"
  using assms by (auto simp: jobs_ok_def nth_list_update)

lemma unpassed_job:
  assumes "results_ok C tests s0 rs hs st" and "sy_jobs st ! i \<noteq> JPassed" and "r \<in> set (rs @ hs)"
  shows "i \<noteq> unat (tr_test_id r)"
  using assms by (auto simp: results_ok_def)

lemma results_ok_update:
  assumes "results_ok C tests s0 rs hs st" and "i < length (sy_jobs st)" and "sy_jobs st ! i \<noteq> JPassed"
    and "sy_jobs st' = (sy_jobs st)[i := x]" and "x \<noteq> JPassed" and "sy_channel st' = sy_channel st"
  shows "results_ok C tests s0 rs hs st'"
  using assms(1,2,4-6) unpassed_job [OF assms(1,3)] by (auto simp: results_ok_def nth_list_update)

lemma sum_list_less:
  fixes f :: "'a \<Rightarrow> nat"
  assumes "i < length xs" and "f x + d < f (xs ! i)"
  shows "sum_list (map f (xs[i := x])) + d < sum_list (map f xs)"
proof -
  have "sum_list (map f (xs[i := x])) + f (xs ! i) = sum_list (map f xs) + f x"
    using assms(1) by (induction xs arbitrary: i) (auto split: nat.splits)
  with assms(2) show ?thesis by simp
qed

lemma written_goes_on:
  assumes at: "sys_at C tests s0 rs c hs k st" and i: "i < length (sy_jobs st)" "sy_jobs st ! i = JRunning p"
    and w: "written C p bs" and st': "st' = st\<lparr>sy_jobs := (sy_jobs st)[i := JWritten bs]\<rparr>"
  shows "goes_on C tests s0 st st'"
proof (rule goes_onI)
  note a = sys_atD [OF at]
  have "p = payload_of s0 tests i" using a(6) i by (simp add: jobs_ok_def)
  with w have j: "jobs_ok C tests s0 st'" by (intro jobs_ok_update [OF a(6) i(1), where x = "JWritten bs"]) (auto simp: st')
  have "results_ok C tests s0 rs hs st'" by (rule results_ok_update [OF a(5) i(1), where x = "JWritten bs"]) (simp_all add: i st')
  then show "sys_at C tests s0 rs c hs k st'" by (rule sys_at_job [OF at _ j, where js = "(sy_jobs st)[i := JWritten bs]" and ch = "sy_channel st"]) (simp_all add: st')
  show "steps_left tests st' < steps_left tests st"
    using sum_list_less [OF i(1), of job_left "JWritten bs" 0] i by (simp add: st' steps_left_def)
qed

lemma pass_goes_on:
  assumes ok: "components_ok C tests s0" and at: "sys_at C tests s0 rs c hs k st"
    and i: "i < length (sy_jobs st)" "sy_jobs st ! i = JWritten bs" and full: "collect_worker (map Byte bs) = Some full"
    and st': "st' = st\<lparr>sy_jobs := (sy_jobs st)[i := JPassed], sy_channel := sy_channel st @ [full]\<rparr>"
  shows "goes_on C tests s0 st st'"
proof -
  note a = sys_atD [OF at]
  have n: "i < length tests" "i < 2 ^ 32" using i(1) phase_bound [OF a(4)] components_okD(1) [OF ok] by auto
  have "written C (payload_of s0 tests i) bs" using a(6) i by (simp add: jobs_ok_def)
  from this full obtain r where r: "answer C (payload_of s0 tests i) r" "cp_ser_result C r \<noteq> None"
    "full = frame (result_bytes C r)"
    by (rule collected_answer) (use components_okD(5) [OF ok n(1)] in blast)
  have id: "tr_test_id r = of_nat i" using answer_id [OF r(1)] by simp
  then have u: "unat (tr_test_id r) = i" using unat_of_nat_u32 [OF n(2)] by simp
  have new: "i \<noteq> unat (tr_test_id x)" if "x \<in> set (rs @ hs)" for x by (rule unpassed_job [OF a(5) _ that]) (simp add: i)
  have j: "jobs_ok C tests s0 st'" by (rule jobs_ok_update [OF a(6) i(1), where x = "JPassed"]) (simp_all add: st')
  have "results_ok C tests s0 rs (hs @ [r]) st'"
    unfolding results_ok_def
  proof (intro conjI ballI)
    have "tr_test_id r \<notin> tr_test_id ` set (rs @ hs)" using new u by force
    then show "distinct (map tr_test_id (rs @ hs @ [r]))" using a(5) by (auto simp: results_ok_def)
    show "sy_channel st' = map (\<lambda>r. frame (result_bytes C r)) (hs @ [r])" using a(5) r(3) by (simp add: st' results_ok_def)
    show "\<forall>l<length (sy_jobs st'). sy_jobs st' ! l = JPassed \<longrightarrow> of_nat l \<in> tr_test_id ` set (rs @ hs @ [r])"
      using a(5) id i(1) by (auto simp: st' results_ok_def nth_list_update)
  qed (use a(5) r u i(1) in \<open>auto simp: st' results_ok_def nth_list_update\<close>)
  then have at': "sys_at C tests s0 rs c (hs @ [r]) k st'" by (rule sys_at_job [OF at _ j, where js = "(sy_jobs st)[i := JPassed]" and ch = "sy_channel st @ [full]"]) (simp_all add: st')
  have "steps_left tests st' < steps_left tests st"
    using sum_list_less [OF i(1), of job_left JPassed 1] i by (simp add: st' steps_left_def)
  with at' show ?thesis by (rule goes_onI)
qed

lemma lose_goes_on:
  assumes at: "sys_at C tests s0 rs c hs k st" and i: "i < length (sy_jobs st)" "sy_jobs st ! i = JWritten bs"
    and st': "st' = st\<lparr>sy_jobs := (sy_jobs st)[i := JLost]\<rparr>"
  shows "goes_on C tests s0 st st'"
proof (rule goes_onI)
  note a = sys_atD [OF at]
  have j: "jobs_ok C tests s0 st'" by (rule jobs_ok_update [OF a(6) i(1), where x = "JLost"]) (simp_all add: st')
  have "results_ok C tests s0 rs hs st'" by (rule results_ok_update [OF a(5) i(1), where x = "JLost"]) (simp_all add: i st')
  then show "sys_at C tests s0 rs c hs k st'" by (rule sys_at_job [OF at _ j, where js = "(sy_jobs st)[i := JLost]" and ch = "sy_channel st"]) (simp_all add: st')
  show "steps_left tests st' < steps_left tests st"
    using sum_list_less [OF i(1), of job_left JLost 0] i by (simp add: st' steps_left_def)
qed

lemma job_goes_on:
  assumes ok: "components_ok C tests s0" and at: "sys_at C tests s0 rs c hs k st" and "job_step C st st' \<or> die_step C st st'"
  shows "goes_on C tests s0 st st'"
  using assms(3)
proof
  assume "job_step C st st'"
  then show ?thesis
  proof cases
    case (run i p n s)
    have "written C p (fst (snd (worker_process (cp_isolate C) (cp_hygiene C) (cp_run_test C) (cp_ser_result C) n p s)))"
      unfolding written_def by (metis order_refl take_all)
    from written_goes_on [OF at run(3,4) this run(1)] show ?thesis .
  next
    case (pass i bs full)
    from pass_goes_on [OF ok at pass(3,4,5,1)] show ?thesis .
  next
    case (lose i bs)
    from lose_goes_on [OF at lose(3,4,1)] show ?thesis .
  qed
next
  assume "die_step C st st'"
  then show ?thesis
  proof cases
    case (die i p l n s)
    have "written C p (take l (fst (snd (worker_process (cp_isolate C) (cp_hygiene C) (cp_run_test C) (cp_ser_result C) n p s))))"
      unfolding written_def by blast
    from written_goes_on [OF at die(3,4) this die(1)] show ?thesis .
  qed
qed

lemma fwd_goes_on:
  assumes at: "sys_at C tests s0 rs c hs k st" and "fwd_step st st'"
  shows "goes_on C tests s0 st st'"
  using assms(2)
proof cases
  case (forward x cs ok out)
  note a = sys_atD [OF at]
  obtain h hs' where hs: "hs = h # hs'" "x = frame (result_bytes C h)" "cs = map (\<lambda>r. frame (result_bytes C r)) hs'"
    using a(5) forward(4) by (cases hs) (auto simp: results_ok_def)
  have out: "ok" "out = (sy_result st)\<lparr>s_out := s_out (sy_result st) @ x\<rparr>" using forward(5) a(8) by (auto simp: write_all_def)
  have c: "c \<le> length rs" using a(2) by (simp add: order_ok_def)
  show ?thesis
  proof (rule goes_onI)
    have "in_step (cp_de C) tests (map (result_bytes C) rs @ [result_bytes C h]) (rs @ [h]) [] k c (sy_run st')"
      by (rule in_step_forward [OF a(1) c])
         (use a(1) hs in \<open>simp_all add: forward(1) out to_results_def deliver_def in_step_def counted_def enc_frame_def\<close>)
    moreover have "order_ok (sc_max_workers s0) k c (rs @ [h])" using a(2) by (auto simp: order_ok_def nth_append)
    moreover have "phase_ok C tests s0 c k st'"
      using a(4) by (auto simp: phase_ok_def Let_def forward(1) to_results_def split: sup_phase.splits)
    moreover have "results_ok C tests s0 (rs @ [h]) hs' st'" using a(5) hs by (simp add: results_ok_def forward(1))
    ultimately show "sys_at C tests s0 (rs @ [h]) c hs' k st'"
      using a out by (simp add: sys_at_def forward(1) config_kept_def to_results_def jobs_ok_def)
    show "steps_left tests st' < steps_left tests st" using forward(4) by (simp add: steps_left_def forward(1) to_results_def)
  qed
qed

lemma crashing_goes_on:
  assumes "components_ok C tests s0" and "sys_inv C tests s0 st" and "crashing_step C tests st st'"
  shows "goes_on C tests s0 st st'"
proof -
  from assms(2) obtain rs c hs k where at: "sys_at C tests s0 rs c hs k st" by (auto simp: sys_inv_def)
  from assms(3) consider "sup_step C tests st st'" | "zyg_step C st st'" | "job_step C st st' \<or> die_step C st st'" | "fwd_step st st'"
    by (auto simp: crashing_step_def system_step_def)
  then show ?thesis
    by cases (rule sup_goes_on [OF assms(1) at] zyg_goes_on [OF assms(1) at] job_goes_on [OF assms(1) at] fwd_goes_on [OF at],
      assumption)+
qed

text \<open>The system with workers that may die.\<close>

interpretation crashing: descending_system "crashing_step C tests"
  "\<lambda>st. components_ok C tests s0 \<and> sys_inv C tests s0 st" "steps_left tests" for C tests s0
  by unfold_locales (auto dest: crashing_goes_on simp: goes_on_def)

section \<open>When every worker answers\<close>

text \<open>No result is lost when no worker dies: every thread finds a complete frame.\<close>

definition healthy :: "system \<Rightarrow> bool" where
  "healthy st \<longleftrightarrow> (\<forall>x\<in>set (sy_jobs st). x \<noteq> JLost \<and> (\<forall>bs. x = JWritten bs \<longrightarrow> collect_worker (map Byte bs) \<noteq> None))"

lemma worker_heard:
  assumes "components_ok C tests s0" and "workers_ok_all C tests s0" and i: "i < length tests"
  shows "collect_worker (map Byte (fst (snd (worker_process (cp_isolate C) (cp_hygiene C) (cp_run_test C) (cp_ser_result C) n
     (payload_of s0 tests i) s)))) \<noteq> None"
proof -
  let ?p = "payload_of s0 tests i"
  have "cp_isolate C (of_nat i)" using assms(2) i by (simp add: workers_ok_all_def)
  then obtain r where r: "worker_outcome (cp_isolate C) (cp_hygiene C) (cp_run_test C) n ?p s = Some r"
    by (simp add: worker_outcome_def)
  then have a: "answer C ?p r" by (auto simp: answer_def)
  with assms(2) i obtain b where b: "cp_ser_result C r = Some b" by (auto simp: workers_ok_all_def)
  have "length b < 2 ^ 32" using components_okD(5) [OF assms(1) i a b] by blast
  then show ?thesis using r b collect_worker_frame [of b "[]"] by (simp add: worker_process_out)
qed

lemma healthy_update:
  assumes "healthy st" and "sy_jobs st' = (sy_jobs st)[i := x]" and "x \<noteq> JLost"
    and "\<And>bs. x = JWritten bs \<Longrightarrow> collect_worker (map Byte bs) \<noteq> None"
  shows "healthy st'"
  unfolding healthy_def
proof
  fix y assume "y \<in> set (sy_jobs st')"
  then have "y = x \<or> y \<in> set (sy_jobs st)" using assms(2) set_update_subset_insert [of "sy_jobs st" i x] by auto
  with assms(1,3,4) show "y \<noteq> JLost \<and> (\<forall>bs. y = JWritten bs \<longrightarrow> collect_worker (map Byte bs) \<noteq> None)"
    by (auto simp: healthy_def)
qed

lemma healthy_kept:
  assumes ok: "components_ok C tests s0" "workers_ok_all C tests s0" and inv: "sys_inv C tests s0 st"
    and h: "healthy st" and "system_step C tests st st'"
  shows "healthy st'"
proof -
  obtain rs c hs k where at: "sys_at C tests s0 rs c hs k st" using inv by (auto simp: sys_inv_def)
  from assms(5) consider "sy_jobs st' = sy_jobs st" | "zyg_step C st st'" | "job_step C st st'"
    by (auto simp: system_step_def elim!: sup_stepE fwd_stepE)
  then show ?thesis
  proof cases
    case 1
    with h show ?thesis by (simp add: healthy_def)
  next
    case 2
    then show ?thesis using h by cases (auto simp: healthy_def new_jobs_def)
  next
    case 3
    then show ?thesis
    proof cases
      case (run i p n s)
      have "p = payload_of s0 tests i" "i < length tests"
        using sys_atD(6) [OF at] run(3,4) phase_bound [OF sys_atD(4) [OF at]] by (auto simp: jobs_ok_def)
      with worker_heard [OF ok] show ?thesis by (intro healthy_update [OF h]) (auto simp: run(1))
    next
      case (lose i bs)
      then have "JWritten bs \<in> set (sy_jobs st)" by (metis nth_mem)
      with h lose(5) show ?thesis by (auto simp: healthy_def)
    next
      case (pass i bs full)
      show ?thesis by (rule healthy_update [OF h, where x = JPassed]) (simp_all add: pass(1))
    qed
  qed
qed

definition whole_inv :: "components \<Rightarrow> RunnableTest list \<Rightarrow> Scheduler \<Rightarrow> system \<Rightarrow> bool" where
  "whole_inv C tests s0 st \<longleftrightarrow>
     components_ok C tests s0 \<and> workers_ok_all C tests s0 \<and> sys_inv C tests s0 st \<and> healthy st"

interpretation whole: descending_system "system_step C tests" "whole_inv C tests s0" "steps_left tests" for C tests s0
proof unfold_locales
  fix st st' assume inv: "whole_inv C tests s0 st" and step: "system_step C tests st st'"
  then have "goes_on C tests s0 st st'" by (intro crashing_goes_on) (simp_all add: whole_inv_def crashing_step_def)
  moreover have "healthy st'" using inv by (intro healthy_kept [of _ _ s0, OF _ _ _ _ step]) (simp_all add: whole_inv_def)
  ultimately show "whole_inv C tests s0 st'" "steps_left tests st' < steps_left tests st"
    using inv by (simp_all add: whole_inv_def goes_on_def)
qed

subsection \<open>Progress\<close>

text \<open>As long as a confirmed test has no result with the supervisor, its worker, its thread or the
  forwarding thread can take a step.\<close>

lemma result_on_the_way:
  assumes at: "sys_at C tests s0 rs c hs k st" and "healthy st" and alive: "sy_alive st"
    and "length rs < length (sy_jobs st)" and n: "length tests < 2 ^ 32"
  shows "\<exists>st'. job_step C st st' \<or> fwd_step st st'"
proof (cases hs)
  case (Cons h hs')
  then obtain x cs where ch: "sy_channel st = x # cs" using sys_atD(5) [OF at] by (auto simp: results_ok_def)
  obtain ok out where "write_all x (sy_result st) = (ok, out)" by fastforce
  from fwd_step.forward [OF alive sys_atD(7) [OF at] ch this] show ?thesis by blast
next
  case Nil
  have "\<exists>i<length (sy_jobs st). sy_jobs st ! i \<noteq> JPassed"
  proof (rule ccontr)
    assume "\<not> ?thesis"
    then have "of_nat ` {..<length (sy_jobs st)} \<subseteq> tr_test_id ` set rs"
      using sys_atD(5) [OF at] Nil by (auto simp: results_ok_def)
    then have "card (of_nat ` {..<length (sy_jobs st)} :: u32 set) \<le> length rs"
      by (meson List.finite_set card_image_le card_length card_mono finite_imageI order_trans)
    moreover have "inj_on (of_nat :: nat \<Rightarrow> u32) {..<length (sy_jobs st)}"
      using phase_bound [OF sys_atD(4) [OF at]] n by (intro inj_on_inverseI [where g = unat]) (auto intro!: unat_of_nat_u32)
    ultimately show False using assms(4) by (simp add: card_image)
  qed
  then obtain i where i: "i < length (sy_jobs st)" "sy_jobs st ! i \<noteq> JPassed" by blast
  then have "sy_jobs st ! i \<noteq> JLost" using assms(2) by (auto simp: healthy_def)
  then consider p where "sy_jobs st ! i = JRunning p" | bs where "sy_jobs st ! i = JWritten bs"
    using i(2) by (cases "sy_jobs st ! i") auto
  then show ?thesis
  proof cases
    case 1
    from job_step.run [OF alive i(1) this] show ?thesis by blast
  next
    case (2 bs)
    then show ?thesis using job_step.pass [OF alive i(1)] job_step.lose [OF alive i(1)]
      by (cases "collect_worker (map Byte bs)") blast+
  qed
qed

lemma looping_moves:
  assumes ok: "components_ok C tests s0" and at: "sys_at C tests s0 rs c hs k st" and "healthy st"
    and ph: "sy_phase st = Looping"
  shows "\<exists>st'. system_step C tests st st'"
proof -
  note a = sys_atD [OF at] and l = looping [OF at ph]
  note n = components_okD(1) [OF ok]
  have c: "c \<le> length rs" "rn_collected (sy_run st) = c"
    using a(2) in_step_collected [OF a(1)] by (simp_all add: order_ok_def)
  have way: ?thesis if "c = length rs" "c < k"
    using result_on_the_way [OF at assms(3) l(1)] that l(4) n by (auto simp: system_step_def)
  show ?thesis
  proof (cases "sy_queue st")
    case (Cons x q)
    then obtain i t where q: "sy_queue st = (i, t) # q" by (cases x) auto
    note h = queue_head [OF at ph q]
    show ?thesis
    proof (cases "at_capacity (sy_run st)")
      case False
      let ?r = "report_event (TestStart (rt_test_name t) (path_text (rt_file_path t))) (sy_run st)"
      obtain s where "dispatch_send (cp_ser C) t i (unat i mod sc_max_workers (rn_sched (sy_run st))) (rn_sched ?r) = (Inr (), s)"
        using send_next [OF ok at ph h(1) refl refl] h(2,3) by metis
      from sup_step.send [OF ph q False refl refl this] show ?thesis by (auto simp: system_step_def)
    next
      case True
      show ?thesis
      proof (cases "c < length rs")
        case c: True
        have r: "sy_run st = (sy_run st)\<lparr>rn_sched := (rn_sched (sy_run st))\<lparr>sc_tick := sc_tick (rn_sched (sy_run st))\<rparr>\<rparr>" by simp
        obtain rep s where "try_collect_result_for_reporter (cp_de C) (rn_sched (sy_run st)) = (Some rep, s)"
          by (rule collectable [OF ok at ph r c])
        from sup_step.collect_for_slot [OF ph _ True this] q show ?thesis by (auto simp: system_step_def)
      next
        case False
        have "sc_max_workers s0 \<le> k - c"
          using True sys_at_active [OF at n] a(3) by (simp add: at_capacity_def config_kept_def)
        with components_okD(2) [OF ok] have "c < k" by linarith
        with False c show ?thesis by (intro way) auto
      qed
    qed
  next
    case Nil
    then have k: "k = length tests" using l(2,5) by (simp add: enumerate_tests_def)
    show ?thesis
    proof (cases "c < length tests")
      case False
      obtain ok s where "sched_shutdown (rn_sched (tick_now (sy_run st))) = (ok, s)" by fastforce
      from sup_step.finish [OF ph Nil refl _ this] False c show ?thesis by (auto simp: system_step_def)
    next
      case c': True
      show ?thesis
      proof (cases "c < length rs")
        case True
        have r: "tick_now (sy_run st) = (sy_run st)\<lparr>rn_sched := (rn_sched (sy_run st))\<lparr>sc_tick := Suc (sc_tick (rn_sched (sy_run st)))\<rparr>\<rparr>"
          by (simp add: tick_now_def)
        obtain rep s where "try_collect_result_for_reporter (cp_de C) (rn_sched (tick_now (sy_run st))) = (Some rep, s)"
          by (rule collectable [OF ok at ph r True])
        from sup_step.collect_rest [OF ph Nil _ this] c c' show ?thesis by (auto simp: system_step_def)
      next
        case False
        with c c' k show ?thesis by (intro way) auto
      qed
    qed
  qed
qed

lemma waiting_moves:
  assumes ok: "components_ok C tests s0" and at: "sys_at C tests s0 rs c hs k st" and ph: "sy_phase st = Waiting i t slot"
  shows "\<exists>st'. system_step C tests st st'"
proof (cases "s_in (zy_cmd (sy_zyg st)) = []")
  case True
  obtain pid where "s_in (sc_cmd_socket (rn_sched (sy_run st))) = map Byte (u32_to_le pid)"
    using sys_atD(4) [OF at] ph True by (auto simp: phase_ok_def Let_def)
  moreover have "read_exact 4 (map Byte (u32_to_le pid)) = (Some (u32_to_le pid), [])"
    using read_exact_bytes_n [of 4 "u32_to_le pid" "[]"] by simp
  ultimately obtain s where "dispatch_confirm t i slot (rn_sched (sy_run st)) = (Inr (), s)"
    by (simp add: dispatch_confirm_def instant_now_def)
  from sup_step.confirm [OF ph this] show ?thesis by (auto simp: system_step_def)
next
  case False
  have alive: "sy_alive st" using sys_atD(4) [OF at] ph by (simp add: phase_ok_def Let_def)
  from pending_command [OF at alive False] ph obtain buf where
    b: "cp_ser C (payload_of s0 tests k) = Some buf" "k < length tests" "s_in (zy_cmd (sy_zyg st)) = Byte CMD_FORK # enc_frame buf"
    by auto
  obtain z z' where "read_cmd (sy_zyg st) = (True, z)" "zy_buf z = CMD_FORK" "fst (read_frame (s_in (zy_cmd z))) \<noteq> None"
    "handle_fork (cp_de_payload C) (cp_kern C) z = Inr z'"
    by (rule serve_ok [OF ok at b]) blast
  from zyg_step.serve [OF alive False this] show ?thesis by (auto simp: system_step_def)
qed

text \<open>A state in which nothing can happen any more is the end of the run.\<close>

lemma whole_end:
  assumes inv: "whole_inv C tests s0 st" and stuck: "\<nexists>st'. system_step C tests st st'"
  obtains rs where "sys_at C tests s0 rs (length tests) [] (length tests) st" and "length rs = length tests"
    and "sy_phase st = Finished" and "\<not> sy_alive st"
proof -
  from inv obtain rs c hs k where ok: "components_ok C tests s0" and h: "healthy st" and at: "sys_at C tests s0 rs c hs k st"
    by (auto simp: whole_inv_def sys_inv_def)
  have ph: "sy_phase st = Finished"
    using looping_moves [OF ok at h] waiting_moves [OF ok at] stuck by (cases "sy_phase st") blast+
  then have p: "k = length tests" "c = length tests" "length (sy_jobs st) = length tests"
    "s_in (zy_cmd (sy_zyg st)) = (if sy_alive st then [Byte CMD_EXIT] else [])"
    using sys_atD(4) [OF at] by (simp_all add: phase_ok_def Let_def)
  have alive: "\<not> sy_alive st"
  proof
    assume "sy_alive st"
    with p(4) have "read_cmd (sy_zyg st) = (True, (sy_zyg st)\<lparr>zy_buf := CMD_EXIT, zy_cmd := (zy_cmd (sy_zyg st))\<lparr>s_in := []\<rparr>\<rparr>)"
      by (simp add: read_cmd_byte)
    from zyg_step.leave [OF \<open>sy_alive st\<close> _ this] p(4) \<open>sy_alive st\<close> stuck show False by (auto simp: system_step_def)
  qed
  have "c \<le> length rs" using sys_atD(2) [OF at] by (simp add: order_ok_def)
  moreover have "length rs + length hs \<le> length tests" using results_count [OF sys_atD(5) [OF at]] p(3) by simp
  ultimately have "length hs = 0" "length rs = length tests" using p(2) by linarith+
  then have "hs = []" "length rs = length tests" by simp_all
  with at p ph alive show ?thesis by (intro that [of rs]) simp_all
qed

section \<open>Properties\<close>

text \<open>The supervisor as \<^verbatim>\<open>Scheduler::new\<close> makes it, with two fresh sockets.\<close>

definition fresh_scheduler :: "LogCapture \<Rightarrow> path \<Rightarrow> os \<Rightarrow> (nat \<Rightarrow> nat) \<Rightarrow> Scheduler" where
  "fresh_scheduler capture dp os clock = new_scheduler \<lparr>s_out = [], s_wfail = [], s_in = []\<rparr> [] capture dp os clock"

text \<open>The answers of the workers, one for each test, in an order in which they can be read.\<close>

definition answered :: "components \<Rightarrow> RunnableTest list \<Rightarrow> Scheduler \<Rightarrow> TestResult list \<Rightarrow> bool" where
  "answered C tests s0 rs \<longleftrightarrow> causal (length tests) (sc_max_workers s0) rs \<and>
     (\<forall>r\<in>set rs. answer C (payload_of s0 tests (unat (tr_test_id r))) r)"

lemma fresh_start: "sys_at C tests (fresh_scheduler capture dp os clock) [] 0 [] 0 (system_start tests (fresh_scheduler capture dp os clock))"
  by (rule sys_at_start) (simp_all add: fresh_scheduler_def new_scheduler_def)

lemma whole_start:
  "components_ok C tests s0 \<Longrightarrow> workers_ok_all C tests s0 \<Longrightarrow> s0 = fresh_scheduler capture dp os clock \<Longrightarrow>
     whole_inv C tests s0 (system_start tests s0)"
  using fresh_start [of C tests capture dp os clock] by (auto simp: whole_inv_def sys_inv_def healthy_def system_start_def)

lemma end_answered:
  assumes "sys_at C tests s0 rs (length tests) [] (length tests) st" and "length rs = length tests"
  shows "answered C tests s0 rs"
  using sys_atD(2,5) [OF assms(1)] assms(2) by (auto simp: answered_def causal_def order_ok_def results_ok_def)

text \<open>What the run has come to when nothing can happen any more.\<close>

lemma end_reported:
  assumes "whole_inv C tests s0 st" and "\<nexists>st'. system_step C tests st st'"
  obtains rs where "answered C tests s0 rs" and "sy_phase st = Finished" and "\<not> sy_alive st"
    and "finished (rn_events (sy_run st)) = map (finish_event tests) rs"
    and "rn_passed (sy_run st) = length (filter (\<lambda>x. tr_status x = STATUS_PASS) rs)"
    and "rn_failed (sy_run st) = length (filter (\<lambda>x. tr_status x \<noteq> STATUS_PASS) rs)"
proof -
  from assms obtain rs where at: "sys_at C tests s0 rs (length tests) [] (length tests) st" and n: "length rs = length tests"
    and ph: "sy_phase st = Finished" "\<not> sy_alive st" by (rule whole_end)
  have i: "in_step (cp_de C) tests (map (result_bytes C) rs) rs [] (length tests) (length rs) (sy_run st)"
    using sys_atD(1) [OF at] n by simp
  show ?thesis
    by (rule that [OF end_answered [OF at n] ph in_step_end(3) [OF i] in_step_end(1) [OF i] in_step_end(2) [OF i]])
qed




section \<open>Whatever happens\<close>

text \<open>An invariant of all steps, without conditions on anything outside: the counters, the capacity, and the
  zygote's record of its workers.\<close>

definition books_ok :: "nat \<Rightarrow> system \<Rightarrow> bool" where
  "books_ok m st \<longleftrightarrow> counted (sy_run st) \<and> workers_ok m (sy_run st) \<and> length (sy_jobs st) = length (zy_workers (sy_zyg st)) \<and>
     (\<forall>i t slot. sy_phase st = Waiting i t slot \<longrightarrow>
        length (sc_active_workers (rn_sched (sy_run st))) < m \<and> slot = unat i mod m)"

lemma workers_ok_same:
  assumes "workers_ok m r" and "sc_active_workers (rn_sched r') = sc_active_workers (rn_sched r)"
    and "sc_max_workers (rn_sched r') = sc_max_workers (rn_sched r)"
  shows "workers_ok m r'"
  using assms by (simp add: workers_ok_def)

lemma dispatch_send_keeps:
  "dispatch_send ser t i slot s = (res, s') \<Longrightarrow> sc_active_workers s' = sc_active_workers s \<and> sc_max_workers s' = sc_max_workers s"
  by (auto simp: dispatch_send_def Let_def split: option.splits prod.splits if_splits)

lemma sched_shutdown_keeps:
  "sched_shutdown s = (ok, s') \<Longrightarrow> sc_active_workers s' = sc_active_workers s \<and> sc_max_workers s' = sc_max_workers s"
  by (auto simp: sched_shutdown_def Let_def split: prod.splits)

lemma confirm_keeps:
  assumes "workers_ok m r" and "length (sc_active_workers (rn_sched r)) < m" and "slot = unat i mod m"
    and "dispatch_confirm t i slot (rn_sched r) = (res, s)"
  shows "workers_ok m (r\<lparr>rn_sched := s\<rparr>)"
proof -
  obtain bs rest where rd: "read_exact 4 (s_in (sc_cmd_socket (rn_sched r))) = (bs, rest)" by fastforce
  show ?thesis
  proof (cases bs)
    case None
    with rd assms(1,4) show ?thesis by (auto simp: dispatch_confirm_def workers_ok_def)
  next
    case (Some b)
    with rd assms(4) have s: "sc_active_workers s = hm_insert i \<lparr>aw_test_name = rt_test_name t, aw_slot = slot,
        aw_start_time = sc_clock (rn_sched r) (sc_tick (rn_sched r))\<rparr> (sc_active_workers (rn_sched r))"
      "sc_max_workers s = sc_max_workers (rn_sched r)"
      by (auto simp: dispatch_confirm_def instant_now_def)
    have hm: "hm_ok (sc_active_workers (rn_sched r))" using assms(1) by (simp add: workers_ok_def Let_def)
    have "length (sc_active_workers s) \<le> m" unfolding s(1) using hm.len_ins_le [OF hm] assms(2) by (meson Suc_leI order_trans)
    then show ?thesis using assms(1,3) s by (auto simp: workers_ok_def Let_def hm.wf_ins hm_get_insert)
  qed
qed

text \<open>The steps of the supervisor, with what they do to its records.\<close>

lemma books_sup:
  assumes b: "books_ok m st" and "sup_step C tests st st'"
  shows "books_ok m st'"
proof -
  have c: "counted (sy_run st)" and w: "workers_ok m (sy_run st)" using b by (simp_all add: books_ok_def)
  have cap: "length (sc_active_workers (rn_sched (sy_run st))) < m" if "\<not> at_capacity (sy_run st)"
    using that w by (simp add: at_capacity_def workers_ok_def Let_def)
  have mx: "sc_max_workers (rn_sched (sy_run st)) = m" using w by (simp add: workers_ok_def Let_def)
  from assms(2) show ?thesis
  proof cases
    case (send i t q slot r s)
    note k = dispatch_send_keeps [OF send(7)]
    have "workers_ok m (r\<lparr>rn_sched := s\<rparr>)" by (rule workers_ok_same [OF w]) (use k send(6) in \<open>simp_all add: report_event_def\<close>)
    then show ?thesis using b cap send(4,5) mx k
      by (simp add: send(1,6) books_ok_def counted_simps to_zygote_def) (simp add: report_event_def)
  next
    case (send_failed i t q slot r e s)
    note k = dispatch_send_keeps [OF send_failed(7)]
    have "workers_ok m (r\<lparr>rn_sched := s\<rparr>)" by (rule workers_ok_same [OF w]) (use k send_failed(6) in \<open>simp_all add: report_event_def\<close>)
    then show ?thesis using b send_failed(2)
      by (simp add: send_failed(1,6) books_ok_def counted_simps to_zygote_def workers_ok_def)
  next
    case (confirm i t slot s)
    have "workers_ok m ((sy_run st)\<lparr>rn_sched := s\<rparr>)"
      using b confirm(2) by (intro confirm_keeps [OF w _ _ confirm(3)]) (simp_all add: books_ok_def)
    then show ?thesis using b by (simp add: confirm(1) books_ok_def counted_simps)
  next
    case (collect_for_slot rep s)
    then show ?thesis using b cap.collect [OF w collect_for_slot(5)] by (simp add: books_ok_def counted_simps)
  next
    case (collect_rest rep s)
    have "workers_ok m (tick_now (sy_run st))" using cap.tick [OF w] by (simp add: tick_now_def)
    from cap.collect [OF this collect_rest(5)] show ?thesis
      using b collect_rest(2) by (simp add: collect_rest(1) books_ok_def counted_simps tick_now_def)
  next
    case (finish r ok s)
    note k = sched_shutdown_keeps [OF finish(6)]
    have "workers_ok m (report_event e (r\<lparr>rn_sched := s\<rparr>))" for e
      by (rule workers_ok_same [OF w]) (use k finish(4) in \<open>simp_all add: report_event_def tick_now_def\<close>)
    then show ?thesis using b finish(4) by (simp add: finish(1) books_ok_def counted_simps to_zygote_def)
  qed
qed

lemma books_late:
  assumes b: "books_ok m st" and "late_step C tests st st'"
  shows "books_ok m st'"
proof -
  have c: "counted (sy_run st)" and w: "workers_ok m (sy_run st)" using b by (simp_all add: books_ok_def)
  have t: "workers_ok m (tick_now (sy_run st))" using cap.tick [OF w] by (simp add: tick_now_def)
  from assms(2) show ?thesis
  proof cases
    case shutdown
    then show ?thesis using b cap.error [OF w] by (simp add: books_ok_def counted_simps)
  next
    case (miss_for_slot s)
    then show ?thesis using b cap.miss [OF w miss_for_slot(5)] by (simp add: books_ok_def counted_simps)
  next
    case (miss_rest s)
    have "workers_ok m (collect_step (cp_de C) (tick_now (sy_run st)))"
      by (rule collect_step_keeps [where P = "workers_ok m" and Q = "\<lambda>_. True", OF t])
         (auto intro: cap.collect cap.miss cap.tick cap.stale simp del: report_stale.simps)
    moreover have "counted (collect_step (cp_de C) (tick_now (sy_run st)))"
      by (rule collect_step_keeps [where P = counted and Q = "\<lambda>_. True"])
         (use c in \<open>auto simp: counted_simps tick_now_def intro: counted_stale simp del: report_stale.simps\<close>)
    ultimately show ?thesis using b miss_rest(2) by (simp add: miss_rest(1) books_ok_def)
  next
    case (deadline r ok s)
    note k = sched_shutdown_keeps [OF deadline(6)]
    have "workers_ok m (report_event e (r\<lparr>rn_sched := s\<rparr>))" for e
      by (rule workers_ok_same [OF w]) (use k deadline(4) in \<open>simp_all add: report_event_def tick_now_def\<close>)
    then show ?thesis using b deadline(4) by (simp add: deadline(1) books_ok_def counted_simps to_zygote_def tick_now_def)
  next
    case (confirm_failed i t slot e s)
    have "workers_ok m ((sy_run st)\<lparr>rn_sched := s\<rparr>)"
      using b confirm_failed(2) by (intro confirm_keeps [OF w _ _ confirm_failed(4)]) (simp_all add: books_ok_def)
    then show ?thesis using b by (simp add: confirm_failed(1) books_ok_def counted_simps workers_ok_def)
  qed
qed

lemma handle_fork_workers:
  "handle_fork de kern z = Inr z' \<Longrightarrow> length (zy_workers z) \<le> length (zy_workers z')"
  by (auto simp: handle_fork_def Let_def split: prod.splits option.splits if_splits bool.splits)

lemma read_cmd_workers: "read_cmd z = (ok, z') \<Longrightarrow> zy_workers z' = zy_workers z"
  by (auto simp: read_cmd.simps split: list.splits rd_item.splits)

lemma books_zyg:
  assumes b: "books_ok m st" and "zyg_step C st st'"
  shows "books_ok m st'"
proof -
  have w: "workers_ok m (sy_run st)" using b by (simp add: books_ok_def)
  from assms(2) show ?thesis
  proof cases
    case (serve z z')
    have "workers_ok m (to_supervisor z z' (sy_run st))" by (rule workers_ok_same [OF w]) (simp_all add: to_supervisor_def)
    then show ?thesis
      using b read_cmd_workers [OF serve(4)] handle_fork_workers [OF serve(7)]
      by (simp add: serve(1) books_ok_def new_jobs_def) (auto simp: to_supervisor_def counted_simps)
  qed (use b in \<open>simp_all add: books_ok_def read_cmd_workers\<close>)
qed

lemma books_rest:
  assumes b: "books_ok m st" and "job_step C st st' \<or> die_step C st st' \<or> fwd_step st st'"
  shows "books_ok m st'"
proof -
  have w: "workers_ok m (sy_run st)" using b by (simp add: books_ok_def)
  have "workers_ok m (to_results x y (sy_run st))" for x y by (rule workers_ok_same [OF w]) (simp_all add: to_results_def)
  with assms show ?thesis
    by (elim disjE job_stepE die_stepE fwd_stepE)
       (simp_all add: books_ok_def, auto simp: to_results_def counted_simps)
qed

interpretation books: step_system "any_step C tests" "books_ok m" for C tests m
  by unfold_locales (auto simp: any_step_def crashing_step_def system_step_def intro: books_sup books_late books_zyg books_rest)

text \<open>C4: Whatever happens, in every interleaving, with failing writes, dying workers, late or unreadable results, stale workers,
  a lost zygote and a shutdown at any moment: the counters of the run are those of its reports, as many results count as
  collected as were reported, never more workers are active than there are slots, each at the slot of its test id,
  and there is one job for each worker the zygote has forked.\<close>

theorem every_interleaving_counts:
  "\<forall>st. (any_step C tests)\<^sup>*\<^sup>* (system_start tests (fresh_scheduler capture dp os clock)) st \<longrightarrow>
     rn_passed (sy_run st) = passes (rn_events (sy_run st)) \<and> rn_failed (sy_run st) = failures (rn_events (sy_run st)) \<and>
     rn_collected (sy_run st) = length (finished (rn_events (sy_run st))) \<and>
     length (sc_active_workers (rn_sched (sy_run st))) \<le> slot_count capture \<and>
     (\<forall>i w. hm_get (sc_active_workers (rn_sched (sy_run st))) i = Some w \<longrightarrow> aw_slot w = unat i mod slot_count capture) \<and>
     length (sy_jobs st) = length (zy_workers (sy_zyg st))"
proof (intro allI impI)
  have start: "books_ok (slot_count capture) (system_start tests (fresh_scheduler capture dp os clock))"
    by (simp add: books_ok_def system_start_def fresh_scheduler_def new_scheduler_def run_init_def workers_ok_def counted_def
        passes_def failures_def)
  fix st assume "(any_step C tests)\<^sup>*\<^sup>* (system_start tests (fresh_scheduler capture dp os clock)) st"
  from books.reachable [OF this start] have b: "books_ok (slot_count capture) st" .
  then show "rn_passed (sy_run st) = passes (rn_events (sy_run st)) \<and> rn_failed (sy_run st) = failures (rn_events (sy_run st)) \<and>
     rn_collected (sy_run st) = length (finished (rn_events (sy_run st))) \<and>
     length (sc_active_workers (rn_sched (sy_run st))) \<le> slot_count capture \<and>
     (\<forall>i w. hm_get (sc_active_workers (rn_sched (sy_run st))) i = Some w \<longrightarrow> aw_slot w = unat i mod slot_count capture) \<and>
     length (sy_jobs st) = length (zy_workers (sy_zyg st))"
    using counted_collected [of "sy_run st"] by (simp add: books_ok_def workers_ok_def counted_def Let_def)
qed

section \<open>A fork that fails\<close>

text \<open>The first command is sent and never answered.\<close>

definition hanging :: "components \<Rightarrow> RunnableTest list \<Rightarrow> Scheduler \<Rightarrow> u8 list \<Rightarrow> system \<Rightarrow> bool" where
  "hanging C tests s0 buf st \<longleftrightarrow>
     sy_alive st \<and> sy_jobs st = [] \<and> sy_channel st = [] \<and> finished (rn_events (sy_run st)) = [] \<and>
     s_in (sc_cmd_socket (rn_sched (sy_run st))) = [] \<and> config_kept s0 (rn_sched (sy_run st)) \<and>
     (sy_phase st = Looping \<and> sy_queue st = enumerate_tests tests \<and> s_in (zy_cmd (sy_zyg st)) = [] \<and>
        sc_active_workers (rn_sched (sy_run st)) = [] \<and> zy_requests (sy_zyg st) = 0 \<or>
      (\<exists>i t slot. sy_phase st = Waiting i t slot) \<and>
        (s_in (zy_cmd (sy_zyg st)) = Byte CMD_FORK # enc_frame buf \<and> zy_requests (sy_zyg st) = 0 \<or>
         s_in (zy_cmd (sy_zyg st)) = []))"

lemma hanging_sup:
  assumes "tests \<noteq> []" and "0 < sc_max_workers s0" and ser: "cp_ser C (payload_of s0 tests 0) = Some buf"
    and h: "hanging C tests s0 buf st" and "sup_step C tests st st'"
  shows "hanging C tests s0 buf st'"
proof -
  have q: "enumerate_tests tests = (0, tests ! 0) # drop 1 (enumerate_tests tests)"
    using drop_enumerate_tests [of 0 tests] assms(1) by simp
  have head: "i = 0 \<and> t = tests ! 0" if "sy_phase st = Looping" "sy_queue st = (i, t) # q'" for i t q'
  proof -
    have "(i, t) # q' = (0, tests ! 0) # drop 1 (enumerate_tests tests)" using h q that by (metis hanging_def sup_phase.distinct(1))
    then show ?thesis by simp
  qed
  have sent: "dispatch_send (cp_ser C) (tests ! 0) 0 slot (rn_sched (sy_run st)) = (Inr (), (rn_sched (sy_run st))\<lparr>sc_cmd_socket :=
      (sc_cmd_socket (rn_sched (sy_run st)))\<lparr>s_out := s_out (sc_cmd_socket (rn_sched (sy_run st))) @ CMD_FORK # frame buf\<rparr>\<rparr>)"
    if "slot = unat (0 :: u32) mod sc_max_workers (rn_sched (sy_run st))" for slot
    using payload_kept [of s0 "rn_sched (sy_run st)" slot 0 tests] ser h that
    by (intro dispatch_send_ok) (simp_all add: hanging_def config_kept_def)
  from assms(5) show ?thesis
  proof cases
    case (send i t q' slot r s)
    then have it: "i = 0" "t = tests ! 0" "sy_phase st = Looping" using head by blast+
    with send(5-7) sent [of slot] have s: "s = (rn_sched (sy_run st))\<lparr>sc_cmd_socket :=
      (sc_cmd_socket (rn_sched (sy_run st)))\<lparr>s_out := s_out (sc_cmd_socket (rn_sched (sy_run st))) @ CMD_FORK # frame buf\<rparr>\<rparr>"
      by (simp add: report_event_def)
    have "rn_sched r = rn_sched (sy_run st)" "finished (rn_events r) = finished (rn_events (sy_run st))"
      by (simp_all add: send(6) report_event_def finished_def)
    with h it show ?thesis
      by (auto simp: send(1) hanging_def s to_zygote_def deliver_def config_kept_def enc_frame_def)
  next
    case (send_failed i t q' slot r e s)
    then have "i = 0" "t = tests ! 0" using head by blast+
    with send_failed(5-7) sent [of slot] show ?thesis by (simp add: report_event_def)
  next
    case (confirm i t slot s)
    with h have "s_in (sc_cmd_socket (rn_sched (sy_run st))) = []" by (simp add: hanging_def)
    with confirm(3) show ?thesis by (simp add: dispatch_confirm_def numeral_eq_Suc)
  qed (use h assms(1,2) q in \<open>auto simp: hanging_def at_capacity_def config_kept_def\<close>)
qed

lemma hanging_zyg:
  assumes "length buf < 2 ^ 32" and de: "\<forall>p. cp_de_payload C buf = Some p \<longrightarrow> cp_kern C 0 = (True, None)"
    and h: "hanging C tests s0 buf st" and "zyg_step C st st'"
  shows "hanging C tests s0 buf st'"
proof -
  have "s_in (zy_cmd (sy_zyg st)) \<noteq> []" using assms(4) by cases simp_all
  with h obtain i t slot where w: "sy_phase st = Waiting i t slot" "zy_requests (sy_zyg st) = 0"
    "s_in (zy_cmd (sy_zyg st)) = Byte CMD_FORK # enc_frame buf" by (auto simp: hanging_def)
  let ?z = "(sy_zyg st)\<lparr>zy_buf := CMD_FORK, zy_cmd := (zy_cmd (sy_zyg st))\<lparr>s_in := enc_frame buf\<rparr>\<rparr>"
  have rd: "read_cmd (sy_zyg st) = (True, ?z)" by (rule read_cmd_byte [OF w(3)])
  have f: "read_frame (enc_frame buf) = (Some buf, [])" using fr.dec_enc [OF assms(1), of "[]"] by simp
  obtain n where hf: "handle_fork (cp_de_payload C) (cp_kern C) ?z =
      Inr (?z\<lparr>zy_cmd := (zy_cmd ?z)\<lparr>s_in := []\<rparr>, zy_requests := n\<rparr>)"
  proof (cases "cp_de_payload C buf")
    case None
    with f show ?thesis by (intro that [of "zy_requests ?z"]) (simp add: handle_fork_def)
  next
    case (Some p)
    with f de w(2) show ?thesis by (intro that [of 1]) (simp add: handle_fork_def Let_def)
  qed
  from assms(4) show ?thesis
  proof cases
    case (serve z z')
    with rd hf have z: "z = ?z" "z' = ?z\<lparr>zy_cmd := (zy_cmd ?z)\<lparr>s_in := []\<rparr>, zy_requests := n\<rparr>" by simp_all
    show ?thesis using h w
      by (simp add: serve(1) hanging_def z new_jobs_def to_supervisor_def deliver_def config_kept_def)
  qed (use rd hf in \<open>auto simp: cmd_defs\<close>)
qed

interpretation hang: step_system "crashing_step C tests"
  "\<lambda>st. tests \<noteq> [] \<and> 0 < sc_max_workers s0 \<and> cp_ser C (payload_of s0 tests 0) = Some buf \<and> length buf < 2 ^ 32 \<and>
     (\<forall>p. cp_de_payload C buf = Some p \<longrightarrow> cp_kern C 0 = (True, None)) \<and> hanging C tests s0 buf st" for C tests s0 buf
proof unfold_locales
  fix st st' assume inv: "tests \<noteq> [] \<and> 0 < sc_max_workers s0 \<and> cp_ser C (payload_of s0 tests 0) = Some buf \<and> length buf < 2 ^ 32 \<and>
     (\<forall>p. cp_de_payload C buf = Some p \<longrightarrow> cp_kern C 0 = (True, None)) \<and> hanging C tests s0 buf st"
    and step: "crashing_step C tests st st'"
  have "\<not> job_step C st st'" "\<not> die_step C st st'" "\<not> fwd_step st st'"
    using inv by (auto simp: hanging_def elim: job_stepE die_stepE fwd_stepE)
  with step inv hanging_sup [of tests s0 C buf st st'] hanging_zyg [of buf C tests s0 st st']
  show "tests \<noteq> [] \<and> 0 < sc_max_workers s0 \<and> cp_ser C (payload_of s0 tests 0) = Some buf \<and> length buf < 2 ^ 32 \<and>
     (\<forall>p. cp_de_payload C buf = Some p \<longrightarrow> cp_kern C 0 = (True, None)) \<and> hanging C tests s0 buf st'"
    unfolding crashing_step_def system_step_def by blast
qed

text \<open>C5: When the zygote cannot fork the worker of the first test, or cannot decode its payload, it sends no
  process id, and the supervisor, whose read of the process id has no timeout, waits for it forever: in
  no interleaving is a result ever reported or the run finished.\<close>

theorem fork_failure_hangs:
  assumes "tests \<noteq> []" and "0 < sc_max_workers s0" and "s0 = fresh_scheduler capture dp os clock"
    and "cp_ser C (payload_of s0 tests 0) = Some buf" and "length buf < 2 ^ 32"
    and "cp_de_payload C buf = None \<or> cp_kern C 0 = (True, None)"
  shows "\<forall>st. (crashing_step C tests)\<^sup>*\<^sup>* (system_start tests s0) st \<longrightarrow>
     sy_phase st \<noteq> Finished \<and> finished (rn_events (sy_run st)) = []"
proof (intro allI impI)
  have "hanging C tests s0 buf (system_start tests s0)"
    by (simp add: hanging_def system_start_def assms(3) fresh_scheduler_def new_scheduler_def run_init_def finished_def config_kept_def)
  then have start: "tests \<noteq> [] \<and> 0 < sc_max_workers s0 \<and> cp_ser C (payload_of s0 tests 0) = Some buf \<and> length buf < 2 ^ 32 \<and>
     (\<forall>p. cp_de_payload C buf = Some p \<longrightarrow> cp_kern C 0 = (True, None)) \<and> hanging C tests s0 buf (system_start tests s0)"
    using assms by auto
  fix st assume "(crashing_step C tests)\<^sup>*\<^sup>* (system_start tests s0) st"
  from hang.reachable [OF this start] show "sy_phase st \<noteq> Finished \<and> finished (rn_events (sy_run st)) = []"
    by (auto simp: hanging_def)
qed

section \<open>Witnesses\<close>

text \<open>Two tests, one slot, a harness whose tests pass, and serializers that write the numbers in little-endian order.\<close>

definition ex_tests :: "RunnableTest list" where "ex_tests = [ex_test ''a'', ex_test ''b'']"

definition ex_fresh :: Scheduler where
  "ex_fresh = fresh_scheduler (ex_capture 1) [] ex_os (\<lambda>_. 0)"

definition u64_to_le :: "u64 \<Rightarrow> u8 list" where
  "u64_to_le d = u32_to_le (ucast d) @ u32_to_le (ucast (drop_bit 32 d))"

definition u64_from_le :: "u8 list \<Rightarrow> u64" where
  "u64_from_le bs = ucast (u32_from_le (take 4 bs)) OR push_bit 32 (ucast (u32_from_le (drop 4 bs)))"

definition ex_components :: components where
  "ex_components =
     \<lparr>cp_ser = (\<lambda>p. Some (u32_to_le (tp_test_id p))),
      cp_de_payload = (\<lambda>bs. Some (payload_of ex_fresh ex_tests (unat (u32_from_le bs)))),
      cp_ser_result = (\<lambda>r. Some (u32_to_le (tr_test_id r) @ tr_status r # u64_to_le (tr_duration_ns r))),
      cp_de = (\<lambda>bs. Some \<lparr>tr_test_id = u32_from_le (take 4 bs), tr_status = bs ! 4,
                         tr_duration_ns = u64_from_le (drop 5 bs), tr_message = []\<rparr>),
      cp_err_text = (\<lambda>_. []), cp_kern = (\<lambda>n. (True, Some (of_nat n))), cp_isolate = (\<lambda>_. True),
      cp_hygiene = (\<lambda>_ s. s), cp_run_test = (\<lambda>path node s. (Inr (0, []), s))\<rparr>"

lemma u64_le_roundtrip: "u64_from_le (u64_to_le d) = d"
proof (rule bit_word_eqI)
  fix n assume "n < LENGTH(64)"
  then show "bit (u64_from_le (u64_to_le d)) n = bit d n"
    by (auto simp: u64_from_le_def u64_to_le_def bit_simps)
qed

lemma length_u64_to_le: "length (u64_to_le d) = 8"
  by (simp add: u64_to_le_def)

lemma ex_answer: "answer ex_components p r \<Longrightarrow> tr_message r = []"
  by (auto simp: answer_def worker_outcome_def run_worker_def ex_components_def)

lemma ex_components_ok: "components_ok ex_components ex_tests ex_fresh" "workers_ok_all ex_components ex_tests ex_fresh"
proof -
  have "cp_de ex_components b = Some r \<and> length b < 2 ^ 32"
    if "answer ex_components p r" "cp_ser_result ex_components r = Some b" for p r b
    using ex_answer [OF that(1)] that(2) by (cases r) (auto simp: ex_components_def u64_le_roundtrip length_u64_to_le nth_append)
  moreover have "unat (of_nat i :: u32) = i" if "i < length ex_tests" for i
    using that by (intro unat_of_nat_u32) (simp add: ex_tests_def)
  ultimately show "components_ok ex_components ex_tests ex_fresh"
    by (auto simp: components_ok_def ex_components_def ex_tests_def ex_fresh_def fresh_scheduler_def new_scheduler_def
        slot_count_def ex_capture_def)
  show "workers_ok_all ex_components ex_tests ex_fresh" by (simp add: workers_ok_all_def ex_components_def)
qed

lemma ex_end:
  obtains st where "(system_step ex_components ex_tests)\<^sup>*\<^sup>* (system_start ex_tests ex_fresh) st"
    and "\<nexists>st'. system_step ex_components ex_tests st st'" and "sy_phase st = Finished"
proof -
  note start = whole_start [OF ex_components_ok ex_fresh_def]
  from whole.runs_to_end [OF start] obtain st where
    st: "(system_step ex_components ex_tests)\<^sup>*\<^sup>* (system_start ex_tests ex_fresh) st"
      "\<nexists>st'. system_step ex_components ex_tests st st'" by blast
  from end_reported [OF whole.reachable [OF st(1) start] st(2)] have "sy_phase st = Finished" by metis
  with st show ?thesis by (rule that)
qed




theorem every_interleaving_counts_witness:
  "\<exists>st. (any_step ex_components ex_tests)\<^sup>*\<^sup>* (system_start ex_tests ex_fresh) st \<and> sy_phase st = Finished \<and>
     rn_collected (sy_run st) = length (finished (rn_events (sy_run st))) \<and>
     length (sc_active_workers (rn_sched (sy_run st))) \<le> slot_count (ex_capture 1)"
proof -
  obtain st where st: "(system_step ex_components ex_tests)\<^sup>*\<^sup>* (system_start ex_tests ex_fresh) st" "sy_phase st = Finished"
    by (rule ex_end)
  have any: "(any_step ex_components ex_tests)\<^sup>*\<^sup>* (system_start ex_tests ex_fresh) st"
    using st(1) by (rule rtranclp_mono [THEN predicate2D, rotated]) (auto simp: any_step_def crashing_step_def)
  from every_interleaving_counts [THEN spec, THEN mp, OF any [unfolded ex_fresh_def]] any st(2) show ?thesis by blast
qed

theorem fork_failure_hangs_witness:
  "\<nexists>st. (crashing_step (ex_components\<lparr>cp_kern := \<lambda>_. (True, None)\<rparr>) ex_tests)\<^sup>*\<^sup>* (system_start ex_tests ex_fresh) st \<and>
     sy_phase st = Finished"
proof -
  let ?C = "ex_components\<lparr>cp_kern := \<lambda>_. (True, None)\<rparr>"
  have ser: "cp_ser ?C (payload_of ex_fresh ex_tests 0) = Some (u32_to_le 0)" by (simp add: ex_components_def)
  have "\<forall>st. (crashing_step ?C ex_tests)\<^sup>*\<^sup>* (system_start ex_tests ex_fresh) st \<longrightarrow>
      sy_phase st \<noteq> Finished \<and> finished (rn_events (sy_run st)) = []"
    by (rule fork_failure_hangs [OF _ _ ex_fresh_def ser])
       (simp_all add: ex_tests_def ex_fresh_def fresh_scheduler_def new_scheduler_def slot_count_def ex_capture_def)
  then show ?thesis by blast
qed

end
