(* ===== verification/Configuration.thy ===== *)
theory Configuration
  imports Rust_Path
begin

text \<open>
  The configuration (\<^verbatim>\<open>config.rs\<close>): the command line as a record and the environment variables a
  project sets in its \<^verbatim>\<open>pyproject.toml\<close>. The command line parser and the TOML parser are parameters.
  Messages on stderr are left out.
\<close>

section \<open>Command line\<close>

datatype OutputFormat = Human | Json

datatype Commands = TestCommand | ListCommand

record Cli =
  cli_format :: OutputFormat
  cli_junit_xml :: "path option"
  cli_watch :: bool
  cli_no_isolation :: bool
  cli_path :: string
  cli_command :: "Commands option"

section \<open>Environment variables\<close>

type_synonym env_vars = "(string, string) hashmap"

text \<open>\<^verbatim>\<open>std::env::set_var\<close> panics (here \<^const>\<open>None\<close>) for a name that is empty or has an equals sign, and
  for a NUL in name or value.\<close>

definition var_ok :: "string \<Rightarrow> string \<Rightarrow> bool" where
  "var_ok key val \<longleftrightarrow> key \<noteq> [] \<and> CHR ''='' \<notin> set key \<and> CHR 0x00 \<notin> set key \<and> CHR 0x00 \<notin> set val"

definition set_var :: "string \<Rightarrow> string \<Rightarrow> env_vars \<Rightarrow> env_vars option" where
  "set_var key val env = (if var_ok key val then Some (hm_insert key val env) else None)"

fun set_vars :: "(string \<times> string) list \<Rightarrow> env_vars \<Rightarrow> env_vars option" where
  "set_vars [] env = Some env"
| "set_vars ((key, val) # vars) env = Option.bind (set_var key val env) (set_vars vars)"

section \<open>Project configuration\<close>

record ToolConfig =
  tool_pytest_env :: "(string, string) hashmap option"

record PyProject =
  pp_tool :: "ToolConfig option"

definition load_env_from_pyproject ::
  "(string \<Rightarrow> PyProject option) \<Rightarrow> (path \<Rightarrow> bool) \<Rightarrow> (path \<Rightarrow> string option) \<Rightarrow> path \<Rightarrow> env_vars \<Rightarrow> env_vars option" where
  "load_env_from_pyproject from_toml exists read root env =
     (let config_path = join root [Normal ''pyproject.toml''] in
      if \<not> exists config_path then Some env
      else case read config_path of
             None \<Rightarrow> Some env
           | Some contents \<Rightarrow>
             (case from_toml contents of
                None \<Rightarrow> Some env
              | Some pyproject \<Rightarrow>
                (case pp_tool pyproject of
                   None \<Rightarrow> Some env
                 | Some tool \<Rightarrow>
                   (case tool_pytest_env tool of
                      None \<Rightarrow> Some env
                    | Some vars \<Rightarrow> set_vars vars env))))"

section \<open>What loading does\<close>

lemma set_vars_eq:
  "set_vars vars env =
     (if list_all (\<lambda>(k, v). var_ok k v) vars then Some (fold (\<lambda>(k, v). hm_insert k v) vars env) else None)"
  by (induction vars env rule: set_vars.induct) (auto simp: set_var_def)

text \<open>The variables of the project override those of the process and leave the others; loading panics
  exactly when one of them cannot be set.\<close>

lemma load_env_get:
  assumes "exists (join root [Normal ''pyproject.toml''])" and "read (join root [Normal ''pyproject.toml'']) = Some c"
    and "from_toml c = Some \<lparr>pp_tool = Some \<lparr>tool_pytest_env = Some vars\<rparr>\<rparr>" and "hm_ok env" and "hm_ok vars"
  shows "(load_env_from_pyproject from_toml exists read root env = None \<longleftrightarrow> (\<exists>(k, v)\<in>set vars. \<not> var_ok k v)) \<and>
     (\<forall>env' k. load_env_from_pyproject from_toml exists read root env = Some env' \<longrightarrow>
        hm_get env' k = (case hm_get vars k of Some v \<Rightarrow> Some v | None \<Rightarrow> hm_get env k))"
proof -
  have "map_of (rev vars) = map_of vars"
    using assms(5) by (intro map_of_inject_set [THEN iffD2]) (simp_all add: hm_ok_def rev_map [symmetric])
  then have "hm_get (fold (\<lambda>(k, v). hm_insert k v) vars env) k =
      (case hm_get vars k of Some v \<Rightarrow> Some v | None \<Rightarrow> hm_get env k)" for k
    using hm.get_fold_ins [OF assms(4), of vars k] by (simp split: option.split)
  moreover have "load_env_from_pyproject from_toml exists read root env = set_vars vars env"
    using assms(1-3) by (simp add: load_env_from_pyproject_def Let_def)
  ultimately show ?thesis by (auto simp: set_vars_eq list_all_iff split: if_splits)
qed

end
