(* ===== verification/Watch.thy ===== *)
theory Watch
  imports Reporter
begin

text \<open>
  Watch mode (\<^verbatim>\<open>watch.rs\<close>): the filter of file events, the debouncing and the loop that runs a
  session for each burst of changes. The file watcher is the source of the events; the session
  is a parameter. Messages on stderr are left out.
\<close>

section \<open>Events\<close>

definition is_ignored_path :: "path \<Rightarrow> bool" where
  "is_ignored_path p =
     (let s = path_text p in
      list_ex (contains_str s) [''__pycache__'', ''.pytest_cache'', ''.mypy_cache'', ''.git'', ''.venv'',
        ''/venv/'', ''/env/'', ''/node_modules/''])"

definition collect_python_paths :: "path list \<Rightarrow> path list" where
  "collect_python_paths event_paths = filter (\<lambda>p. \<not> is_ignored_path p) (filter (\<lambda>p. extension p = Some ''py'') event_paths)"

text \<open>What the channel brings: the paths of an event, or 100 ms without one; it is closed at the end.\<close>

datatype watch_item = Changed "path list" | Quiet

fun debounce :: "watch_item list \<Rightarrow> path list \<Rightarrow> path list \<times> watch_item list" where
  "debounce [] paths = (paths, [])"
| "debounce (Quiet # items) paths = (paths, items)"
| "debounce (Changed ps # items) paths = debounce items (paths @ collect_python_paths ps)"

lemma debounce_shorter: "length (snd (debounce items paths)) \<le> length items"
  by (induction items paths rule: debounce.induct) auto

lemma debounce_less:
  "(paths, rest) = debounce items ps \<Longrightarrow> length rest < Suc (length items)"
  using debounce_shorter [of items ps] by (metis le_imp_less_Suc snd_conv)

section \<open>The loop\<close>

definition clear_screen :: "io \<Rightarrow> io" where
  "clear_screen = print ([CHR 0x1B] @ ''[2J'' @ [CHR 0x1B] @ ''[1;1H'')"

text \<open>A session changes the state \<^typ>\<open>'s\<close> and returns, or ends the process with an outcome \<^typ>\<open>'o\<close>, or never
  ends (\<^const>\<open>None\<close>). That it returned an error is only reported.\<close>

type_synonym ('o, 's) session = "'s \<Rightarrow> ('o option \<times> 's) option"

function watch_loop :: "('s \<Rightarrow> 's) \<Rightarrow> ('o, 's) session \<Rightarrow> watch_item list \<Rightarrow> ('o, 's) session" where
  "watch_loop clear run_session [] s = Some (None, s)"
| "watch_loop clear run_session (Quiet # items) s = watch_loop clear run_session items s"
| "watch_loop clear run_session (Changed ps # items) s =
     (let (changed_paths, rest) = debounce items (collect_python_paths ps) in
      if changed_paths = [] then watch_loop clear run_session rest s
      else case run_session (clear s) of
             None \<Rightarrow> None
           | Some (Some e, s') \<Rightarrow> Some (Some e, s')
           | Some (None, s') \<Rightarrow> watch_loop clear run_session rest s')"
  by pat_completeness auto
termination watch_loop
  by (relation "measure (\<lambda>(_, _, items, _). length items)") (auto dest: debounce_less)

text \<open>\<^term>\<open>Inl ()\<close>: the watcher cannot be set up, and no session is run.\<close>

definition start_watch_loop ::
  "bool \<Rightarrow> ('s \<Rightarrow> 's) \<Rightarrow> ('o, 's) session \<Rightarrow> watch_item list \<Rightarrow> 's \<Rightarrow> (unit, ('o option \<times> 's) option) result" where
  "start_watch_loop watcher_ok clear run_session items s =
     (if \<not> watcher_ok then Inl ()
      else Inr (case run_session s of
                  None \<Rightarrow> None
                | Some (Some e, s') \<Rightarrow> Some (Some e, s')
                | Some (None, s') \<Rightarrow> watch_loop clear run_session items s'))"

section \<open>One session for each burst\<close>

text \<open>The bursts of events, the sources they touch, and a number of sessions one after the other.\<close>

fun bursts :: "watch_item list \<Rightarrow> path list list list" where
  "bursts [] = [[]]"
| "bursts (Quiet # items) = [] # bursts items"
| "bursts (Changed ps # items) = (case bursts items of b # bs \<Rightarrow> (ps # b) # bs | [] \<Rightarrow> [[ps]])"

definition touched :: "path list list \<Rightarrow> path list" where
  "touched b = concat (map collect_python_paths b)"

definition reruns :: "watch_item list \<Rightarrow> nat" where
  "reruns items = length (filter (\<lambda>b. touched b \<noteq> []) (bursts items))"

fun sessions :: "('o, 's) session \<Rightarrow> nat \<Rightarrow> ('o, 's) session" where
  "sessions run 0 s = Some (None, s)"
| "sessions run (Suc n) s =
     (case run s of None \<Rightarrow> None | Some (Some e, s') \<Rightarrow> Some (Some e, s') | Some (None, s') \<Rightarrow> sessions run n s')"

lemma bursts_not_Nil: "bursts items \<noteq> []"
  by (cases items rule: bursts.cases) (auto split: list.split)

lemma debounce_bursts:
  "debounce items paths = (p, rest) \<Longrightarrow> p = paths @ touched (hd (bursts items)) \<and>
     reruns rest = length (filter (\<lambda>b. touched b \<noteq> []) (tl (bursts items)))"
proof (induction items paths rule: debounce.induct)
  case (3 ps items paths)
  obtain b bs where "bursts items = b # bs" using bursts_not_Nil [of items] by (cases "bursts items") auto
  with 3 show ?case by (auto simp: touched_def)
qed (auto simp: touched_def reruns_def)

lemma reruns_Changed:
  assumes "debounce items (collect_python_paths ps) = (p, rest)"
  shows "reruns (Changed ps # items) = (if p = [] then reruns rest else Suc (reruns rest))"
proof -
  obtain b bs where b: "bursts items = b # bs" using bursts_not_Nil [of items] by (cases "bursts items") auto
  have "p = touched (ps # b)" "reruns rest = length (filter (\<lambda>b. touched b \<noteq> []) bs)"
    using debounce_bursts [OF assms] b by (simp_all add: touched_def)
  then show ?thesis by (simp add: reruns_def b)
qed

text \<open>After the first session the loop runs exactly one session for each burst that touches a source that is
  not ignored, in order, and ends with the channel or with the process.\<close>

lemma watch_loop_sessions:
  "watch_loop clear run items s = sessions (\<lambda>s. run (clear s)) (reruns items) s"
proof (induction clear run items s rule: watch_loop.induct)
  case (1 clear run s)
  show ?case by (simp add: reruns_def touched_def)
next
  case (2 clear run items s)
  then show ?case by (simp add: reruns_def touched_def)
next
  case (3 clear run ps items s)
  obtain p rest where d: "debounce items (collect_python_paths ps) = (p, rest)" by fastforce
  show ?case using "3.IH" [OF d [symmetric] refl] reruns_Changed [OF d]
    by (auto simp: d Let_def split: option.split prod.split)
qed

end
