(* ===== verification/Session.thy ===== *)
theory Session
  imports Resolver Junit Scheduler Loader Debugger Zygote Configuration Watch
begin

text \<open>
  A test session from the command line to the exit of the process (\<^verbatim>\<open>main.rs\<close>): the run context, the
  phases of a session, the run with the resources it acquires and releases, the listing and the
  program itself. The libraries the code calls and the outcomes of system calls are parameters,
  collected in two records. The process forked for the zygote is followed to its exit; for the
  supervisor it is the process at the other end of the sockets. Progress messages on stderr are left out.
\<close>

section \<open>Parameters and state\<close>

text \<open>
  The libraries: deserialization and serialization, the parsers of Python and TOML, the
  directory walks (of discovery and of the compilation), and the programs the loader runs. The JSON
  serialization of an event cannot fail.
\<close>

record libraries =
  lib_de :: "u8 list \<Rightarrow> TestResult option"
  lib_ser :: "TestPayload \<Rightarrow> u8 list option"
  lib_de_payload :: "u8 list \<Rightarrow> TestPayload option"
  lib_err_text :: "dispatch_error \<Rightarrow> string"
  lib_to_json :: "MachineEvent \<Rightarrow> string"
  lib_list_json :: "JsonDiscoveryOutput \<Rightarrow> (unit, string) result"
  lib_to_xml :: "TestSuites \<Rightarrow> (string, string) result"
  lib_from_toml :: "string \<Rightarrow> PyProject option"
  lib_parse :: "string \<Rightarrow> string \<Rightarrow> stmt list option"
  lib_walk :: "path \<Rightarrow> (unit, path) result list"
  lib_walkdir :: "path \<Rightarrow> (unit, path) result list"
  lib_run :: run

text \<open>What a fork returns in each process.\<close>

datatype fork_result = ForkChild | ForkParent int

text \<open>
  What the system answers during a session: the directory, the files read, the outcomes of the
  calls, in the order the code makes them, the two ends of the command socket, the results, the clock, the
  shutdown flag when a test is dispatched, and the start of the zygote in the child.
\<close>

record platform =
  pf_cwd :: "path option"
  pf_world :: world
  pf_canonicalize :: "path \<Rightarrow> path option"
  pf_exists :: "path \<Rightarrow> bool"
  pf_read :: "path \<Rightarrow> string option"
  pf_pid :: nat
  pf_unlink_ok :: bool
  pf_bind_ok :: bool
  pf_nonblock_ok :: bool
  pf_cpus :: nat
  pf_pairs_ok :: bool
  pf_uuid :: string
  pf_mkdir_ok :: bool
  pf_uffd_bind_ok :: bool
  pf_fork :: "fork_result option"
  pf_clone_ok :: bool
  pf_cmd :: sock
  pf_timeout_ok :: bool
  pf_results :: "rd_item list"
  pf_clock :: "nat \<Rightarrow> nat"
  pf_shutdown :: "u32 \<Rightarrow> bool"
  pf_wait_ok :: bool
  pf_undeletable :: "path set"
  pf_zygote_cmd :: sock
  pf_zygote_forks :: "nat \<Rightarrow> fork_outcome"
  pf_zygote_fs :: env_fs
  pf_zygote_python :: pystart
  pf_zygote_signal_ok :: bool
  pf_zygote_clone_ok :: bool

text \<open>What a session changes: the files and directories it makes outside the project, the open files, the
  environment, the loader's globals and the files it compiles, the output, and what it asks of the system.\<close>

record machine =
  mc_files :: "path set"
  mc_os :: os
  mc_env :: env_vars
  mc_globals :: lglobals
  mc_loader :: lworld
  mc_io :: io
  mc_actions :: "sys_action list"

section \<open>Run context\<close>

record RunContext =
  rc_run_dir :: path
  rc_uffd_sock_path :: path
  rc_uffd_listener :: bool

definition new_run_context ::
  "string \<Rightarrow> bool \<Rightarrow> bool \<Rightarrow> path set \<Rightarrow> env_vars \<Rightarrow> RunContext option \<times> path set \<times> env_vars" where
  "new_run_context uuid mkdir_ok bind_ok files env =
     (let run_dir = path_of (''/tmp/tach_run_'' @ uuid); sock = join run_dir [Normal ''uffd.sock''] in
      if \<not> mkdir_ok then (None, files, env)
      else (Some \<lparr>rc_run_dir = run_dir, rc_uffd_sock_path = sock, rc_uffd_listener = bind_ok\<rparr>,
            if bind_ok then insert sock (insert run_dir files) else insert run_dir files,
            if bind_ok then hm_insert ''TACH_SUPERVISOR_SOCK'' (path_text sock) env else env))"

definition snapshot_enabled :: "RunContext \<Rightarrow> bool" where
  "snapshot_enabled rc = rc_uffd_listener rc"

text \<open>Removing the directory may leave some of it behind.\<close>

definition drop_run_context :: "RunContext \<Rightarrow> path set \<Rightarrow> path set \<Rightarrow> path set" where
  "drop_run_context rc undeletable files =
     (if rc_run_dir rc \<in> files then {f \<in> files. \<not> prefix (rc_run_dir rc) f \<or> f \<in> undeletable} else files)"

section \<open>Running the tests\<close>

definition max_workers :: "nat \<Rightarrow> nat \<Rightarrow> nat" where
  "max_workers cpus n = max (min cpus n) 1"

datatype session_error =
    NoWorkingDir | ServerFailed debug_error | CaptureFailed log_error | PairFailed | ContextFailed | ForkFailed
  | CmdCloneFailed | NotReady | ReadTimeoutFailed | ShutdownFailed | WaitFailed | ListFailed | WatcherFailed

text \<open>How a function that may fork ends: it returns, panics, or the process exits with a code.\<close>

datatype outcome = Returned "(session_error, unit) result" | Panicking | Exited nat

type_synonym run_record = "SchedulerStats \<times> running"

text \<open>The drops at the end of a scope.\<close>

definition close_capture :: "LogCapture \<Rightarrow> machine \<Rightarrow> machine" where
  "close_capture capture mc = mc\<lparr>mc_os := drop_capture capture (mc_os mc)\<rparr>"

definition close_server :: "platform \<Rightarrow> DebugServer \<Rightarrow> machine \<Rightarrow> machine" where
  "close_server pf server mc = mc\<lparr>mc_files := cleanup_server server (pf_unlink_ok pf) (mc_files mc)\<rparr>"

definition close_context :: "platform \<Rightarrow> RunContext \<Rightarrow> machine \<Rightarrow> machine" where
  "close_context pf ctx mc = mc\<lparr>mc_files := drop_run_context ctx (pf_undeletable pf) (mc_files mc)\<rparr>"

text \<open>The parent after the fork. The scheduler owns the log capture and drops it.\<close>

definition supervise ::
  "libraries \<Rightarrow> platform \<Rightarrow> int \<Rightarrow> DebugServer \<Rightarrow> LogCapture \<Rightarrow> RunnableTest list \<Rightarrow> CleanupGuard \<Rightarrow> machine
     \<Rightarrow> (outcome \<times> CleanupGuard \<times> machine \<times> run_record option) option" where
  "supervise lib pf zygote_pid server capture tests cleanup mc =
     (let g = set_zygote_pid zygote_pid cleanup;
          fail = (\<lambda>e. Some (Returned (Inl e), g, close_capture capture mc, None)) in
      if \<not> pf_clone_ok pf then fail CmdCloneFailed
      else case read_exact 1 (s_in (pf_cmd pf)) of
             (None, _) \<Rightarrow> fail NotReady
           | (Some ready_buf, rest) \<Rightarrow>
             (case scheduler_new (pf_timeout_ok pf) ((pf_cmd pf)\<lparr>s_in := rest\<rparr>) (pf_results pf) capture
                     (ds_socket_path server) (mc_os mc) (pf_clock pf) of
                None \<Rightarrow> fail ReadTimeoutFailed
              | Some scheduler \<Rightarrow>
                (case run_scheduler (lib_de lib) (lib_ser lib) (lib_err_text lib) (pf_shutdown pf) tests scheduler of
                   None \<Rightarrow> None
                 | Some (Inl ()) \<Rightarrow> Some (Panicking, g, close_capture capture mc, None)
                 | Some (Inr (stats, r)) \<Rightarrow>
                   (let done_mc = close_capture capture (mc\<lparr>mc_os := sc_os (rn_sched r)\<rparr>) in
                    Some (Returned (if \<not> fst (sched_shutdown (rn_sched r)) then Inl ShutdownFailed
                                    else if \<not> pf_wait_ok pf then Inl WaitFailed else Inr ()),
                          g, done_mc, Some (stats, r))))))"

text \<open>The child after the fork: nothing is dropped, and the process exits.\<close>

definition zygote_process :: "libraries \<Rightarrow> platform \<Rightarrow> env_vars \<Rightarrow> outcome option" where
  "zygote_process lib pf env =
     map_option (\<lambda>res. Exited (case res of Inl _ \<Rightarrow> 1 | Inr _ \<Rightarrow> 0))
       (entrypoint (lib_de_payload lib) (pf_zygote_forks pf) (pf_zygote_fs pf) (pf_zygote_python pf)
          (pf_zygote_signal_ok pf) (pf_cwd pf) (hm_get env ''TACH_TARGET_PATH'') (pf_zygote_clone_ok pf) (pf_zygote_cmd pf))"

text \<open>The result, the guard as it is then, and the run once it took place.\<close>

definition run_tests ::
  "libraries \<Rightarrow> platform \<Rightarrow> CleanupGuard \<Rightarrow> RunnableTest list \<Rightarrow> machine
     \<Rightarrow> (outcome \<times> CleanupGuard \<times> machine \<times> run_record option) option" where
  "run_tests lib pf cleanup tests mc =
     (case pf_cwd pf of
        None \<Rightarrow> Some (Returned (Inl NoWorkingDir), cleanup, mc, None)
      | Some cwd \<Rightarrow>
     (case new_debug_server (pf_pid pf) (pf_unlink_ok pf) (pf_bind_ok pf) (pf_nonblock_ok pf) (mc_files mc) of
        (Inl e, files) \<Rightarrow> Some (Returned (Inl (ServerFailed e)), cleanup, mc\<lparr>mc_files := files\<rparr>, None)
      | (Inr server, files) \<Rightarrow>
        (let g = track_socket (ds_socket_path server) cleanup; mc1 = mc\<lparr>mc_files := files\<rparr> in
         case new_capture (max_workers (pf_cpus pf) (length tests)) (mc_os mc1) of
           (Inl e, os1) \<Rightarrow> Some (Returned (Inl (CaptureFailed e)), g, close_server pf server (mc1\<lparr>mc_os := os1\<rparr>), None)
         | (Inr capture, os1) \<Rightarrow>
           (let mc2 = mc1\<lparr>mc_os := os1\<rparr>; unwind = close_server pf server \<circ> close_capture capture in
            if \<not> pf_pairs_ok pf then Some (Returned (Inl PairFailed), g, unwind mc2, None)
            else case load_env_from_pyproject (lib_from_toml lib) (pf_exists pf) (pf_read pf) cwd (mc_env mc2) of
                   None \<Rightarrow> Some (Panicking, g, unwind mc2, None)
                 | Some env \<Rightarrow>
                   (case new_run_context (pf_uuid pf) (pf_mkdir_ok pf) (pf_uffd_bind_ok pf) (mc_files mc2) env of
                      (None, files', env') \<Rightarrow>
                        Some (Returned (Inl ContextFailed), g, unwind (mc2\<lparr>mc_files := files', mc_env := env'\<rparr>), None)
                    | (Some ctx, files', env') \<Rightarrow>
                      (let mc3 = mc2\<lparr>mc_files := files', mc_env := env'\<rparr> in
                       case pf_fork pf of
                         None \<Rightarrow> Some (Returned (Inl ForkFailed), g, unwind (close_context pf ctx mc3), None)
                       | Some ForkChild \<Rightarrow> map_option (\<lambda>out. (out, g, mc3, None)) (zygote_process lib pf env')
                       | Some (ForkParent zygote_pid) \<Rightarrow>
                         (case supervise lib pf zygote_pid server capture tests g mc3 of
                            None \<Rightarrow> None
                          | Some (out, g', mc4, r) \<Rightarrow>
                              Some (out, g', close_server pf server (close_context pf ctx mc4), r))))))))"

section \<open>A session\<close>

definition make_reporter :: "OutputFormat \<Rightarrow> path option \<Rightarrow> reporter" where
  "make_reporter format junit_path =
     MultiRep ((case format of Json \<Rightarrow> [JsonRep] | Human \<Rightarrow> [HumanRep]) @
               (case junit_path of Some p \<Rightarrow> [JunitRep (new_junit p)] | None \<Rightarrow> []))"

text \<open>The sources that are compiled: no component of their path is hidden, \<^verbatim>\<open>__pycache__\<close>, \<^verbatim>\<open>target\<close> or
  \<^verbatim>\<open>node_modules\<close>.\<close>

definition is_project_source :: "path \<Rightarrow> bool" where
  "is_project_source p \<longleftrightarrow> extension p = Some ''py'' \<and>
     \<not> list_ex (\<lambda>a. case file_name a of None \<Rightarrow> False
                 | Some n \<Rightarrow> starts_with n ''.'' \<or> n = ''__pycache__'' \<or> n = ''target'' \<or> n = ''node_modules'') (ancestors p)"

definition session_compile :: "run \<Rightarrow> path \<Rightarrow> path list \<Rightarrow> lglobals \<Rightarrow> lworld \<Rightarrow> nat option \<times> lglobals \<times> lworld" where
  "session_compile run cwd walked g w =
     (let py_files = filter is_project_source walked; (registry, g1) = init_registry cwd g in
      case new_compiler run cwd g1 w of
        (Inl _, g2, w2) \<Rightarrow> (None, g2, w2)
      | (Inr compiler, g2, w2) \<Rightarrow>
        (let (n, registry', w3) = compile_batch run compiler py_files registry w2
         in (Some n, g2\<lparr>g_registry := Some registry'\<rparr>, w3)))"

definition matches_target :: "(path \<Rightarrow> path option) \<Rightarrow> path \<Rightarrow> RunnableTest \<Rightarrow> bool" where
  "matches_target canonicalize target test =
     (let canonical = (\<lambda>p. case canonicalize p of Some c \<Rightarrow> c | None \<Rightarrow> p);
          test_path = rt_file_path test
      in path_starts_with (canonical test_path) (canonical target) \<or> canonical test_path = canonical target \<or>
         path_starts_with test_path target)"

definition session_tests :: "(path \<Rightarrow> path option) \<Rightarrow> string \<Rightarrow> DiscoveryResult \<Rightarrow> RunnableTest list" where
  "session_tests canonicalize target_path d =
     filter (matches_target canonicalize (path_of target_path)) (fst (resolve_all (from_discovery d) d))"

text \<open>What the drop of the guard does to the files.\<close>

fun perform :: "bool \<Rightarrow> sys_action \<Rightarrow> path set \<Rightarrow> path set" where
  "perform unlink_ok (RemoveFile p) files = (if unlink_ok then files - {p} else files)"
| "perform unlink_ok (Kill _ _) files = files"

definition release :: "platform \<Rightarrow> CleanupGuard \<Rightarrow> machine \<Rightarrow> machine" where
  "release pf g mc = mc\<lparr>mc_actions := mc_actions mc @ drop_guard g,
     mc_files := fold (perform (pf_unlink_ok pf)) (drop_guard g) (mc_files mc)\<rparr>"

text \<open>The events of the run are reported while it runs; nothing else that the session prints is modelled.\<close>

definition report_run :: "libraries \<Rightarrow> reporter \<Rightarrow> run_record option \<Rightarrow> io \<Rightarrow> io" where
  "report_run lib reporter r w =
     (case r of
        None \<Rightarrow> w
      | Some (_, rn) \<Rightarrow>
        (case run_events (on_event (\<lambda>e. Some (lib_to_json lib e)) (lib_to_xml lib)) (rn_events rn) reporter w of
           None \<Rightarrow> w
         | Some (_, w') \<Rightarrow> w'))"

text \<open>A session: discovery (a panic of a parsing thread unwinds), compilation, resolution, path filter, run; at
  the end the guard is dropped, unless the process exited as the zygote.\<close>

definition execute_session ::
  "libraries \<Rightarrow> platform \<Rightarrow> path \<Rightarrow> OutputFormat \<Rightarrow> path option \<Rightarrow> string \<Rightarrow> machine
     \<Rightarrow> (outcome \<times> machine \<times> run_record option) option" where
  "execute_session lib pf cwd format junit_path target_path mc =
     (let reporter = make_reporter format junit_path; cleanup = new_guard in
      case discover (lib_walk lib) (lib_parse lib) (pf_world pf) cwd of
        None \<Rightarrow> Some (Panicking, release pf cleanup mc, None)
      | Some discovery_result \<Rightarrow>
        (let walked = List.map_filter result_ok (lib_walkdir lib cwd);
             (_, g1, w1) = session_compile (lib_run lib) cwd walked (mc_globals mc) (mc_loader mc);
             mc1 = mc\<lparr>mc_globals := g1, mc_loader := w1\<rparr>;
             filtered_tests = session_tests (pf_canonicalize pf) target_path discovery_result
         in if filtered_tests = [] then Some (Returned (Inr ()), release pf cleanup mc1, None)
            else case run_tests lib pf cleanup filtered_tests mc1 of
                   None \<Rightarrow> None
                 | Some (out, g, mc2, r) \<Rightarrow>
                   (let mc3 = mc2\<lparr>mc_io := report_run lib reporter r (mc_io mc2)\<rparr> in
                    Some (out, case out of Exited _ \<Rightarrow> mc3 | _ \<Rightarrow> release pf g mc3, r))))"

section \<open>The command line\<close>

text \<open>What the listing prints: one line for each test.\<close>

definition list_lines :: "DiscoveryResult \<Rightarrow> string list" where
  "list_lines d = concat (map (\<lambda>m. map (\<lambda>t. path_text (tm_path m) @ ''::'' @ tc_name t) (tm_tests m)) (dr_modules d))"

definition handle_list_command :: "libraries \<Rightarrow> world \<Rightarrow> path \<Rightarrow> bool \<Rightarrow> io \<Rightarrow> outcome \<times> io" where
  "handle_list_command lib w cwd is_json io =
     (case discover (lib_walk lib) (lib_parse lib) w cwd of
        None \<Rightarrow> (Panicking, io)
      | Some d \<Rightarrow>
        if is_json
        then (case dump_json (lib_list_json lib) d of
                Inl e \<Rightarrow> (Returned (Inl ListFailed), io)
              | Inr text \<Rightarrow> (Returned (Inr ()), print text io))
        else (Returned (Inr ()), fold (\<lambda>l. eprint (l @ NL)) (list_lines d) io))"

text \<open>The environment the program leaves to its children; the path may not have a NUL.\<close>

definition main_env :: "Cli \<Rightarrow> env_vars \<Rightarrow> env_vars option" where
  "main_env cli env =
     set_vars ([(''PYTHONMALLOC'', ''malloc''), (''GLIBC_TUNABLES'', ''glibc.malloc.tcache_count=0'')] @
       (if cli_no_isolation cli then [(''TACH_NO_ISOLATION'', ''1'')] else []) @ [(''TACH_TARGET_PATH'', cli_path cli)]) env"

text \<open>In watch mode each session has answers of its own; the number of sessions so far is part of the state.\<close>

definition watch_session ::
  "libraries \<Rightarrow> (nat \<Rightarrow> platform) \<Rightarrow> path \<Rightarrow> Cli \<Rightarrow> (outcome, nat \<times> machine) session" where
  "watch_session lib pf cwd cli =
     (\<lambda>(n, mc). map_option (\<lambda>(out, mc', _). (case out of Returned _ \<Rightarrow> None | _ \<Rightarrow> Some out, Suc n, mc'))
        (execute_session lib (pf n) cwd (cli_format cli) (cli_junit_xml cli) (cli_path cli) mc))"

definition main ::
  "libraries \<Rightarrow> (nat \<Rightarrow> platform) \<Rightarrow> Cli \<Rightarrow> bool \<Rightarrow> watch_item list \<Rightarrow> machine \<Rightarrow> (outcome \<times> machine) option" where
  "main lib pf cli watcher_ok items mc =
     (case main_env cli (mc_env mc) of
        None \<Rightarrow> Some (Panicking, mc)
      | Some env \<Rightarrow>
        (let mc1 = mc\<lparr>mc_env := env\<rparr> in
         case pf_cwd (pf 0) of
           None \<Rightarrow> Some (Returned (Inl NoWorkingDir), mc1)
         | Some cwd \<Rightarrow>
           if cli_command cli = Some ListCommand
           then (let (out, w) = handle_list_command lib (pf_world (pf 0)) cwd (cli_format cli = Json) (mc_io mc1)
                 in Some (out, mc1\<lparr>mc_io := w\<rparr>))
           else if cli_watch cli
           then (case start_watch_loop watcher_ok (\<lambda>(n, m). (n, m\<lparr>mc_io := clear_screen (mc_io m)\<rparr>))
                        (watch_session lib pf cwd cli) items (0, mc1) of
                   Inl () \<Rightarrow> Some (Returned (Inl WatcherFailed), mc1)
                 | Inr res \<Rightarrow> map_option (\<lambda>(e, _, mc'). (case e of None \<Rightarrow> Returned (Inr ()) | Some out \<Rightarrow> out, mc')) res)
           else map_option (\<lambda>(out, mc', _). (out, mc'))
                  (execute_session lib (pf 0) cwd (cli_format cli) (cli_junit_xml cli) (cli_path cli) mc1)))"

section \<open>Facts\<close>

lemma max_workers_bounds: "1 \<le> max_workers cpus n \<and> (n \<noteq> 0 \<longrightarrow> max_workers cpus n \<le> n) \<and> max_workers cpus n \<le> max cpus 1"
  by (auto simp: max_workers_def)

lemma in_session_tests:
  "rt \<in> set (session_tests canonicalize target d) \<longleftrightarrow>
     (\<exists>(mp, t)\<in>set (all_tests d). resolve_test (from_discovery d) t mp = Inr rt) \<and>
     matches_target canonicalize (path_of target) rt"
proof -
  have ok: "result_ok r = Some x \<longleftrightarrow> r = Inr x" for r :: "(ResolutionError, RunnableTest) result" and x
    by (cases r) auto
  have "(\<exists>x\<in>set (all_tests d). (case x of (mp, t) \<Rightarrow> result_ok (resolve_test (from_discovery d) t mp)) = Some rt) \<longleftrightarrow>
      (\<exists>(mp, t)\<in>set (all_tests d). resolve_test (from_discovery d) t mp = Inr rt)"
    by (intro bex_cong refl) (simp add: ok split: prod.split)
  then show ?thesis unfolding session_tests_def resolve_all_runnable by (simp add: in_map_filter)
qed

text \<open>What the parent does after the fork: it ends in an ordinary way, and its scheduler has dropped the capture.\<close>

lemma supervise_end:
  assumes "supervise lib pf pid server capture tests g mc = Some (out, g', mc', r)"
  shows "g' = set_zygote_pid pid g \<and> (\<forall>n. out \<noteq> Exited n) \<and>
     (\<exists>s2. mc' = mc\<lparr>mc_os := drop_capture capture s2\<rparr> \<and>
        (r = None \<and> s2 = mc_os mc \<or>
         (\<exists>stats rn rest. r = Some (stats, rn) \<and> s2 = sc_os (rn_sched rn) \<and>
            run_scheduler (lib_de lib) (lib_ser lib) (lib_err_text lib) (pf_shutdown pf) tests
              (new_scheduler ((pf_cmd pf)\<lparr>s_in := rest\<rparr>) (pf_results pf) capture (ds_socket_path server) (mc_os mc)
                 (pf_clock pf)) = Some (Inr (stats, rn)))))"
  using assms
  by (auto simp: supervise_def Let_def close_capture_def scheduler_new_def
      split: if_splits option.splits sum.splits prod.splits)

text \<open>The ways in which running the tests ends.\<close>

lemma run_tests_cases:
  assumes "run_tests lib pf g tests mc = Some (out, g', mc', r)"
  obtains
    (no_dir) "out = Returned (Inl NoWorkingDir)" "g' = g" "mc' = mc" "r = None"
  | (no_server) e files where
      "new_debug_server (pf_pid pf) (pf_unlink_ok pf) (pf_bind_ok pf) (pf_nonblock_ok pf) (mc_files mc) = (Inl e, files)"
      "out = Returned (Inl (ServerFailed e))" "g' = g" "mc' = mc\<lparr>mc_files := files\<rparr>" "r = None"
  | (no_capture) server files e s1 where
      "new_debug_server (pf_pid pf) (pf_unlink_ok pf) (pf_bind_ok pf) (pf_nonblock_ok pf) (mc_files mc) = (Inr server, files)"
      "new_capture (max_workers (pf_cpus pf) (length tests)) (mc_os mc) = (Inl e, s1)"
      "out = Returned (Inl (CaptureFailed e))" "g' = track_socket (ds_socket_path server) g"
      "mc' = close_server pf server (mc\<lparr>mc_files := files, mc_os := s1\<rparr>)" "r = None"
  | (unwound) server files capture s1 env where
      "new_debug_server (pf_pid pf) (pf_unlink_ok pf) (pf_bind_ok pf) (pf_nonblock_ok pf) (mc_files mc) = (Inr server, files)"
      "new_capture (max_workers (pf_cpus pf) (length tests)) (mc_os mc) = (Inr capture, s1)"
      "out \<in> {Returned (Inl PairFailed), Panicking, Returned (Inl ContextFailed)}" "g' = track_socket (ds_socket_path server) g"
      "mc' = close_server pf server (close_capture capture (mc\<lparr>mc_files := files, mc_os := s1, mc_env := env\<rparr>))" "r = None"
  | (no_fork) server files capture s1 ctx files' env where
      "new_debug_server (pf_pid pf) (pf_unlink_ok pf) (pf_bind_ok pf) (pf_nonblock_ok pf) (mc_files mc) = (Inr server, files)"
      "new_capture (max_workers (pf_cpus pf) (length tests)) (mc_os mc) = (Inr capture, s1)"
      "\<exists>env0. new_run_context (pf_uuid pf) (pf_mkdir_ok pf) (pf_uffd_bind_ok pf) files env0 = (Some ctx, files', env)"
      "out = Returned (Inl ForkFailed)" "g' = track_socket (ds_socket_path server) g"
      "mc' = close_server pf server (close_capture capture (close_context pf ctx
         (mc\<lparr>mc_os := s1, mc_files := files', mc_env := env\<rparr>)))" "r = None"
  | (zygote) n server files s1 ctx files' env where
      "new_debug_server (pf_pid pf) (pf_unlink_ok pf) (pf_bind_ok pf) (pf_nonblock_ok pf) (mc_files mc) = (Inr server, files)"
      "\<exists>env0. new_run_context (pf_uuid pf) (pf_mkdir_ok pf) (pf_uffd_bind_ok pf) files env0 = (Some ctx, files', env)"
      "zygote_process lib pf env = Some out" "out = Exited n"
      "mc' = mc\<lparr>mc_os := s1, mc_files := files', mc_env := env\<rparr>" "r = None"
  | (parent) server files capture s1 ctx files' env pid mc4 where
      "new_debug_server (pf_pid pf) (pf_unlink_ok pf) (pf_bind_ok pf) (pf_nonblock_ok pf) (mc_files mc) = (Inr server, files)"
      "new_capture (max_workers (pf_cpus pf) (length tests)) (mc_os mc) = (Inr capture, s1)"
      "\<exists>env0. new_run_context (pf_uuid pf) (pf_mkdir_ok pf) (pf_uffd_bind_ok pf) files env0 = (Some ctx, files', env)"
      "pf_fork pf = Some (ForkParent pid)"
      "supervise lib pf pid server capture tests (track_socket (ds_socket_path server) g)
         (mc\<lparr>mc_os := s1, mc_files := files', mc_env := env\<rparr>) = Some (out, g', mc4, r)"
      "mc' = close_server pf server (close_context pf ctx mc4)"
proof (cases "pf_cwd pf")
  case None
  with assms no_dir show ?thesis by (simp add: run_tests_def)
next
  case (Some cwd)
  note run = assms [unfolded run_tests_def Some option.case Let_def]
  obtain sv files where sv: "new_debug_server (pf_pid pf) (pf_unlink_ok pf) (pf_bind_ok pf) (pf_nonblock_ok pf) (mc_files mc) = (sv, files)"
    by fastforce
  show ?thesis
  proof (cases sv)
    case (Inl e)
    with run sv no_server [of e files] show ?thesis by simp
  next
    case (Inr server)
    obtain c s1 where c: "new_capture (max_workers (pf_cpus pf) (length tests)) (mc_os mc) = (c, s1)" by fastforce
    show ?thesis
    proof (cases c)
      case (Inl e)
      with run sv Inr c no_capture [of server files e s1] show ?thesis by simp
    next
      case capture: (Inr capture)
      note run' = run [unfolded sv Inr, simplified, unfolded c capture, simplified]
      show ?thesis
      proof (cases "pf_pairs_ok pf")
        case False
        with run' sv Inr c capture unwound [of server files capture s1 "mc_env mc"] show ?thesis by simp
      next
        case True
        show ?thesis
        proof (cases "load_env_from_pyproject (lib_from_toml lib) (pf_exists pf) (pf_read pf) cwd (mc_env mc)")
          case None
          with True run' sv Inr c capture unwound [of server files capture s1 "mc_env mc"] show ?thesis by simp
        next
          case (Some env0)
          obtain ctx files' env where x: "new_run_context (pf_uuid pf) (pf_mkdir_ok pf) (pf_uffd_bind_ok pf) files env0 = (ctx, files', env)"
            by (metis prod_cases3)
          show ?thesis
          proof (cases ctx)
            case None
            then have "files' = files" "env = env0" using x by (auto simp: new_run_context_def Let_def split: if_splits)
            moreover have eq: "mc\<lparr>mc_os := s1, mc_files := files, mc_env := env0\<rparr> = mc\<lparr>mc_files := files, mc_os := s1, mc_env := env0\<rparr>"
              by simp
            ultimately show ?thesis
              using None Some True run' sv Inr c capture x unwound [of server files capture s1 env0, folded eq] by simp
          next
            case ctx: (Some rc)
            note run2 = run' True Some x ctx
            have x': "\<exists>env0. new_run_context (pf_uuid pf) (pf_mkdir_ok pf) (pf_uffd_bind_ok pf) files env0 = (Some rc, files', env)"
              using x ctx by blast
            show ?thesis
            proof (cases "pf_fork pf")
              case None
              with run2 sv Inr c capture x' no_fork [of server files capture s1 rc files' env] show ?thesis by simp
            next
              case fk: (Some fk)
              show ?thesis
              proof (cases fk)
                case ForkChild
                with fk run2 have z: "zygote_process lib pf env = Some out" "mc' = mc\<lparr>mc_os := s1, mc_files := files', mc_env := env\<rparr>" "r = None"
                  by auto
                then obtain n where "out = Exited n" by (auto simp: zygote_process_def)
                with z sv Inr x' zygote [of server files rc files' env n s1] show ?thesis by simp
              next
                case (ForkParent pid)
                with fk run2 obtain mc4 where "supervise lib pf pid server capture tests (track_socket (ds_socket_path server) g)
                     (mc\<lparr>mc_os := s1, mc_files := files', mc_env := env\<rparr>) = Some (out, g', mc4, r)"
                    "mc' = close_server pf server (close_context pf rc mc4)"
                  by (auto split: option.splits)
                with fk ForkParent sv Inr c capture x' parent [of server files capture s1 rc files' env pid mc4] show ?thesis
                  by simp
              qed
            qed
          qed
        qed
      qed
    qed
  qed
qed

lemma server_files:
  "new_debug_server pid remove_ok bind_ok nonblock_ok files = (Inr server, files') \<Longrightarrow>
     ds_socket_path server = debug_socket_path pid \<and> files' = insert (debug_socket_path pid) files"
  by (auto simp: new_debug_server_def Let_def split: if_splits)

lemma no_server_files:
  "new_debug_server pid remove_ok bind_ok nonblock_ok files = (Inl e, files') \<Longrightarrow> e \<noteq> NonblockFailed \<Longrightarrow>
     files - {debug_socket_path pid} \<subseteq> files' \<and> files' \<subseteq> files"
  by (auto simp: new_debug_server_def Let_def split: if_splits)

definition run_dir :: "platform \<Rightarrow> path" where
  "run_dir pf = path_of (''/tmp/tach_run_'' @ pf_uuid pf)"

lemma context_files:
  assumes "new_run_context (pf_uuid pf) mkdir_ok bind_ok files env = (Some ctx, files', env')"
  shows "rc_run_dir ctx = run_dir pf \<and> drop_run_context ctx {} files' = {f \<in> files. \<not> prefix (run_dir pf) f}"
proof -
  have "prefix (run_dir pf) (join (run_dir pf) [Normal ''uffd.sock''])" by (simp add: join_def is_absolute_def)
  with assms show ?thesis
    by (auto simp: new_run_context_def drop_run_context_def run_dir_def Let_def split: if_splits)
qed

text \<open>The paths a session may take away: its own and stale ones of the same name.\<close>

definition own_paths :: "platform \<Rightarrow> path set" where
  "own_paths pf = {f. f = debug_socket_path (pf_pid pf) \<or> prefix (run_dir pf) f}"

lemma close_server_files:
  "pf_unlink_ok pf \<Longrightarrow> mc_files (close_server pf server mc) = mc_files mc - {ds_socket_path server}"
  by (auto simp: close_server_def cleanup_server_def)

lemma run_tests_files:
  assumes "run_tests lib pf g tests mc = Some (out, g', mc', r)" and ok: "pf_unlink_ok pf" "pf_undeletable pf = {}"
    and out: "\<forall>n. out \<noteq> Exited n" "out \<noteq> Returned (Inl (ServerFailed NonblockFailed))"
  shows "mc_files mc' \<subseteq> mc_files mc \<and> mc_files mc - mc_files mc' \<subseteq> own_paths pf"
  using assms(1)
proof (cases rule: run_tests_cases)
  case (no_server e files)
  with out(2) no_server_files [OF no_server(1)] show ?thesis by (auto simp: own_paths_def)
next
  case (no_capture server files e s1)
  with server_files [OF no_capture(1)] ok show ?thesis by (auto simp: close_server_files own_paths_def)
next
  case (unwound server files capture s1 env)
  with server_files [OF unwound(1)] ok show ?thesis
    by (auto simp: close_server_files close_capture_def own_paths_def)
next
  case (no_fork server files capture s1 ctx files' env)
  then obtain env0 where x: "new_run_context (pf_uuid pf) (pf_mkdir_ok pf) (pf_uffd_bind_ok pf) files env0 = (Some ctx, files', env)"
    by blast
  from no_fork server_files [OF no_fork(1)] context_files [OF x] ok show ?thesis
    by (auto simp: close_server_files close_capture_def close_context_def own_paths_def)
next
  case (parent server files capture s1 ctx files' env pid mc4)
  then obtain env0 where x: "new_run_context (pf_uuid pf) (pf_mkdir_ok pf) (pf_uffd_bind_ok pf) files env0 = (Some ctx, files', env)"
    by blast
  have "mc_files mc4 = files'" using supervise_end [OF parent(5)] by auto
  with parent server_files [OF parent(1)] context_files [OF x] ok show ?thesis
    by (auto simp: close_server_files close_context_def own_paths_def)
qed (use out(1) in auto)

lemma run_tests_fds:
  assumes "run_tests lib pf g tests mc = Some (out, g', mc', r)" and ok: "fresh_memfds (mc_os mc)" "fresh_dups (mc_os mc)"
    and out: "\<forall>n. out \<noteq> Exited n" "\<forall>e. out \<noteq> Returned (Inl (CaptureFailed e))"
  shows "os_fds (mc_os mc') = os_fds (mc_os mc)"
  using assms(1)
proof (cases rule: run_tests_cases)
  case (unwound server files capture s1 env)
  then show ?thesis using new_capture_fds [OF unwound(2) ok, of s1]
    by (simp add: close_server_def close_capture_def)
next
  case (no_fork server files capture s1 ctx files' env)
  then show ?thesis using new_capture_fds [OF no_fork(2) ok, of s1]
    by (simp add: close_server_def close_capture_def close_context_def)
next
  case (parent server files capture s1 ctx files' env pid mc4)
  note fd = new_capture_fds [OF parent(2) ok]
  from supervise_end [OF parent(5)] obtain s2 where mc4: "mc_os mc4 = drop_capture capture s2" and s2: "os_fds s2 = os_fds s1"
    using fd run_keeps_fds by (elim conjE exE disjE) auto
  then have "os_fds (mc_os mc4) = os_fds (mc_os mc)" using fd [of s2] mc4 by simp
  then show ?thesis by (simp add: parent(6) close_server_def close_context_def)
qed (use out in \<open>auto simp: close_server_def\<close>)

text \<open>The guard after a run knows the socket and the zygote.\<close>

lemma run_tests_guard:
  assumes "run_tests lib pf new_guard tests mc = Some (out, g', mc', r)" and "\<forall>n. out \<noteq> Exited n"
  shows "set (cg_socket_paths g') \<subseteq> {debug_socket_path (pf_pid pf)} \<and> cg_worker_pids g' = [] \<and>
     mc_actions mc' = mc_actions mc \<and> mc_io mc' = mc_io mc \<and>
     (r \<noteq> None \<longrightarrow> cg_socket_paths g' = [debug_socket_path (pf_pid pf)] \<and> (\<exists>pid. pf_fork pf = Some (ForkParent pid) \<and> cg_zygote_pid g' = Some pid))"
  using assms(1)
proof (cases rule: run_tests_cases)
  case (parent server files capture s1 ctx files' env pid mc4)
  with supervise_end [OF parent(5)] server_files [OF parent(1)] show ?thesis
    by (auto simp: guard_defs close_server_def close_context_def)
qed (use assms(2) server_files in \<open>auto simp: guard_defs close_server_def close_capture_def close_context_def dest: server_files\<close>)

lemma fold_perform: "fold (perform ok) as F = (if ok then F - {p. RemoveFile p \<in> set as} else F)"
proof (induction as arbitrary: F)
  case (Cons a as)
  then show ?case by (cases a) auto
qed simp

lemma release_files:
  "pf_unlink_ok pf \<Longrightarrow> mc_files (release pf g mc) = mc_files mc - set (cg_socket_paths g)"
  by (auto simp: release_def fold_perform drop_guard_def cleanup_sockets_def kill_workers_def split: option.splits if_splits)

text \<open>The end of a session that was not the zygote's.\<close>

lemma execute_session_cases:
  assumes "execute_session lib pf cwd format junit_path target mc = Some (out, mc', r)"
  obtains
    (panicked) "discover (lib_walk lib) (lib_parse lib) (pf_world pf) cwd = None" "out = Panicking" "mc' = release pf new_guard mc" "r = None"
  | (no_tests) d g1 w1 where "discover (lib_walk lib) (lib_parse lib) (pf_world pf) cwd = Some d"
      "session_tests (pf_canonicalize pf) target d = []" "out = Returned (Inr ())"
      "mc' = release pf new_guard (mc\<lparr>mc_globals := g1, mc_loader := w1\<rparr>)" "r = None"
  | (ran) d g1 w1 g mc2 w where "discover (lib_walk lib) (lib_parse lib) (pf_world pf) cwd = Some d"
      "run_tests lib pf new_guard (session_tests (pf_canonicalize pf) target d) (mc\<lparr>mc_globals := g1, mc_loader := w1\<rparr>) = Some (out, g, mc2, r)"
      "w = report_run lib (make_reporter format junit_path) r (mc_io mc2)"
      "mc' = (case out of Exited _ \<Rightarrow> mc2\<lparr>mc_io := w\<rparr> | _ \<Rightarrow> release pf g (mc2\<lparr>mc_io := w\<rparr>))"
proof (cases "discover (lib_walk lib) (lib_parse lib) (pf_world pf) cwd")
  case None
  with assms panicked show ?thesis by (simp add: execute_session_def)
next
  case (Some d)
  obtain n g1 w1 where c: "session_compile (lib_run lib) cwd (List.map_filter result_ok (lib_walkdir lib cwd)) (mc_globals mc) (mc_loader mc) = (n, g1, w1)"
    by (metis prod_cases3)
  show ?thesis
  proof (cases "session_tests (pf_canonicalize pf) target d = []")
    case True
    have "execute_session lib pf cwd format junit_path target mc =
        Some (Returned (Inr ()), release pf new_guard (mc\<lparr>mc_globals := g1, mc_loader := w1\<rparr>), None)"
      by (simp add: execute_session_def Some c True)
    with assms show ?thesis by - (rule no_tests [OF Some True, of w1 g1], simp_all)
  next
    case False
    with assms Some c obtain g mc2 where
      run: "run_tests lib pf new_guard (session_tests (pf_canonicalize pf) target d) (mc\<lparr>mc_globals := g1, mc_loader := w1\<rparr>) = Some (out, g, mc2, r)"
      and "mc' = (case out of Exited _ \<Rightarrow> mc2\<lparr>mc_io := report_run lib (make_reporter format junit_path) r (mc_io mc2)\<rparr>
          | _ \<Rightarrow> release pf g (mc2\<lparr>mc_io := report_run lib (make_reporter format junit_path) r (mc_io mc2)\<rparr>))"
      by (auto simp: execute_session_def Let_def split: option.splits)
    from ran [OF Some run refl this(2)] show ?thesis .
  qed
qed

lemma run_tests_run:
  assumes "run_tests lib pf g tests mc = Some (out, g', mc', Some (stats, r))"
  shows "(\<forall>n. out \<noteq> Exited n) \<and> (\<exists>rest capture dp k. run_scheduler (lib_de lib) (lib_ser lib) (lib_err_text lib) (pf_shutdown pf) tests
     (new_scheduler ((pf_cmd pf)\<lparr>s_in := rest\<rparr>) (pf_results pf) capture dp k (pf_clock pf)) = Some (Inr (stats, r)))"
  using assms
proof (cases rule: run_tests_cases)
  case (parent server files capture s1 ctx files' env pid mc4)
  from supervise_end [OF parent(5)] show ?thesis by (elim conjE exE disjE) auto
qed simp_all

lemma not_exited_release:
  "\<forall>n. out \<noteq> Exited n \<Longrightarrow> (case out of Exited _ \<Rightarrow> a | _ \<Rightarrow> b) = b"
  by (cases out) auto

text \<open>The process that becomes the zygote gives nothing back when it exits: the sockets and directories are the
  supervisor's.\<close>

lemma zygote_keeps_resources:
  assumes "execute_session lib pf cwd format junit_path target mc = Some (Exited n, mc', r)"
  shows "mc_actions mc' = mc_actions mc \<and> r = None \<and> mc_files mc \<subseteq> mc_files mc' \<and>
     {debug_socket_path (pf_pid pf), run_dir pf} \<subseteq> mc_files mc' \<and> zygote_process lib pf (mc_env mc') = Some (Exited n)"
  using assms
proof (cases rule: execute_session_cases)
  case (ran d g1 w1 g mc2 w)
  from ran(2) show ?thesis
  proof (cases rule: run_tests_cases)
    case (zygote n' server files s1 ctx files' env)
    then obtain env0 where "new_run_context (pf_uuid pf) (pf_mkdir_ok pf) (pf_uffd_bind_ok pf) files env0 = (Some ctx, files', env)" by blast
    then have "insert (run_dir pf) files \<subseteq> files'" by (auto simp: new_run_context_def run_dir_def Let_def split: if_splits)
    with zygote server_files [OF zygote(1)] ran(4) show ?thesis by auto
  next
    case (parent server files capture s1 ctx files' env pid mc4)
    with supervise_end [OF parent(5)] show ?thesis by auto
  qed auto
qed simp_all

text \<open>The scheduler of a session has a slot, so the division of the dispatch loop never panics: a panic of
  \<^const>\<open>run_tests\<close> is one of the project's environment variables.\<close>

lemma run_tests_panics:
  assumes "run_tests lib pf g tests mc = Some (Panicking, g', mc', r)"
  shows "\<exists>cwd. pf_cwd pf = Some cwd \<and>
     load_env_from_pyproject (lib_from_toml lib) (pf_exists pf) (pf_read pf) cwd (mc_env mc) = None"
proof -
  have "supervise lib pf pid server capture tests g mc3 \<noteq> Some (Panicking, g'', mc4, r')"
    if "new_capture (max_workers (pf_cpus pf) (length tests)) k = (Inr capture, s1)" for pid server capture g mc3 g'' mc4 r' k s1
  proof -
    have "slot_count capture = max_workers (pf_cpus pf) (length tests)"
      using that by (auto simp: new_capture_def slot_count_def split: prod.splits sum.splits)
    then have "0 < slot_count capture" by (simp add: max_workers_def)
    then show ?thesis using run_scheduler_no_panic
      by (fastforce simp: supervise_def scheduler_new_def Let_def split: if_splits option.splits sum.splits prod.splits)
  qed
  then show ?thesis using assms
    by (auto simp: run_tests_def zygote_process_def Let_def
        split: option.splits prod.splits sum.splits if_splits fork_result.splits)
qed

text \<open>The two formats of the listing show the same tests.\<close>

lemma list_lines_json: "map jt_id (json_tests d) = list_lines d \<and> length (list_lines d) = test_count d"
  using json_tests_complete [of d] by (metis length_map list_lines_def)

text \<open>The environment the program leaves to the zygote and the workers.\<close>

lemma main_env_get:
  assumes "main_env cli env = Some env'"
  shows "hm_get env' ''TACH_TARGET_PATH'' = Some (cli_path cli)"
    and "hm_get env' ''TACH_NO_ISOLATION'' = (if cli_no_isolation cli then Some ''1'' else hm_get env ''TACH_NO_ISOLATION'')"
  using assms by (auto simp: main_env_def set_vars_eq hm_get_insert split: if_splits)

text \<open>Watch mode runs one session and then one more for each burst of events that touches a source, until
  one of them ends the process.\<close>

lemma main_watch:
  assumes "main_env cli (mc_env mc) = Some env" and "pf_cwd (pf 0) = Some cwd"
    and "cli_command cli \<noteq> Some ListCommand" and "cli_watch cli"
  shows "main lib pf cli True items mc =
     map_option (\<lambda>(e, _, mc'). (case e of None \<Rightarrow> Returned (Inr ()) | Some out \<Rightarrow> out, mc'))
       (case watch_session lib pf cwd cli (0, mc\<lparr>mc_env := env\<rparr>) of
          None \<Rightarrow> None
        | Some (Some e, s) \<Rightarrow> Some (Some e, s)
        | Some (None, s) \<Rightarrow> sessions (\<lambda>s. watch_session lib pf cwd cli (case s of (n, m) \<Rightarrow> (n, m\<lparr>mc_io := clear_screen (mc_io m)\<rparr>))) (reruns items) s)"
  using assms unfolding main_def start_watch_loop_def watch_loop_sessions by (simp add: Let_def)

section \<open>Properties\<close>

text \<open>C20: A session starts exactly the tests it should, once each and in the order of discovery, up to a
  requested shutdown: a test is among them exactly when it was discovered, its fixtures resolve and
  its file is at or below the requested path. When the session ends, the guard kills the zygote,
  also when it was already waited for, removes the debug socket, and does nothing else: it knows no
  workers.\<close>

theorem session_starts_selected_tests:
  assumes "execute_session lib pf cwd format junit_path target mc = Some (out, mc', Some (stats, r))"
  shows "\<exists>d tests pid. discover (lib_walk lib) (lib_parse lib) (pf_world pf) cwd = Some d \<and>
    tests = session_tests (pf_canonicalize pf) target d \<and>
    (\<exists>n\<le>length tests. starts (rn_events r) = map start_event (take n tests) \<and> (n = length tests \<or> pf_shutdown pf (of_nat n))) \<and>
    set tests = {rt. (\<exists>(mp, t)\<in>set (all_tests d). resolve_test (from_discovery d) t mp = Inr rt) \<and>
            matches_target (pf_canonicalize pf) (path_of target) rt} \<and>
    pf_fork pf = Some (ForkParent pid) \<and>
    mc_actions mc' = mc_actions mc @ (if pid > 0 then [Kill pid SIGKILL] else []) @ [RemoveFile (debug_socket_path (pf_pid pf))]"
  using assms
proof (cases rule: execute_session_cases)
  case (ran d g1 w1 g mc2 w)
  let ?tests = "session_tests (pf_canonicalize pf) target d"
  have out: "\<forall>n. out \<noteq> Exited n" using run_tests_run [OF ran(2)] by blast
  obtain rest capture dp k where
    run: "run_scheduler (lib_de lib) (lib_ser lib) (lib_err_text lib) (pf_shutdown pf) ?tests
       (new_scheduler ((pf_cmd pf)\<lparr>s_in := rest\<rparr>) (pf_results pf) capture dp k (pf_clock pf)) = Some (Inr (stats, r))"
    using run_tests_run [OF ran(2)] by blast
  have "\<exists>n\<le>length ?tests. starts (rn_events r) = map start_event (take n ?tests) \<and> (n = length ?tests \<or> pf_shutdown pf (of_nat n))"
    by (rule run_starts_in_order [OF run])
  moreover obtain pid where pid: "pf_fork pf = Some (ForkParent pid)" "cg_zygote_pid g = Some pid"
      "cg_socket_paths g = [debug_socket_path (pf_pid pf)]" "cg_worker_pids g = []" "mc_actions mc2 = mc_actions mc"
    using run_tests_guard [OF ran(2) out] by auto
  moreover have "mc_actions mc' = mc_actions mc2 @ drop_guard g"
    unfolding ran(4) not_exited_release [OF out] by (simp add: release_def)
  ultimately show ?thesis using in_session_tests [of _ "pf_canonicalize pf" target d] ran(1)
    by (auto simp: drop_guard_def kill_workers_def cleanup_sockets_def)
qed simp_all


text \<open>C19: In the machine-readable format a session prints exactly the events of its run on standard output, one
  serialized line each, from the start to the end with the totals, whatever else it does.\<close>

theorem json_session_output:
  assumes "execute_session lib pf cwd Json junit_path target mc = Some (out, mc', Some (stats, r))"
  shows "io_stdout (mc_io mc') = io_stdout (mc_io mc) @ concat (map (\<lambda>e. lib_to_json lib e @ NL) (rn_events r)) \<and>
     (\<exists>n es. rn_events r = RunStart n # es @ [RunFinished (passes es) (failures es) 0 (st_duration_ms stats)])"
  using assms
proof (cases rule: execute_session_cases)
  case (ran d g1 w1 g mc2 w)
  let ?step = "on_event (\<lambda>e. Some (lib_to_json lib e)) (lib_to_xml lib)" and ?rep = "make_reporter Json junit_path"
  have out: "\<forall>n. out \<noteq> Exited n" using run_tests_run [OF ran(2)] by blast
  obtain rep' w' where w': "run_events ?step (rn_events r) ?rep (mc_io mc2) = Some (rep', w')"
    using run_events_total [of "\<lambda>e. Some (lib_to_json lib e)"] by blast
  have "json_leaves ?rep = 1" by (cases junit_path) (simp_all add: make_reporter_def)
  then have "io_stdout w' = io_stdout (mc_io mc2) @ concat (map (\<lambda>e. lib_to_json lib e @ NL) (rn_events r))"
    using rp.run_out [OF w'] by (simp add: json_line_def)
  moreover have "mc_io mc' = w'"
    unfolding ran(4) not_exited_release [OF out] using w' by (simp add: release_def ran(3) report_run_def)
  moreover have "mc_io mc2 = mc_io mc" using run_tests_guard [OF ran(2) out] by simp
  moreover have "\<exists>n es. rn_events r = RunStart n # es @ [RunFinished (passes es) (failures es) 0 (st_duration_ms stats)]"
    using run_tests_run [OF ran(2)] run_totals by metis
  ultimately show ?thesis by simp
qed simp_all

section \<open>Witnesses\<close>

text \<open>A project with one test, on a machine where everything works; the zygote is ready and does not answer.\<close>

definition ex_lib :: libraries where
  "ex_lib = \<lparr>lib_de = (\<lambda>_. None), lib_ser = (\<lambda>_. None), lib_de_payload = (\<lambda>_. None), lib_err_text = (\<lambda>_. ''err''),
     lib_to_json = (\<lambda>_. ''event''), lib_list_json = (\<lambda>_. Inr ''list''), lib_to_xml = (\<lambda>_. Inl ''no xml''), lib_from_toml = (\<lambda>_. None),
     lib_parse = (\<lambda>_ _. Some [FunctionDef (ex_def ''test_a'' [] [])]), lib_walk = ex_walk, lib_walkdir = (\<lambda>_. []),
     lib_run = (\<lambda>_ _ w. (None, w))\<rparr>"

definition ex_platform :: platform where
  "ex_platform = \<lparr>pf_cwd = Some [RootDir, Normal ''p''], pf_world = ex_world, pf_canonicalize = (\<lambda>_. Some [RootDir]),
     pf_exists = (\<lambda>_. False), pf_read = (\<lambda>_. None), pf_pid = 5, pf_unlink_ok = True, pf_bind_ok = True, pf_nonblock_ok = True,
     pf_cpus = 2, pf_pairs_ok = True, pf_uuid = ''u'', pf_mkdir_ok = True, pf_uffd_bind_ok = True,
     pf_fork = Some (ForkParent 7), pf_clone_ok = True, pf_cmd = \<lparr>s_out = [], s_wfail = [], s_in = [Byte MSG_READY]\<rparr>,
     pf_timeout_ok = True, pf_results = [], pf_clock = ex_clock, pf_shutdown = (\<lambda>_. False), pf_wait_ok = True, pf_undeletable = {},
     pf_zygote_cmd = \<lparr>s_out = [], s_wfail = [], s_in = []\<rparr>, pf_zygote_forks = (\<lambda>_. (True, None)),
     pf_zygote_fs = \<lparr>ef_virtual_env = None, ef_exists = (\<lambda>_. False), ef_is_dir = (\<lambda>_. False), ef_read_dir = (\<lambda>_. None)\<rparr>,
     pf_zygote_python = \<lparr>ps_sys_path = [], ps_path_is_list = True, ps_pytest_ok = (\<lambda>_. True), ps_django_ok = True, ps_inject_ok = True,
       ps_harness_ok = True, ps_init_session_ok = (\<lambda>_. True)\<rparr>, pf_zygote_signal_ok = True, pf_zygote_clone_ok = True\<rparr>"

definition ex_machine :: machine where
  "ex_machine = \<lparr>mc_files = {}, mc_os = Logcapture.ex_os, mc_env = [], mc_globals = \<lparr>g_registry = None, g_python_exe = None, g_magic = None\<rparr>,
     mc_loader = \<lparr>lw_files = (\<lambda>_. None), lw_mkdir_ok = (\<lambda>_. False), lw_pyo3_python = None\<rparr>, mc_io = Junit.ex_io, mc_actions = []\<rparr>"

definition ex_found :: DiscoveryResult where
  "ex_found = \<lparr>dr_modules = [\<lparr>tm_path = [Normal ''test_x.py''],
     tm_tests = [\<lparr>tc_name = ''test_a'', tc_dependencies = [], tc_is_async = False, tc_line_number = 1, tc_parametrized_args = []\<rparr>],
     tm_fixtures = []\<rparr>]\<rparr>"

lemma ex_discover: "discover (lib_walk ex_lib) (lib_parse ex_lib) (pf_world ex_platform) [RootDir, Normal ''p''] = Some ex_found"
proof -
  have "test_paths ex_walk ex_world [RootDir, Normal ''p''] = [[Normal ''test_x.py'']]"
    by (simp add: test_paths_def strip_prefix_def disc_eval List.map_filter_simps Let_def)
  then show ?thesis
    by (simp add: ex_lib_def ex_platform_def ex_found_def discover_def parse_module_def analyze_suite_extend extend_found_def tests_of_def
        make_test_def get_line_number_def str_slice_to_def is_char_boundary_def is_cont_byte_def
        byte_in_def fixtures_of_def disc_eval)
qed

lemma ex_session_tests:
  "session_tests (\<lambda>_. Some [RootDir]) ''.'' ex_found =
     [\<lparr>rt_file_path = [Normal ''test_x.py''], rt_test_name = ''test_a'', rt_is_async = False, rt_fixtures = []\<rparr>]"
proof -
  let ?t = "\<lparr>tc_name = ''test_a'', tc_dependencies = [], tc_is_async = False, tc_line_number = 1, tc_parametrized_args = []\<rparr>"
  have "resolve_test (from_discovery ex_found) ?t [Normal ''test_x.py''] =
     Inr \<lparr>rt_file_path = [Normal ''test_x.py''], rt_test_name = ''test_a'', rt_is_async = False, rt_fixtures = []\<rparr>"
    by (simp add: resolve_test_def)
  then show ?thesis
    by (simp add: session_tests_def resolve_all_runnable all_tests_def ex_found_def map_filter_simps
        matches_target_def path_starts_with_def)
qed

lemma ex_run:
  "\<exists>res mc' stats r. execute_session ex_lib ex_platform [RootDir, Normal ''p''] Json None ''.'' ex_machine =
     Some (Returned res, mc', Some (stats, r)) \<and> res \<in> {Inl ShutdownFailed, Inl WaitFailed, Inr ()}"
proof -
  let ?tests = "session_tests (\<lambda>_. Some [RootDir]) ''.'' ex_found" and ?lc = "\<lparr>lc_fds = [(0, 3)], lc_num_slots = 1\<rparr>"
  let ?sock = "debug_socket_path 5" and ?server = "\<lparr>ds_socket_path = debug_socket_path 5\<rparr>"
  have c: "\<exists>os1. new_capture 1 Logcapture.ex_os = (Inr ?lc, os1)"
    by (simp add: new_capture_def Logcapture.ex_os_def create_memfd_def sys_memfd_create_def
        sys_ftruncate_def upd_file_def NUL_def show_nat.simps digit_char_def Let_def char_of_def)
  then obtain os1 where c: "new_capture 1 Logcapture.ex_os = (Inr ?lc, os1)" by blast
  have "length ?tests \<le> slot_count ?lc" by (simp add: ex_session_tests slot_count_def)
  from run_scheduler_returns [OF this ex_clock_unbounded] obtain stats r where
    run: "run_scheduler (\<lambda>_. None) (\<lambda>_. None) (\<lambda>_. ''err'') (\<lambda>_. False) ?tests
       (new_scheduler \<lparr>s_out = [], s_wfail = [], s_in = []\<rparr> [] ?lc ?sock os1 ex_clock) = Some (Inr (stats, r))" by blast
  have sup: "\<exists>res mc'. supervise ex_lib ex_platform 7 ?server ?lc ?tests g (mc\<lparr>mc_os := os1\<rparr>) =
      Some (Returned res, set_zygote_pid 7 g, mc', Some (stats, r)) \<and> res \<in> {Inl ShutdownFailed, Inl WaitFailed, Inr ()}" for g mc
    using run by (simp add: supervise_def ex_platform_def ex_lib_def scheduler_new_def Let_def numeral_eq_Suc)
  have "new_debug_server 5 True True True {} = (Inr ?server, {?sock})" by (simp add: new_debug_server_def Let_def)
  moreover have "load_env_from_pyproject (\<lambda>_. None) (\<lambda>_. False) (\<lambda>_. None) [RootDir, Normal ''p''] [] = Some []"
    by (simp add: load_env_from_pyproject_def)
  moreover obtain ctx files env where "new_run_context ''u'' True True {?sock} [] = (Some ctx, files, env)"
    by (simp add: new_run_context_def Let_def)
  ultimately have rt: "\<exists>res g mc'. run_tests ex_lib ex_platform new_guard ?tests
      (ex_machine\<lparr>mc_globals := g1, mc_loader := w1\<rparr>) = Some (Returned res, g, mc', Some (stats, r)) \<and>
      res \<in> {Inl ShutdownFailed, Inl WaitFailed, Inr ()}" for g1 w1
    using c sup [of "track_socket ?sock new_guard" "ex_machine\<lparr>mc_globals := g1, mc_loader := w1, mc_files := files, mc_env := env\<rparr>"]
    by (auto simp: run_tests_def max_workers_def ex_session_tests ex_machine_def ex_platform_def ex_lib_def Let_def)
  obtain n g1 w1 where "session_compile (lib_run ex_lib) [RootDir, Normal ''p'']
      (List.map_filter result_ok (lib_walkdir ex_lib [RootDir, Normal ''p''])) (mc_globals ex_machine) (mc_loader ex_machine) = (n, g1, w1)"
    by (metis prod_cases3)
  moreover have "pf_canonicalize ex_platform = (\<lambda>_. Some [RootDir])" by (simp add: ex_platform_def)
  moreover have "?tests \<noteq> []" by (simp add: ex_session_tests)
  ultimately show ?thesis using rt [of w1 g1]
    by (auto simp: execute_session_def ex_discover Let_def)
qed

theorem session_starts_selected_tests_witness:
  "\<exists>res mc' stats r. execute_session ex_lib ex_platform [RootDir, Normal ''p''] Json None ''.'' ex_machine =
       Some (Returned res, mc', Some (stats, r)) \<and>
     starts (rn_events r) = [TestStart ''test_a'' ''test_x.py''] \<and> mc_actions mc' = [Kill 7 SIGKILL, RemoveFile (debug_socket_path 5)]"
proof -
  obtain res mc' stats r where e: "execute_session ex_lib ex_platform [RootDir, Normal ''p''] Json None ''.'' ex_machine =
       Some (Returned res, mc', Some (stats, r))" using ex_run by blast
  have "pf_canonicalize ex_platform = (\<lambda>_. Some [RootDir])" "pf_fork ex_platform = Some (ForkParent 7)" "pf_pid ex_platform = 5"
      "\<not> pf_shutdown ex_platform n" "mc_actions ex_machine = []" for n
    by (simp_all add: ex_platform_def ex_machine_def)
  with session_starts_selected_tests [OF e] e ex_discover show ?thesis
    by (auto simp: ex_session_tests start_event_def path_text_def)
qed


theorem json_session_output_witness:
  "\<exists>out mc' stats r. execute_session ex_lib ex_platform [RootDir, Normal ''p''] Json None ''.'' ex_machine = Some (out, mc', Some (stats, r)) \<and>
     prefix (''event'' @ NL) (io_stdout (mc_io mc'))"
proof -
  obtain res mc' stats r where e: "execute_session ex_lib ex_platform [RootDir, Normal ''p''] Json None ''.'' ex_machine =
       Some (Returned res, mc', Some (stats, r))" using ex_run by blast
  have "io_stdout (mc_io ex_machine) = []" "lib_to_json ex_lib = (\<lambda>_. ''event'')"
    by (simp_all add: ex_machine_def Junit.ex_io_def ex_lib_def)
  with json_session_output [OF e] e show ?thesis by auto
qed

end
