(* ===== verification/Text.thy ===== *)
theory Text
  imports Scheduler Junit
begin

text \<open>
  The type of Rust's \<^verbatim>\<open>String\<close>: what the program builds, cuts, cleans and reports is UTF-8 whenever its
  inputs are. A byte string of the model is a value of that type when \<^const>\<open>utf8_valid\<close> holds; every
  operation the program applies to strings keeps it, although some work on bytes.
\<close>

section \<open>String operations keep the type\<close>

lemma utf8_around:
  assumes "utf8_valid (a @ p @ b)" and "is_ascii p" and "p \<noteq> []"
  shows "utf8_valid a \<and> utf8_valid b"
proof -
  obtain c p' where p: "p = c # p'" using assms(3) by (cases p) auto
  have "\<not> is_cont_byte c" using assms(2) p by (auto simp: is_ascii_def is_cont_byte_def)
  then have "is_char_boundary (a @ p @ b) (length a)" by (simp add: p is_char_boundary_def nth_append)
  from utf8_valid_cut [OF assms(1) this] have "utf8_valid a" "utf8_valid (p @ b)" by simp_all
  with is_ascii_utf8 [OF assms(2)] show ?thesis by (simp add: utf8_valid_append)
qed

lemma utf8_strip_cr: "utf8_valid s \<Longrightarrow> utf8_valid (strip_cr s)"
proof -
  assume s: "utf8_valid s"
  show ?thesis
  proof (cases "suffix [CHR 0x0D] s")
    case True
    then obtain t where t: "s = t @ [CHR 0x0D]" by (auto elim: suffixE)
    with s have "utf8_valid t" using utf8_valid_left [of t "[CHR 0x0D]"] by (simp add: byte_in_def)
    with t show ?thesis by (simp add: strip_cr_def)
  qed (simp add: strip_cr_def s)
qed

lemma utf8_lines_raw: "utf8_valid (acc @ s) \<Longrightarrow> list_all utf8_valid (lines_raw acc s)"
proof (induction acc s rule: lines_raw.induct)
  case (2 acc c cs)
  show ?case
  proof (cases "c = CHR 0x0A")
    case True
    with "2.prems" have "utf8_valid acc \<and> utf8_valid cs"
      using utf8_around [of acc "[CHR 0x0A]" cs] by (simp add: is_ascii_def)
    with True "2.IH" show ?thesis by (simp add: utf8_strip_cr)
  next
    case False
    with "2.IH"(2) [OF False] "2.prems" show ?thesis by simp
  qed
qed simp

lemma utf8_str_lines: "utf8_valid s \<Longrightarrow> list_all utf8_valid (str_lines s)"
  using utf8_lines_raw [of "[]" s] by (simp add: str_lines_def)

lemma utf8_split_str: "utf8_valid s \<Longrightarrow> is_ascii p \<Longrightarrow> list_all utf8_valid (split_str p s)"
proof (induction p s rule: split_str.induct)
  case (1 p s)
  show ?case
  proof (cases "p = [] \<or> split_once p s = None")
    case True
    with "1.prems" show ?thesis by (auto simp: split_str.simps [of p s])
  next
    case False
    then obtain a b where ab: "split_once p s = Some (a, b)" and p: "p \<noteq> []" by auto
    have "utf8_valid a \<and> utf8_valid b" by (rule utf8_split_once [OF "1.prems" ab])
    with "1.IH" [OF p ab refl] "1.prems"(2) p ab show ?thesis by (simp add: split_str.simps [of p s])
  qed
qed

lemma utf8_str_join: "utf8_valid sep \<Longrightarrow> list_all utf8_valid xs \<Longrightarrow> utf8_valid (str_join sep xs)"
  by (induction sep xs rule: str_join.induct) (simp_all add: utf8_valid_append)

lemma utf8_replace_str: "utf8_valid s \<Longrightarrow> is_ascii p \<Longrightarrow> utf8_valid r \<Longrightarrow> utf8_valid (replace_str s p r)"
  by (simp add: replace_str_def utf8_str_join utf8_split_str)

section \<open>Operations of the components\<close>

text \<open>Cutting a failure message, when it does not panic.\<close>

lemma fail_result_text:
  assumes "fail_result i d msg = Some r" and "utf8_valid msg"
  shows "utf8_valid (tr_message r)"
proof -
  obtain m where m: "truncate_message msg = Some m" and r: "tr_message r = m"
    using assms(1) by (auto simp: fail_result_def)
  show ?thesis
  proof (cases "length msg > 4096")
    case True
    with m obtain p where p: "str_slice_to msg 4096 = Some p" "m = p @ ''... [truncated]''"
      by (auto simp: truncate_message_def)
    have "is_ascii ''... [truncated]''" by (simp add: is_ascii_def)
    with utf8_slice [OF assms(2) p(1)] show ?thesis using is_ascii_utf8 by (simp add: r p(2) utf8_valid_append del: utf8_valid.simps)
  qed (use m r assms(2) in \<open>simp add: truncate_message_def\<close>)
qed

text \<open>A log is text, or empty when the worker wrote something else.\<close>

lemma read_and_clear_text:
  assumes "read_and_clear lc slot s = (Inr text, s')"
  shows "utf8_valid text"
proof -
  have "utf8_valid (fst (file_read_to_string fd k))" for fd k
    by (simp add: file_read_to_string_def Let_def split: option.split)
  then show ?thesis using assms
    by (auto simp: read_and_clear_def Let_def NUL_def is_ascii_def split: option.splits prod.splits if_splits
        intro!: utf8_trim_end utf8_trim_end_matches_char) (metis fst_conv)+
qed

text \<open>Removing escape sequences byte by byte removes whole characters.\<close>

lemma multi_byte_char:
  assumes "utf8_char c" and "\<not> is_ascii c"
  shows "list_all (\<lambda>b. 128 \<le> (of_char b :: nat)) c"
  using assms by (cases c rule: utf8_char.cases)
    (auto simp: byte_in_def is_cont_byte_def is_ascii_def split: if_splits)

lemma ascii_char: "utf8_char c \<Longrightarrow> is_ascii c \<Longrightarrow> \<exists>a. c = [a]"
  by (cases c rule: utf8_char.cases) (auto simp: byte_in_def is_cont_byte_def is_ascii_def)

lemma skip_csi_high: "list_all (\<lambda>b. 128 \<le> (of_char b :: nat)) c \<Longrightarrow> skip_csi (c @ t) = skip_csi t"
  by (induction c) (auto simp: is_ascii_alphabetic_def Let_def)

lemma skip_csi_text: "utf8_valid s \<Longrightarrow> utf8_valid (skip_csi s)"
proof (induction s rule: utf8_induct)
  case (char c t)
  show ?case
  proof (cases "is_ascii c")
    case True
    with char ascii_char [of c] show ?thesis by auto
  next
    case False
    with char skip_csi_high [OF multi_byte_char] show ?thesis by simp
  qed
qed simp

lemma strip_high: "list_all (\<lambda>b. 128 \<le> (of_char b :: nat)) c \<Longrightarrow> strip_ansi_codes (c @ t) = c @ strip_ansi_codes t"
  by (induction c) (auto simp: ESC_def)

lemma strip_ansi_codes_text: "utf8_valid s \<Longrightarrow> utf8_valid (strip_ansi_codes s)"
proof (induction "length s" arbitrary: s rule: less_induct)
  case less
  show ?case
  proof (cases "s = []")
    case False
    with less.prems obtain c t where c: "utf8_char c" "s = c @ t" "utf8_valid t" using utf8_valid_split by blast
    then have t: "utf8_valid (strip_ansi_codes t)" using less.hyps [of t] utf8_char_bytes [OF c(1)] by simp
    show ?thesis
    proof (cases "is_ascii c")
      case True
      with c(1) obtain a where a: "c = [a]" using ascii_char by blast
      have csi: "utf8_valid (strip_ansi_codes (skip_csi ds))" if "t = CHR ''['' # ds" for ds
        using less.hyps [of "skip_csi ds"] length_skip_csi [of ds] skip_csi_text [of ds] c(2,3) that a by (simp add: byte_in_def)
      have "utf8_valid (a # strip_ansi_codes t)" using utf8_char_append [OF c(1), of "strip_ansi_codes t"] t a by simp
      with t csi have "utf8_valid (strip_ansi_codes (a # t))"
        unfolding strip_ansi_codes.simps(2) [of a t] by (auto simp del: utf8_valid.simps(2) strip_ansi_codes.simps(2) split: list.split)
      then show ?thesis by (simp add: c(2) a del: utf8_valid.simps strip_ansi_codes.simps)
    next
      case False
      with c t show ?thesis by (simp add: strip_high multi_byte_char utf8_char_append)
    qed
  qed simp
qed

definition case_text :: "JunitCase \<Rightarrow> bool" where
  "case_text c \<longleftrightarrow> utf8_valid (jc_name c) \<and> utf8_valid (jc_classname c) \<and>
     (case jc_failure c of None \<Rightarrow> True | Some f \<Rightarrow> utf8_valid (jf_message f) \<and> utf8_valid (jf_body f))"

lemma junit_case_text:
  assumes "utf8_valid tid" and "\<forall>m. message = Some m \<longrightarrow> utf8_valid m"
  shows "case_text (junit_case tid status d message)"
proof -
  have ascii: "is_ascii ''::''" "is_ascii ''/''" "is_ascii ''.py''" "is_ascii ''.''" "is_ascii ''Test failed''" by (simp_all add: is_ascii_def)
  note lit = ascii(4,5) [THEN is_ascii_utf8]
  have parts: "utf8_valid a \<and> utf8_valid b" if "split_once ''::'' tid = Some (a, b)" for a b
    by (rule utf8_split_once [OF assms(1) ascii(1) that])
  have "utf8_valid (strip_ansi_codes (case message of None \<Rightarrow> ''Test failed'' | Some raw \<Rightarrow> raw))"
    using assms(2) lit(2) by (intro strip_ansi_codes_text) (simp del: utf8_valid.simps split: option.split)
  moreover have "utf8_valid (replace_str (replace_str s ''/'' ''.'') ''.py'' [])" if "utf8_valid s" for s
    by (intro utf8_replace_str that ascii lit utf8_valid.simps(1) [THEN iffD2] TrueI)
  ultimately show ?thesis using assms(1) parts lit(2)
    by (cases "split_once ''::'' tid") (auto simp: junit_case_def case_text_def Let_def simp del: utf8_valid.simps(2))
qed

section \<open>Reports are text\<close>

declare utf8_valid.simps(2) [simp del]

fun event_text :: "MachineEvent \<Rightarrow> bool" where
  "event_text (TestStart tid fl) = (utf8_valid tid \<and> utf8_valid fl)"
| "event_text (TestFinished tid status d message) =
     (utf8_valid tid \<and> utf8_valid status \<and> (case message of None \<Rightarrow> True | Some m \<Rightarrow> utf8_valid m))"
| "event_text (ErrorEvent message) = utf8_valid message"
| "event_text _ = True"

definition test_text :: "RunnableTest \<Rightarrow> bool" where
  "test_text t \<longleftrightarrow> utf8_valid (rt_test_name t) \<and> utf8_valid (path_text (rt_file_path t))"

text \<open>What the libraries hand over as strings is text.\<close>

definition texts_given :: "(u8 list \<Rightarrow> TestResult option) \<Rightarrow> (dispatch_error \<Rightarrow> string) \<Rightarrow> bool" where
  "texts_given de err_text \<longleftrightarrow> (\<forall>b x. de b = Some x \<longrightarrow> utf8_valid (tr_message x)) \<and> (\<forall>e. utf8_valid (err_text e))"

definition run_text :: "bool \<Rightarrow> running \<Rightarrow> bool" where
  "run_text given r \<longleftrightarrow> (given \<longrightarrow> list_all event_text (rn_events r) \<and>
     (\<forall>w\<in>snd ` set (sc_active_workers (rn_sched r)). utf8_valid (aw_test_name w)))"

lemma ascii_texts:
  "utf8_valid ''pass''" "utf8_valid ''fail''" "utf8_valid ''CRASHED - no response''" "utf8_valid ''Shutdown requested''" "utf8_valid ''test_''"
  by (rule is_ascii_utf8, simp add: is_ascii_def)+

lemma format_result_text:
  "utf8_valid n \<Longrightarrow> utf8_valid (tr_message x) \<Longrightarrow> format_result n x = (a, b, d, m) \<Longrightarrow> event_text (TestFinished a b d m)"
  by (auto simp: format_result_def ascii_texts simp del: utf8_valid.simps split: if_splits)

lemma try_collect_text:
  assumes "try_collect_result_for_reporter de s = (rep, s')" and "texts_given de err_text"
    and "\<forall>w\<in>snd ` set (sc_active_workers s). utf8_valid (aw_test_name w)"
  shows "(\<forall>a b d m. rep = Some (a, b, d, m) \<longrightarrow> event_text (TestFinished a b d m)) \<and>
     (\<forall>w\<in>snd ` set (sc_active_workers s'). utf8_valid (aw_test_name w))"
proof -
  have names: "utf8_valid (case hm_get (sc_active_workers s) i of Some w \<Rightarrow> aw_test_name w | None \<Rightarrow> ''test_'' @ show_nat n)" for i n
  proof (cases "hm_get (sc_active_workers s) i")
    case None
    have "utf8_valid (''test_'' @ show_nat n)" unfolding utf8_valid_append [OF ascii_texts(5)] by (rule utf8_show_nat)
    with None show ?thesis by simp
  next
    case (Some w)
    with assms(3) show ?thesis by (auto dest!: map_of_SomeD)
  qed
  have de: "utf8_valid (tr_message x)" if "de b = Some x" for b x using assms(2) that by (auto simp: texts_given_def)
  have sub: "snd ` set (AList.delete i m) \<subseteq> snd ` set m" for i and m :: "(u32 \<times> ActiveWorker) list"
    by (auto simp: AList.delete_eq)
  from assms(1) consider "rep = None" "sc_active_workers s' = sc_active_workers s"
    | b x where "de b = Some x" "rep = Some (format_result (case hm_get (sc_active_workers s) (tr_test_id x) of
          Some w \<Rightarrow> aw_test_name w | None \<Rightarrow> ''test_'' @ show_nat (unat (tr_test_id x))) x)"
        "sc_active_workers s' = hm_remove (tr_test_id x) (sc_active_workers s)"
    by (auto simp: try_collect_result_for_reporter_def Let_def split: prod.splits option.splits)
  then show ?thesis
  proof cases
    case (2 b x)
    then have "\<forall>w\<in>snd ` set (sc_active_workers s'). utf8_valid (aw_test_name w)" using assms(3) sub by fastforce
    moreover have "\<forall>a b' d m. rep = Some (a, b', d, m) \<longrightarrow> event_text (TestFinished a b' d m)"
      using 2 format_result_text [OF names de [OF 2(1)]] by auto
    ultimately show ?thesis by blast
  qed (use assms(3) in simp)
qed

lemma run_text_event: "run_text given r \<Longrightarrow> (given \<Longrightarrow> event_text e) \<Longrightarrow> run_text given (report_event e r)"
  by (simp add: run_text_def report_event_def)

lemma run_text_count:
  assumes "run_text given r" and "given \<Longrightarrow> event_text (TestFinished a b d m)"
  shows "run_text given (count_result (a, b, d, m) r)"
  using assms by (simp add: run_text_def count_result_def report_event_def Let_def ascii_texts)

lemma update_values: "snd ` set (AList.update k v m) \<subseteq> insert v (snd ` set m)"
  by (induction m) auto

lemma start_test_workers:
  "snd ` set (sc_active_workers (rn_sched (start_test ser err_text i t slot r))) \<subseteq>
     snd ` set (sc_active_workers (rn_sched r)) \<union> {w. aw_test_name w = rt_test_name t}"
proof -
  let ?s = "rn_sched (report_event (TestStart (rt_test_name t) (path_text (rt_file_path t))) r)"
  have s: "?s = rn_sched r" by (simp add: report_event_def)
  obtain res s' where d: "dispatch_test ser t i slot ?s = (res, s')" by fastforce
  have st: "rn_sched (start_test ser err_text i t slot r) = s'"
    by (cases res) (simp_all add: start_test_def d Let_def)
  show ?thesis
  proof (cases res)
    case (Inl e)
    with dispatch_test_Inl [of ser t i slot ?s e s'] d show ?thesis by (simp add: st s)
  next
    case (Inr u)
    with dispatch_test_Inr [of ser t i slot ?s u s'] d obtain now where
      "sc_active_workers s' = hm_insert i \<lparr>aw_test_name = rt_test_name t, aw_slot = slot, aw_start_time = now\<rparr> (sc_active_workers (rn_sched r))"
      by (auto simp: s)
    then have "snd ` set (sc_active_workers s') \<subseteq> insert \<lparr>aw_test_name = rt_test_name t, aw_slot = slot, aw_start_time = now\<rparr>
        (snd ` set (sc_active_workers (rn_sched r)))" by (simp only: update_values)
    then show ?thesis unfolding st by (rule subset_trans) auto
  qed
qed

interpretation utf: test_invariant "run_text (texts_given de err_text)" test_text
  "\<lambda>n. texts_given de err_text \<longrightarrow> utf8_valid n" de ser err_text for de ser err_text
proof unfold_locales
  fix r rep s n slot i t x and w :: ActiveWorker
  let ?given = "texts_given de err_text"
  assume I: "run_text ?given r"
  have workers: "?given \<Longrightarrow> \<forall>w\<in>snd ` set (sc_active_workers (rn_sched r)). utf8_valid (aw_test_name w)"
    using I by (simp add: run_text_def)
  show "run_text ?given (count_result rep (r\<lparr>rn_sched := s\<rparr>))"
    if "try_collect_result_for_reporter de (rn_sched r) = (Some rep, s)"
  proof -
    obtain a b d m where rep: "rep = (a, b, d, m)" by (metis prod_cases4)
    have "run_text ?given (r\<lparr>rn_sched := s\<rparr>)" "?given \<Longrightarrow> event_text (TestFinished a b d m)"
      using I try_collect_text [OF that _ workers] by (auto simp: run_text_def rep)
    then show ?thesis unfolding rep by (rule run_text_count)
  qed
  show "run_text ?given (r\<lparr>rn_sched := s\<rparr>)" if "try_collect_result_for_reporter de (rn_sched r) = (None, s)"
    using I try_collect_text [OF that _ workers] by (auto simp: run_text_def)
  show "run_text ?given (r\<lparr>rn_sched := (rn_sched r)\<lparr>sc_tick := n\<rparr>\<rparr>)" using I by (simp add: run_text_def)
  show "run_text ?given (start_test ser err_text i t slot r)" if t: "test_text t"
  proof -
    let ?e = "TestStart (rt_test_name t) (path_text (rt_file_path t))"
    have e: "?given \<Longrightarrow> event_text ?e" using t by (simp add: test_text_def)
    have f: "?given \<Longrightarrow> event_text (TestFinished (rt_test_name t) ''fail'' 0 (Some (err_text x)))" for x
      using t by (simp add: test_text_def texts_given_def ascii_texts del: utf8_valid.simps)
    have "rn_events (start_test ser err_text i t slot r) = rn_events r @ [?e] \<or>
        (\<exists>x. rn_events (start_test ser err_text i t slot r) = rn_events r @ [?e, TestFinished (rt_test_name t) ''fail'' 0 (Some (err_text x))])"
      by (auto simp: start_test_def count_result_def report_event_def Let_def split: prod.split sum.split unit.split)
    then have "?given \<Longrightarrow> list_all event_text (rn_events (start_test ser err_text i t slot r))"
      using I e f by (auto simp: run_text_def simp del: event_text.simps)
    then show ?thesis using workers start_test_workers [of ser err_text i t slot r] t
      by (fastforce simp: run_text_def test_text_def)
  qed
  show "run_text ?given (report_stale [x] r)" if "?given \<longrightarrow> utf8_valid (fst (snd x))"
    using I that workers
    by (auto simp: run_text_def report_stale_single ascii_texts AList.delete_eq simp del: report_stale.simps utf8_valid.simps)
  show "?given \<longrightarrow> utf8_valid (aw_test_name w)" if "w \<in> snd ` set (sc_active_workers (rn_sched r))"
    using workers that by blast
  show "run_text ?given (report_event (ErrorEvent ''Shutdown requested'') r)"
    using I by (rule run_text_event) (simp only: event_text.simps ascii_texts)
qed

text \<open>What the human reporter writes.\<close>

lemma human_literals:
  "utf8_valid check_mark" "utf8_valid cross_mark" "utf8_valid circled_slash" "utf8_valid NL" "utf8_valid ''    ''"
  "utf8_valid '' (''" "utf8_valid ''ms)''" "utf8_valid '' skipped''" "utf8_valid ''[tach] Running ''" "utf8_valid '' tests...''"
  "utf8_valid ''  ''" "utf8_valid '' ... ''" "utf8_valid ''[tach] ''" "utf8_valid '' passed, ''" "utf8_valid '' failed, ''"
  "utf8_valid '' skipped in ''" "utf8_valid ''ms''" "utf8_valid ''[tach] FATAL ERROR: ''"
proof -
  show "utf8_valid check_mark" "utf8_valid cross_mark" "utf8_valid circled_slash"
    by (simp_all add: check_mark_def cross_mark_def circled_slash_def utf8_valid.simps(2) byte_in_def is_cont_byte_def)
qed (rule is_ascii_utf8, simp add: is_ascii_def NL_def)+

lemma human_finished_text:
  assumes "event_text (TestFinished tid status d message)"
  shows "utf8_valid (human_finished status d message)"
proof -
  have num: "utf8_valid (show_u64 d)" by (simp add: show_u64_def utf8_show_nat)
  have "utf8_valid (concat (map (\<lambda>line. ''    '' @ line @ NL) (take 10 (str_lines msg))))" if "message = Some msg" for msg
  proof (rule utf8_concat)
    have "list_all utf8_valid (str_lines msg)" using assms that by (intro utf8_str_lines) simp
    then show "list_all utf8_valid (map (\<lambda>line. ''    '' @ line @ NL) (take 10 (str_lines msg)))"
      using human_literals(4,5) by (auto simp: list_all_iff utf8_valid_append simp del: append.simps dest: in_set_takeD)
  qed
  with assms num human_literals show ?thesis
    by (cases message) (simp_all add: human_finished_def utf8_valid_append del: append.simps)
qed

lemma human_event_text:
  assumes "event_text e" and "utf8_valid (io_stderr w)"
  shows "utf8_valid (io_stderr (human_event e w))"
  using assms utf8_show_nat human_literals human_finished_text
  by (cases e) (simp_all add: eprint_def show_u64_def utf8_valid_append del: append.simps)

lemma human_run_text:
  "list_all event_text es \<Longrightarrow> utf8_valid (io_stderr w) \<Longrightarrow> run_events (on_event to_json to_xml) es HumanRep w = Some (r', w') \<Longrightarrow>
     utf8_valid (io_stderr w')"
proof (induction es arbitrary: w)
  case (Cons e es)
  then show ?case using human_event_text [of e w] by simp
qed simp

section \<open>Properties\<close>



end
