(* ===== verification/Conformance.thy ===== *)
theory Conformance
  imports Protocol Junit Lifecycle Debugger Environment Configuration Watch
begin

text \<open>
  The repository's own unit tests of the small components, and its integration tests of the protocol, as
  statements about the model: each definition is the conjunction of the assertions of the test of that
  name, and each lemma says that the test passes on the model. They tie the definitions to the behaviour the
  authors wrote down. \<^verbatim>\<open>bincode\<close> and \<^verbatim>\<open>toml\<close> are parameters here as in the model; a test that only exercises
  such a library or floating point is left out.
\<close>

section \<open>Protocol\<close>

definition test_result_pass_constructor :: bool where
  "test_result_pass_constructor \<longleftrightarrow>
     (let result = pass_result 42 1000000 in
      tr_test_id result = 42 \<and> tr_status result = STATUS_PASS \<and> tr_duration_ns result = 1000000 \<and> tr_message result = [])"

definition test_result_fail_constructor :: bool where
  "test_result_fail_constructor \<longleftrightarrow>
     (case fail_result 42 1000000 ''assertion error'' of
        None \<Rightarrow> False
      | Some result \<Rightarrow> tr_test_id result = 42 \<and> tr_status result = STATUS_FAIL \<and> tr_duration_ns result = 1000000 \<and>
          tr_message result = ''assertion error'')"

definition test_result_crash_constructor :: bool where
  "test_result_crash_constructor \<longleftrightarrow>
     (let result = crash_result 42 in
      tr_test_id result = 42 \<and> tr_status result = STATUS_CRASH \<and> tr_duration_ns result = 0 \<and>
      contains_str (tr_message result) ''crashed'')"

definition test_status_str_mappings :: bool where
  "test_status_str_mappings \<longleftrightarrow>
     status_str (pass_result 0 0) = ''PASS'' \<and> map_option status_str (fail_result 0 0 []) = Some ''FAIL'' \<and>
     status_str (crash_result 0) = ''CRASH'' \<and>
     (let r = pass_result 0 0 in
      status_str (r\<lparr>tr_status := STATUS_SKIP\<rparr>) = ''SKIP'' \<and> status_str (r\<lparr>tr_status := STATUS_ERROR\<rparr>) = ''ERROR'' \<and>
      status_str (r\<lparr>tr_status := STATUS_HARNESS_ERROR\<rparr>) = ''HARNESS_ERROR'' \<and> status_str (r\<lparr>tr_status := 255\<rparr>) = ''UNKNOWN'')"

definition test_truncate_message_edge_cases :: bool where
  "test_truncate_message_edge_cases \<longleftrightarrow>
     truncate_message ''hello'' = Some ''hello'' \<and> truncate_message [] = Some [] \<and>
     (case truncate_message (replicate 4096 CHR ''x'') of
        None \<Rightarrow> False | Some result \<Rightarrow> length result = 4096 \<and> \<not> contains_str result ''truncated'') \<and>
     (case truncate_message (replicate 5000 CHR ''y'') of
        None \<Rightarrow> False
      | Some truncated \<Rightarrow> ends_with truncated ''... [truncated]'' \<and> length truncated < 5000 \<and> length truncated = 4096 + 15)"

definition roundtrip_payload :: TestPayload where
  "roundtrip_payload = \<lparr>tp_test_id = 42, tp_file_path = ''tests/test_foo.py'', tp_test_name = ''test_bar'', tp_is_async = True,
     tp_fixtures = [\<lparr>fi_name = ''db'', fi_scope = ''module''\<rparr>], tp_log_fd = - 1, tp_debug_socket_path = []\<rparr>"

definition test_encode_with_length_roundtrip ::
  "(TestPayload \<Rightarrow> u8 list option) \<Rightarrow> (u8 list \<Rightarrow> TestPayload option) \<Rightarrow> bool" where
  "test_encode_with_length_roundtrip ser de \<longleftrightarrow>
     (case encode_with_length ser roundtrip_payload of
        None \<Rightarrow> False
      | Some encoded \<Rightarrow> unat (u32_from_le (take 4 encoded)) = length encoded - 4 \<and>
          (case de (drop 4 encoded) of
             None \<Rightarrow> False
           | Some decoded \<Rightarrow> tp_test_id decoded = 42 \<and> tp_file_path decoded = ''tests/test_foo.py'' \<and>
               tp_test_name decoded = ''test_bar'' \<and> tp_is_async decoded \<and> length (tp_fixtures decoded) = 1 \<and>
               fi_name (tp_fixtures decoded ! 0) = ''db'' \<and> tp_log_fd decoded = - 1))"

definition test_fixture_info_from_scope :: bool where
  "test_fixture_info_from_scope \<longleftrightarrow>
     fi_scope (from_scope ''db'' Function) = ''function'' \<and> fi_scope (from_scope ''db'' Class) = ''class'' \<and>
     fi_scope (from_scope ''db'' Module) = ''module'' \<and> fi_scope (from_scope ''db'' Session) = ''session''"

text \<open>The integration tests.\<close>

definition test_serialize_test_payload :: "(TestPayload \<Rightarrow> u8 list option) \<Rightarrow> bool" where
  "test_serialize_test_payload ser \<longleftrightarrow>
     (case encode_with_length ser \<lparr>tp_test_id = 42, tp_file_path = ''tests/test_example.py'', tp_test_name = ''test_something'',
             tp_is_async = False, tp_fixtures = [\<lparr>fi_name = ''db'', fi_scope = ''module''\<rparr>], tp_log_fd = 5, tp_debug_socket_path = []\<rparr> of
        None \<Rightarrow> False
      | Some encoded \<Rightarrow> length encoded > 4 \<and> unat (u32_from_le (take 4 encoded)) = length encoded - 4)"

definition test_serialize_test_result :: "(TestResult \<Rightarrow> u8 list option) \<Rightarrow> bool" where
  "test_serialize_test_result ser \<longleftrightarrow>
     (case encode_with_length ser \<lparr>tr_test_id = 123, tr_status = STATUS_PASS, tr_duration_ns = 1000000000, tr_message = []\<rparr> of
        None \<Rightarrow> False | Some encoded \<Rightarrow> length encoded > 4)"

definition test_roundtrip_test_payload ::
  "(TestPayload \<Rightarrow> u8 list option) \<Rightarrow> (u8 list \<Rightarrow> TestPayload option) \<Rightarrow> bool" where
  "test_roundtrip_test_payload ser de \<longleftrightarrow>
     (let original = \<lparr>tp_test_id = 99, tp_file_path = ''path/to/test.py'', tp_test_name = ''test_roundtrip'', tp_is_async = True,
            tp_fixtures = [\<lparr>fi_name = ''fixture_a'', fi_scope = ''function''\<rparr>, \<lparr>fi_name = ''fixture_b'', fi_scope = ''session''\<rparr>],
            tp_log_fd = 10, tp_debug_socket_path = ''/tmp/tach_debug_test.sock''\<rparr> in
      case encode_with_length ser original of
        None \<Rightarrow> False
      | Some encoded \<Rightarrow>
        (case de (drop 4 encoded) of
           None \<Rightarrow> False
         | Some decoded \<Rightarrow> tp_test_id decoded = tp_test_id original \<and> tp_file_path decoded = tp_file_path original \<and>
             tp_test_name decoded = tp_test_name original \<and> length (tp_fixtures decoded) = 2 \<and>
             tp_log_fd decoded = tp_log_fd original \<and> tp_is_async decoded = tp_is_async original))"

definition test_roundtrip_test_result ::
  "(TestResult \<Rightarrow> u8 list option) \<Rightarrow> (u8 list \<Rightarrow> TestResult option) \<Rightarrow> bool" where
  "test_roundtrip_test_result ser de \<longleftrightarrow>
     (let original = \<lparr>tr_test_id = 777, tr_status = STATUS_CRASH, tr_duration_ns = 123456789, tr_message = ''Segmentation fault''\<rparr> in
      case encode_with_length ser original of
        None \<Rightarrow> False
      | Some encoded \<Rightarrow>
        (case de (drop 4 encoded) of
           None \<Rightarrow> False
         | Some decoded \<Rightarrow> tr_test_id decoded = tr_test_id original \<and> tr_status decoded = tr_status original \<and>
             tr_duration_ns decoded = tr_duration_ns original \<and> tr_message decoded = tr_message original))"

definition test_command_constants :: bool where
  "test_command_constants \<longleftrightarrow>
     CMD_FORK \<noteq> CMD_EXIT \<and> STATUS_PASS \<noteq> STATUS_FAIL \<and> STATUS_FAIL \<noteq> STATUS_SKIP \<and> STATUS_SKIP \<noteq> STATUS_CRASH"

definition test_async_payload :: "(TestPayload \<Rightarrow> u8 list option) \<Rightarrow> (u8 list \<Rightarrow> TestPayload option) \<Rightarrow> bool" where
  "test_async_payload ser de \<longleftrightarrow>
     (case encode_with_length ser \<lparr>tp_test_id = 2, tp_file_path = ''test.py'', tp_test_name = ''test_async'', tp_is_async = True,
             tp_fixtures = [], tp_log_fd = - 1, tp_debug_socket_path = []\<rparr> of
        None \<Rightarrow> False
      | Some encoded \<Rightarrow> (case de (drop 4 encoded) of None \<Rightarrow> False | Some decoded \<Rightarrow> tp_is_async decoded))"

lemma replicate_no_sublist: "\<not> set p \<subseteq> {c} \<Longrightarrow> \<not> contains_str (replicate n c) p"
  unfolding contains_str_iff by (auto dest!: set_mono_sublist)

lemma truncate_replicate:
  assumes "\<not> is_cont_byte c" and "4096 < n"
  shows "truncate_message (replicate n c) = Some (replicate 4096 c @ ''... [truncated]'')"
  using assms by (simp add: truncate_message_def str_slice_to_def is_char_boundary_def)

lemma protocol_constructor_tests_pass:
  "test_result_pass_constructor" "test_result_fail_constructor" "test_result_crash_constructor" "test_status_str_mappings"
  "test_fixture_info_from_scope" "test_command_constants"
proof -
  show "test_result_crash_constructor" by code_simp
qed (simp_all add: test_result_pass_constructor_def pass_result_def test_result_fail_constructor_def fail_result_def
    truncate_message_def test_status_str_mappings_def status_str_def crash_result_def test_fixture_info_from_scope_def
    from_scope_def test_command_constants_def status_defs cmd_defs Let_def)

lemma test_truncate_message_edge_cases_passes: "test_truncate_message_edge_cases"
proof -
  have "truncate_message (replicate 4096 CHR ''x'') = Some (replicate 4096 CHR ''x'')" by (simp add: truncate_message_def)
  moreover have "\<not> contains_str (replicate 4096 CHR ''x'') ''truncated''" by (rule replicate_no_sublist) simp
  moreover have "truncate_message (replicate 5000 CHR ''y'') = Some (replicate 4096 CHR ''y'' @ ''... [truncated]'')"
    by (rule truncate_replicate) (simp_all add: is_cont_byte_def)
  ultimately show ?thesis by (simp add: test_truncate_message_edge_cases_def truncate_message_def ends_with_def suffix_def)
qed

text \<open>With a serializer that reads back what it wrote, in fewer than 4 GiB.\<close>

lemma protocol_roundtrip_tests_pass:
  assumes "\<forall>v. \<exists>b. ser v = Some b \<and> b \<noteq> [] \<and> length b < 2 ^ 32 \<and> de b = Some v"
  shows "test_encode_with_length_roundtrip ser de" and "test_serialize_test_payload ser" and "test_roundtrip_test_payload ser de"
    and "test_async_payload ser de"
proof -
  have enc: "\<exists>b. encode_with_length ser v = Some (u32_to_le (of_nat (length b)) @ b) \<and> b \<noteq> [] \<and> length b < 2 ^ 32 \<and> de b = Some v" for v
    using assms [rule_format, of v] by (auto simp: encode_with_length_def)
  show "test_encode_with_length_roundtrip ser de"
    using enc [of roundtrip_payload] by (auto simp: test_encode_with_length_roundtrip_def unat_of_nat_u32) (simp_all add: roundtrip_payload_def)
  show "test_serialize_test_payload ser"
    using enc [of "\<lparr>tp_test_id = 42, tp_file_path = ''tests/test_example.py'', tp_test_name = ''test_something'',
             tp_is_async = False, tp_fixtures = [\<lparr>fi_name = ''db'', fi_scope = ''module''\<rparr>], tp_log_fd = 5, tp_debug_socket_path = []\<rparr>"]
    by (auto simp: test_serialize_test_payload_def unat_of_nat_u32)
  show "test_roundtrip_test_payload ser de"
    using enc [of "\<lparr>tp_test_id = 99, tp_file_path = ''path/to/test.py'', tp_test_name = ''test_roundtrip'', tp_is_async = True,
            tp_fixtures = [\<lparr>fi_name = ''fixture_a'', fi_scope = ''function''\<rparr>, \<lparr>fi_name = ''fixture_b'', fi_scope = ''session''\<rparr>],
            tp_log_fd = 10, tp_debug_socket_path = ''/tmp/tach_debug_test.sock''\<rparr>"]
    by (auto simp: test_roundtrip_test_payload_def Let_def)
  show "test_async_payload ser de"
    using enc [of "\<lparr>tp_test_id = 2, tp_file_path = ''test.py'', tp_test_name = ''test_async'', tp_is_async = True,
             tp_fixtures = [], tp_log_fd = - 1, tp_debug_socket_path = []\<rparr>"]
    by (auto simp: test_async_payload_def)
qed

lemma protocol_result_tests_pass:
  assumes "\<forall>v. \<exists>b. ser v = Some b \<and> b \<noteq> [] \<and> de b = Some v"
  shows "test_serialize_test_result ser" and "test_roundtrip_test_result ser de"
proof -
  have enc: "\<exists>b. encode_with_length ser v = Some (u32_to_le (of_nat (length b)) @ b) \<and> b \<noteq> [] \<and> de b = Some v" for v
    using assms [rule_format, of v] by (auto simp: encode_with_length_def)
  show "test_serialize_test_result ser"
    using enc [of "\<lparr>tr_test_id = 123, tr_status = STATUS_PASS, tr_duration_ns = 1000000000, tr_message = []\<rparr>"]
    by (auto simp: test_serialize_test_result_def)
  show "test_roundtrip_test_result ser de"
    using enc [of "\<lparr>tr_test_id = 777, tr_status = STATUS_CRASH, tr_duration_ns = 123456789, tr_message = ''Segmentation fault''\<rparr>"]
    by (auto simp: test_roundtrip_test_result_def Let_def)
qed

section \<open>JUnit reporter and multi reporter\<close>

definition test_strip_ansi_codes :: bool where
  "test_strip_ansi_codes \<longleftrightarrow>
     strip_ansi_codes ([ESC] @ ''[31mRed text'' @ [ESC] @ ''[0m'') = ''Red text'' \<and>
     strip_ansi_codes ''plain text'' = ''plain text'' \<and>
     strip_ansi_codes ([ESC] @ ''[1m'' @ [ESC] @ ''[31mBold Red'' @ [ESC] @ ''[0m'') = ''Bold Red''"

definition test_strip_null_bytes :: bool where
  "test_strip_null_bytes \<longleftrightarrow> strip_ansi_codes (''text'' @ [CHR 0x00] @ ''with'' @ [CHR 0x00] @ ''nulls'') = ''textwithnulls''"

definition test_strip_ansi_complex_escape_sequences :: bool where
  "test_strip_ansi_complex_escape_sequences \<longleftrightarrow>
     strip_ansi_codes ([ESC] @ ''[1;31;40mColored'' @ [ESC] @ ''[0m normal'') = ''Colored normal''"

definition test_strip_ansi_cursor_movement :: bool where
  "test_strip_ansi_cursor_movement \<longleftrightarrow> strip_ansi_codes ([ESC] @ ''[2Jcleared'' @ [ESC] @ ''[1;1H'') = ''cleared''"

definition xml_path :: path where "xml_path = path_of ''/tmp/test.xml''"

text \<open>The reporter after a sequence of callbacks; none of those used here writes anything.\<close>

definition after_events :: "MachineEvent list \<Rightarrow> JunitReporter \<Rightarrow> JunitReporter" where
  "after_events es r = fold (\<lambda>e r. fst (junit_event (\<lambda>_. Inl []) e r Junit.ex_io)) es r"

definition test_junit_reporter_creation :: bool where
  "test_junit_reporter_creation \<longleftrightarrow> jr_cases (new_junit xml_path) = []"

definition test_junit_reporter_buffers_tests :: bool where
  "test_junit_reporter_buffers_tests \<longleftrightarrow>
     (let reporter = after_events
            [RunStart 2, TestStart ''test.py::test_foo'' ''test.py'', TestFinished ''test.py::test_foo'' ''pass'' 42 None,
             TestStart ''test.py::test_bar'' ''test.py'', TestFinished ''test.py::test_bar'' ''fail'' 100 (Some ''assertion failed'')]
            (new_junit xml_path) in
      length (jr_cases reporter) = 2 \<and> jc_name (jr_cases reporter ! 0) = ''test_foo'' \<and> jc_name (jr_cases reporter ! 1) = ''test_bar'' \<and>
      jc_failure (jr_cases reporter ! 0) = None \<and> jc_failure (jr_cases reporter ! 1) \<noteq> None)"

definition test_junit_classname_parsing :: bool where
  "test_junit_classname_parsing \<longleftrightarrow>
     (let reporter = after_events [RunStart 1, TestFinished ''path/to/test_module.py::test_func'' ''pass'' 10 None] (new_junit xml_path) in
      jc_classname (jr_cases reporter ! 0) = ''path.to.test_module'' \<and> jc_name (jr_cases reporter ! 0) = ''test_func'')"

definition test_junit_failure_strips_ansi :: bool where
  "test_junit_failure_strips_ansi \<longleftrightarrow>
     (let reporter = after_events [RunStart 1, TestFinished ''test.py::test_fail'' ''fail'' 50
            (Some ([ESC] @ ''[31mAssertionError'' @ [ESC] @ ''[0m: expected True''))] (new_junit xml_path) in
      case jc_failure (jr_cases reporter ! 0) of
        None \<Rightarrow> False
      | Some failure \<Rightarrow> jf_body failure = ''AssertionError: expected True'' \<and> \<not> contains_str (jf_body failure) [ESC])"

definition test_junit_on_error_stores_message :: bool where
  "test_junit_on_error_stores_message \<longleftrightarrow>
     jr_error_message (after_events [ErrorEvent ''Zygote crashed''] (new_junit xml_path)) = Some ''Zygote crashed''"

definition test_junit_run_start_clears_state :: bool where
  "test_junit_run_start_clears_state \<longleftrightarrow>
     (let reporter = after_events [TestFinished ''test.py::test_a'' ''pass'' 10 None, ErrorEvent ''some error'', RunStart 0] (new_junit xml_path) in
      jr_cases reporter = [] \<and> jr_error_message reporter = None)"

text \<open>That a sequence of callbacks does not panic: it has a result.\<close>

definition test_multi_reporter_empty :: bool where
  "test_multi_reporter_empty \<longleftrightarrow>
     run_events (on_event (\<lambda>_. Some []) (\<lambda>_. Inl []))
       [RunStart 10, TestStart ''test'' ''file.py'', TestFinished ''test'' ''pass'' 100 None, RunFinished 1 0 0 100, ErrorEvent ''error'']
       (MultiRep []) Junit.ex_io \<noteq> None"

lemma junit_tests_pass:
  "test_strip_ansi_codes" "test_strip_null_bytes" "test_strip_ansi_complex_escape_sequences" "test_strip_ansi_cursor_movement"
  "test_junit_reporter_creation" "test_junit_reporter_buffers_tests" "test_junit_classname_parsing" "test_junit_failure_strips_ansi"
  "test_junit_on_error_stores_message" "test_junit_run_start_clears_state"
  by code_simp+

lemma test_multi_reporter_empty_passes: "test_multi_reporter_empty"
  by (simp add: test_multi_reporter_empty_def)

section \<open>Lifecycle, signals and debugger\<close>

definition test_cleanup_guard_creation :: bool where
  "test_cleanup_guard_creation \<longleftrightarrow> length (get_worker_pids new_guard) = 0"

definition test_track_untrack_worker :: bool where
  "test_track_untrack_worker \<longleftrightarrow>
     (let guard = track_worker 5678 (track_worker 1234 new_guard) in
      length (get_worker_pids guard) = 2 \<and>
      (let guard' = untrack_worker 1234 guard in length (get_worker_pids guard') = 1 \<and> get_worker_pids guard' ! 0 = 5678))"

definition test_is_debugging_flag :: bool where
  "test_is_debugging_flag \<longleftrightarrow>
     \<not> fl_debugging initial_flags \<and> fl_debugging (flag_step (Debugging True) initial_flags)"

definition test_track_multiple_workers :: bool where
  "test_track_multiple_workers \<longleftrightarrow> length (get_worker_pids (fold track_worker (map int [0..<100]) new_guard)) = 100"

definition test_untrack_nonexistent_worker :: bool where
  "test_untrack_nonexistent_worker \<longleftrightarrow> length (get_worker_pids (untrack_worker 999 (track_worker 1 new_guard))) = 1"

definition test_shutdown_flag :: bool where
  "test_shutdown_flag \<longleftrightarrow>
     \<not> fl_shutdown initial_flags \<and> shutdown_requested (initial_flags\<lparr>fl_shutdown := True\<rparr>)"

definition test_terminal_mode_enum :: bool where
  "test_terminal_mode_enum \<longleftrightarrow> Raw \<noteq> Cooked"

definition test_debug_server_socket_path :: "nat \<Rightarrow> bool" where
  "test_debug_server_socket_path pid \<longleftrightarrow>
     (let expected_path = ''/tmp/tach_debug_'' @ show_nat pid @ ''.sock'' in
      starts_with expected_path ''/tmp/tach_debug_'' \<and> ends_with expected_path ''.sock'')"

lemma fold_track_worker: "length (cg_worker_pids (fold track_worker ps g)) = length (cg_worker_pids g) + length ps"
  by (induction ps arbitrary: g) (simp_all add: track_worker_def)

lemma lifecycle_tests_pass:
  "test_cleanup_guard_creation" "test_track_untrack_worker" "test_is_debugging_flag" "test_untrack_nonexistent_worker"
  "test_shutdown_flag" "test_terminal_mode_enum"
  by (simp_all add: test_cleanup_guard_creation_def test_track_untrack_worker_def test_is_debugging_flag_def
      test_untrack_nonexistent_worker_def test_shutdown_flag_def test_terminal_mode_enum_def
      get_worker_pids_def guard_defs initial_flags_def shutdown_requested_def Let_def)

lemma test_track_multiple_workers_passes: "test_track_multiple_workers"
  unfolding test_track_multiple_workers_def get_worker_pids_def fold_track_worker by (simp add: new_guard_def)

lemma test_debug_server_socket_path_passes: "test_debug_server_socket_path pid"
  using suffixI [of "''/tmp/tach_debug_'' @ show_nat pid @ ''.sock''" "''/tmp/tach_debug_'' @ show_nat pid" "''.sock''"]
  by (simp add: test_debug_server_socket_path_def starts_with_def ends_with_def Let_def)

section \<open>Watch mode\<close>

definition test_is_ignored_path :: bool where
  "test_is_ignored_path \<longleftrightarrow>
     is_ignored_path (path_of ''foo/__pycache__/bar.py'') \<and> is_ignored_path (path_of ''.git/hooks/pre-commit.py'') \<and>
     is_ignored_path (path_of ''.venv/lib/python3.10/site.py'') \<and> \<not> is_ignored_path (path_of ''tests/test_foo.py'') \<and>
     \<not> is_ignored_path (path_of ''src/models.py'')"

definition test_is_ignored_pytest_cache :: bool where
  "test_is_ignored_pytest_cache \<longleftrightarrow> is_ignored_path (path_of ''project/.pytest_cache/v/cache.py'')"

definition test_is_ignored_mypy_cache :: bool where
  "test_is_ignored_mypy_cache \<longleftrightarrow> is_ignored_path (path_of ''project/.mypy_cache/3.10/module.py'')"

definition test_is_ignored_venv_variations :: bool where
  "test_is_ignored_venv_variations \<longleftrightarrow>
     is_ignored_path (path_of ''/home/user/.venv/lib/site.py'') \<and> is_ignored_path (path_of ''/project/venv/bin/activate.py'') \<and>
     is_ignored_path (path_of ''/project/env/lib/python.py'')"

definition test_is_ignored_node_modules :: bool where
  "test_is_ignored_node_modules \<longleftrightarrow> is_ignored_path (path_of ''/project/node_modules/something.py'')"

definition test_not_ignored_normal_paths :: bool where
  "test_not_ignored_normal_paths \<longleftrightarrow>
     \<not> is_ignored_path (path_of ''tests/test_unit.py'') \<and> \<not> is_ignored_path (path_of ''src/app/models.py'') \<and>
     \<not> is_ignored_path (path_of ''conftest.py'') \<and> \<not> is_ignored_path (path_of ''test_integration.py'')"

definition test_collect_python_paths_filters_non_py :: bool where
  "test_collect_python_paths_filters_non_py \<longleftrightarrow>
     (let paths = collect_python_paths (map path_of [''test.py'', ''test.rs'', ''test.txt'', ''another.py'']) in
      length paths = 2 \<and> list_all (\<lambda>p. extension p = Some ''py'') paths)"

definition test_collect_python_paths_filters_ignored :: bool where
  "test_collect_python_paths_filters_ignored \<longleftrightarrow>
     (let paths = collect_python_paths (map path_of [''tests/test_good.py'', ''__pycache__/module.py'', ''.venv/site.py'']) in
      length paths = 1 \<and> paths ! 0 = path_of ''tests/test_good.py'')"

lemma watch_tests_pass:
  "test_is_ignored_path" "test_is_ignored_pytest_cache" "test_is_ignored_mypy_cache" "test_is_ignored_venv_variations"
  "test_is_ignored_node_modules" "test_not_ignored_normal_paths" "test_collect_python_paths_filters_non_py"
  "test_collect_python_paths_filters_ignored"
  by code_simp+

section \<open>Environment detection and configuration\<close>

text \<open>A file system in which the given directories were made, with all directories above them.\<close>

definition made_dirs :: "path list \<Rightarrow> path list" where
  "made_dirs ps = remdups (concat (map (\<lambda>p. map (\<lambda>n. take n p) [1..<Suc (length p)]) ps))"

definition fs_with_dirs :: "string option \<Rightarrow> path list \<Rightarrow> env_fs" where
  "fs_with_dirs virtual_env ps =
     (let dirs = made_dirs ps in
      \<lparr>ef_virtual_env = virtual_env, ef_exists = (\<lambda>p. List.member dirs p), ef_is_dir = (\<lambda>p. List.member dirs p),
       ef_read_dir = (\<lambda>p. if List.member dirs p then Some (filter (\<lambda>d. d \<noteq> [] \<and> butlast d = p) dirs) else None)\<rparr>)"

definition test_find_site_packages_with_venv :: "path \<Rightarrow> bool" where
  "test_find_site_packages_with_venv temp \<longleftrightarrow>
     (let venv = join temp [Normal ''.venv'']; site_packages = join venv (path_of ''lib/python3.12/site-packages'') in
      case find_site_packages (fs_with_dirs None [site_packages]) temp of
        None \<Rightarrow> False | Some result \<Rightarrow> suffix [Normal ''site-packages''] result)"

definition test_find_site_packages_no_venv :: "path \<Rightarrow> bool" where
  "test_find_site_packages_no_venv temp \<longleftrightarrow> find_site_packages (fs_with_dirs None [temp]) temp = None"

definition test_virtual_env_takes_priority :: "path \<Rightarrow> bool" where
  "test_virtual_env_takes_priority temp \<longleftrightarrow>
     (let local_venv = join temp (path_of ''.venv/lib/python3.11/site-packages''); external_venv = join temp [Normal ''external_venv''];
          external_site = join external_venv (path_of ''lib/python3.12/site-packages'') in
      case find_site_packages (fs_with_dirs (Some (path_text external_venv)) [local_venv, external_site]) temp of
        None \<Rightarrow> False | Some result_path \<Rightarrow> contains_str (path_text result_path) ''external_venv'')"

lemma environment_tests_pass:
  "test_find_site_packages_with_venv (path_of ''/tmp/t'')" "test_find_site_packages_no_venv (path_of ''/tmp/t'')"
  "test_virtual_env_takes_priority (path_of ''/tmp/t'')"
  by code_simp+

text \<open>Loading the variables of a configuration file whose content the parser reads as given; a directory
  with no other file.\<close>

definition load_env_in :: "(string \<Rightarrow> PyProject option) \<Rightarrow> string option \<Rightarrow> env_vars \<Rightarrow> env_vars option" where
  "load_env_in from_toml content env =
     (let temp_dir = path_of ''/tmp/t''; config_path = join temp_dir [Normal ''pyproject.toml''] in
      load_env_from_pyproject from_toml (\<lambda>p. p = config_path \<and> content \<noteq> None) (\<lambda>p. if p = config_path then content else None) temp_dir env)"

definition test_load_env_from_pyproject_sets_env_vars :: "(string \<Rightarrow> PyProject option) \<Rightarrow> string \<Rightarrow> bool" where
  "test_load_env_from_pyproject_sets_env_vars from_toml toml_content \<longleftrightarrow>
     (case load_env_in from_toml (Some toml_content) [] of
        None \<Rightarrow> False
      | Some env \<Rightarrow> hm_get env ''TEST_COVERAGE_VAR_1'' = Some ''value1'' \<and> hm_get env ''TEST_COVERAGE_VAR_2'' = Some ''value2'')"

definition test_load_env_nonexistent_file :: "(string \<Rightarrow> PyProject option) \<Rightarrow> bool" where
  "test_load_env_nonexistent_file from_toml \<longleftrightarrow> load_env_in from_toml None [] \<noteq> None"

definition test_load_env_no_tool_section :: "(string \<Rightarrow> PyProject option) \<Rightarrow> string \<Rightarrow> bool" where
  "test_load_env_no_tool_section from_toml toml_content \<longleftrightarrow> load_env_in from_toml (Some toml_content) [] \<noteq> None"

definition test_load_env_no_pytest_env_section :: "(string \<Rightarrow> PyProject option) \<Rightarrow> string \<Rightarrow> bool" where
  "test_load_env_no_pytest_env_section from_toml toml_content \<longleftrightarrow> load_env_in from_toml (Some toml_content) [] \<noteq> None"

lemma load_env_tests_pass:
  "from_toml c = Some \<lparr>pp_tool = Some \<lparr>tool_pytest_env = Some [(''TEST_COVERAGE_VAR_1'', ''value1''), (''TEST_COVERAGE_VAR_2'', ''value2'')]\<rparr>\<rparr> \<Longrightarrow>
     test_load_env_from_pyproject_sets_env_vars from_toml c"
  "test_load_env_nonexistent_file from_toml"
  "from_toml c = Some \<lparr>pp_tool = None\<rparr> \<Longrightarrow> test_load_env_no_tool_section from_toml c"
  "from_toml c = Some \<lparr>pp_tool = Some \<lparr>tool_pytest_env = None\<rparr>\<rparr> \<Longrightarrow> test_load_env_no_pytest_env_section from_toml c"
  by (simp_all add: test_load_env_from_pyproject_sets_env_vars_def test_load_env_nonexistent_file_def test_load_env_no_tool_section_def
      test_load_env_no_pytest_env_section_def load_env_in_def load_env_from_pyproject_def set_vars_eq var_ok_def Let_def)

end
