(* ===== verification/Conformance_Resolver.thy ===== *)
theory Conformance_Resolver
  imports Resolver
begin

text \<open>
  The unit and integration tests of the resolver as statements about the model: each definition is the
  conjunction of the assertions of the test of that name, and each lemma says whether the test passes on
  the model. All pass but one: the integration test of the order of fixtures expects a fixture of the
  project with the name of a builtin (\<^verbatim>\<open>cache\<close>) among the resolved ones, and resolution skips it.
\<close>

section \<open>Unit tests\<close>

definition make_test_fixture :: "string \<Rightarrow> string list \<Rightarrow> FixtureDefinition" where
  "make_test_fixture name deps = \<lparr>fd_name = name, fd_scope = Function, fd_dependencies = deps, fd_params = None, fd_class_scope = None\<rparr>"

definition make_test_case :: "string \<Rightarrow> string list \<Rightarrow> TestCase" where
  "make_test_case name deps =
     \<lparr>tc_name = name, tc_dependencies = deps, tc_is_async = False, tc_line_number = 1, tc_parametrized_args = []\<rparr>"

definition module_of :: "string \<Rightarrow> TestCase list \<Rightarrow> FixtureDefinition list \<Rightarrow> TestModule" where
  "module_of p ts fs = \<lparr>tm_path = path_of p, tm_tests = ts, tm_fixtures = fs\<rparr>"

definition resolved :: "DiscoveryResult \<Rightarrow> RunnableTest list \<times> ResolutionError list" where
  "resolved discovery = resolve_all (from_discovery discovery) discovery"

definition test_fixture_lookup_local_over_global :: bool where
  "test_fixture_lookup_local_over_global \<longleftrightarrow>
     (let registry = from_discovery \<lparr>dr_modules =
            [module_of ''conftest.py'' [] [make_test_fixture ''db'' []],
             module_of ''test_local.py'' [] [make_test_fixture ''db'' [''connection'']]]\<rparr> in
      (case lookup registry ''db'' (path_of ''test_local.py'') ''test_simple'' of
         None \<Rightarrow> False | Some (fixture, _) \<Rightarrow> fd_dependencies fixture \<noteq> []) \<and>
      (case lookup registry ''db'' (path_of ''test_other.py'') ''test_simple'' of
         None \<Rightarrow> False | Some (fixture, _) \<Rightarrow> fd_dependencies fixture = []))"

definition test_cycle_detection :: bool where
  "test_cycle_detection \<longleftrightarrow>
     (let (runnable, errors) = resolved \<lparr>dr_modules =
            [module_of ''conftest.py'' [] [make_test_fixture ''a'' [''b''], make_test_fixture ''b'' [''a'']],
             module_of ''test_cycle.py'' [make_test_case ''test_foo'' [''a'']] []]\<rparr> in
      runnable = [] \<and>
      (case errors of
         CyclicDependency _ cycle # _ \<Rightarrow> List.member cycle ''a'' \<and> List.member cycle ''b''
       | _ \<Rightarrow> False))"

definition unit_test_missing_fixture_error :: bool where
  "unit_test_missing_fixture_error \<longleftrightarrow>
     (let (runnable, errors) = resolved \<lparr>dr_modules =
            [module_of ''test_missing.py'' [make_test_case ''test_foo'' [''nonexistent'']] []]\<rparr> in
      runnable = [] \<and>
      (case errors of
         MissingFixture test fixture # _ \<Rightarrow> fixture = ''nonexistent'' \<and> test = ''test_foo''
       | _ \<Rightarrow> False))"

definition test_transitive_dependency_resolution :: bool where
  "test_transitive_dependency_resolution \<longleftrightarrow>
     (let (runnable, errors) = resolved \<lparr>dr_modules =
            [module_of ''conftest.py'' []
               [make_test_fixture ''base'' [], make_test_fixture ''connection'' [''base''], make_test_fixture ''db'' [''connection'']],
             module_of ''test_chain.py'' [make_test_case ''test_foo'' [''db'']] []]\<rparr> in
      errors = [] \<and> length runnable = 1 \<and>
      (let test = runnable ! 0 in
       length (rt_fixtures test) = 3 \<and> rf_name (rt_fixtures test ! 0) = ''base'' \<and>
       rf_name (rt_fixtures test ! 1) = ''connection'' \<and> rf_name (rt_fixtures test ! 2) = ''db''))"

definition test_is_builtin_fixture_common :: bool where
  "test_is_builtin_fixture_common \<longleftrightarrow>
     is_builtin_fixture ''monkeypatch'' \<and> is_builtin_fixture ''tmp_path'' \<and> is_builtin_fixture ''tmp_path_factory'' \<and>
     is_builtin_fixture ''capsys'' \<and> is_builtin_fixture ''capfd'' \<and> is_builtin_fixture ''request''"

definition test_is_builtin_fixture_all :: bool where
  "test_is_builtin_fixture_all \<longleftrightarrow> list_all is_builtin_fixture PYTEST_BUILTINS"

definition test_is_builtin_fixture_negative :: bool where
  "test_is_builtin_fixture_negative \<longleftrightarrow>
     \<not> is_builtin_fixture ''my_custom_fixture'' \<and> \<not> is_builtin_fixture ''db'' \<and> \<not> is_builtin_fixture ''mock_page''"

definition test_builtin_fixture_resolves_without_error :: bool where
  "test_builtin_fixture_resolves_without_error \<longleftrightarrow>
     (let (runnable, errors) = resolved \<lparr>dr_modules =
            [module_of ''test_builtins.py''
               [make_test_case ''test_with_monkeypatch'' [''monkeypatch''], make_test_case ''test_with_tmp_path'' [''tmp_path''],
                make_test_case ''test_with_capsys'' [''capsys''], make_test_case ''test_with_request'' [''request'']] []]\<rparr> in
      errors = [] \<and> length runnable = 4)"

definition test_mixed_builtin_and_user_fixtures :: bool where
  "test_mixed_builtin_and_user_fixtures \<longleftrightarrow>
     (let (runnable, errors) = resolved \<lparr>dr_modules =
            [module_of ''conftest.py'' [] [make_test_fixture ''db'' []],
             module_of ''test_mixed.py'' [make_test_case ''test_db_with_tmp'' [''db'', ''tmp_path'']] []]\<rparr> in
      errors = [] \<and> length runnable = 1 \<and> length (rt_fixtures (runnable ! 0)) = 1 \<and>
      rf_name (rt_fixtures (runnable ! 0) ! 0) = ''db'')"

section \<open>Integration tests\<close>

definition create_test_discovery :: DiscoveryResult where
  "create_test_discovery = \<lparr>dr_modules =
     [module_of ''conftest.py'' []
        [\<lparr>fd_name = ''db'', fd_scope = Module, fd_dependencies = [], fd_params = None, fd_class_scope = None\<rparr>,
         \<lparr>fd_name = ''cache'', fd_scope = Function, fd_dependencies = [''db''], fd_params = None, fd_class_scope = None\<rparr>,
         \<lparr>fd_name = ''client'', fd_scope = Function, fd_dependencies = [''db'', ''cache''], fd_params = None, fd_class_scope = None\<rparr>],
      module_of ''tests/test_example.py''
        [\<lparr>tc_name = ''test_simple'', tc_dependencies = [], tc_is_async = False, tc_line_number = 1, tc_parametrized_args = []\<rparr>,
         \<lparr>tc_name = ''test_with_db'', tc_dependencies = [''db''], tc_is_async = False, tc_line_number = 1, tc_parametrized_args = []\<rparr>,
         \<lparr>tc_name = ''test_with_client'', tc_dependencies = [''client''], tc_is_async = True, tc_line_number = 1, tc_parametrized_args = []\<rparr>]
        []]\<rparr>"

definition find_test :: "string \<Rightarrow> RunnableTest list \<Rightarrow> RunnableTest option" where
  "find_test name tests = find (\<lambda>t. rt_test_name t = name) tests"

definition test_fixture_registry_creation :: bool where
  "test_fixture_registry_creation \<longleftrightarrow>
     (let (tests, errors) = resolved create_test_discovery in length tests = 3 \<and> errors = [])"

definition test_resolve_test_with_dependencies :: bool where
  "test_resolve_test_with_dependencies \<longleftrightarrow>
     (case find_test ''test_with_client'' (fst (resolved create_test_discovery)) of
        None \<Rightarrow> False | Some t \<Rightarrow> rt_fixtures t \<noteq> [])"

definition test_resolve_test_without_dependencies :: bool where
  "test_resolve_test_without_dependencies \<longleftrightarrow>
     (case find_test ''test_simple'' (fst (resolved create_test_discovery)) of None \<Rightarrow> False | Some t \<Rightarrow> rt_fixtures t = [])"

definition test_missing_fixture_error :: bool where
  "test_missing_fixture_error \<longleftrightarrow>
     (let (tests, errors) = resolved \<lparr>dr_modules =
            [module_of ''test.py'' [make_test_case ''test_with_missing'' [''nonexistent_fixture'']] []]\<rparr> in
      length errors = 1 \<and> (case errors ! 0 of MissingFixture _ _ \<Rightarrow> True | _ \<Rightarrow> False) \<and> tests = [])"

definition test_cyclic_dependency_error :: bool where
  "test_cyclic_dependency_error \<longleftrightarrow>
     (let (tests, errors) = resolved \<lparr>dr_modules =
            [module_of ''conftest.py'' [make_test_case ''test_cyclic'' [''fixture_a'']]
               [make_test_fixture ''fixture_a'' [''fixture_b''], make_test_fixture ''fixture_b'' [''fixture_a'']]]\<rparr> in
      length errors = 1 \<and> (case errors ! 0 of CyclicDependency _ _ \<Rightarrow> True | _ \<Rightarrow> False) \<and> tests = [])"

definition test_empty_discovery :: bool where
  "test_empty_discovery \<longleftrightarrow> (let (tests, errors) = resolved \<lparr>dr_modules = []\<rparr> in tests = [] \<and> errors = [])"

definition test_async_flag_preserved :: bool where
  "test_async_flag_preserved \<longleftrightarrow>
     (let tests = fst (resolved create_test_discovery) in
      (case find_test ''test_with_client'' tests of None \<Rightarrow> False | Some t \<Rightarrow> rt_is_async t) \<and>
      (case find_test ''test_simple'' tests of None \<Rightarrow> False | Some t \<Rightarrow> \<not> rt_is_async t))"

text \<open>\<^verbatim>\<open>position\<close>: the index of the first element with the property.\<close>

fun position :: "('a \<Rightarrow> bool) \<Rightarrow> 'a list \<Rightarrow> nat option" where
  "position P [] = None"
| "position P (x # xs) = (if P x then Some 0 else map_option Suc (position P xs))"

definition test_fixture_order_is_topological :: bool where
  "test_fixture_order_is_topological \<longleftrightarrow>
     (case find_test ''test_with_client'' (fst (resolved create_test_discovery)) of
        None \<Rightarrow> False
      | Some t \<Rightarrow>
        (let fixture_names = map rf_name (rt_fixtures t); pos = (\<lambda>n. position (\<lambda>m. m = n) fixture_names) in
         case (pos ''db'', pos ''cache'', pos ''client'') of
           (Some db_pos, Some cache_pos, Some client_pos) \<Rightarrow> db_pos < cache_pos \<and> cache_pos < client_pos
         | _ \<Rightarrow> False))"

section \<open>Results\<close>

lemma resolver_unit_tests_pass:
  "test_fixture_lookup_local_over_global" "test_cycle_detection" "unit_test_missing_fixture_error"
  "test_transitive_dependency_resolution" "test_is_builtin_fixture_common" "test_is_builtin_fixture_all"
  "test_is_builtin_fixture_negative" "test_builtin_fixture_resolves_without_error" "test_mixed_builtin_and_user_fixtures"
  by code_simp+

lemma resolver_integration_tests_pass:
  "test_fixture_registry_creation" "test_resolve_test_with_dependencies" "test_resolve_test_without_dependencies"
  "test_missing_fixture_error" "test_cyclic_dependency_error" "test_empty_discovery" "test_async_flag_preserved"
  by code_simp+

lemma test_fixture_order_is_topological_fails: "\<not> test_fixture_order_is_topological"
  by code_simp

text \<open>The reason in general: a fixture with the name of a builtin is never resolved, whether or not the project
  defines it, and nor are the fixtures only it depends on.\<close>

lemma builtin_name_never_resolved:
  assumes "resolve_test reg test mp = Inr rt" and "is_builtin_fixture n"
  shows "n \<notin> rf_name ` set (rt_fixtures rt)"
proof (rule resolve_test_InrE [OF assms(1)])
  fix st
  assume "search_inv reg mp (tc_name test) st"
    and "rt = \<lparr>rt_file_path = mp, rt_test_name = tc_name test, rt_is_async = tc_is_async test, rt_fixtures = st_resolved st\<rparr>"
  with assms(2) show ?thesis by (auto simp: search_inv_def list_all_iff entry_ok_def)
qed

end
