(* ===== verification/Conformance_Snapshot.thy ===== *)
theory Conformance_Snapshot
  imports Snapshot
begin

text \<open>
  The unit and integration tests of the snapshots as statements about the model: each definition is the
  conjunction of the assertions of the test of that name, and each lemma says that the test passes. A test
  that reads the memory maps of its own process takes their text as an argument, and the lemma says which
  text makes it pass. A test of the integration suite that repeats a unit test has the prefix \<open>integration\<close>.
\<close>

section \<open>Memory maps\<close>

definition region_at :: "addr \<Rightarrow> addr \<Rightarrow> string \<Rightarrow> string \<Rightarrow> MemoryRegion" where
  "region_at start end perms name =
     \<lparr>mr_start = start, mr_end = end, mr_len = 0x1000, mr_perms = perms, mr_name = name\<rparr>"

definition test_parse_self_maps :: "string option \<Rightarrow> bool" where
  "test_parse_self_maps maps \<longleftrightarrow>
     (case parse_memory_maps maps of
        None \<Rightarrow> False
      | Some regions \<Rightarrow> regions \<noteq> [] \<and> list_ex (\<lambda>r. contains_str (mr_name r) ''[stack]'') regions)"

definition test_parse_self_maps_has_readable_regions :: "string option \<Rightarrow> bool" where
  "test_parse_self_maps_has_readable_regions maps \<longleftrightarrow>
     (case parse_memory_maps maps of
        None \<Rightarrow> False
      | Some regions \<Rightarrow> length (filter (\<lambda>r. contains_str (mr_perms r) ''r'') regions) > 0)"

definition test_region_filtering_heap :: bool where
  "test_region_filtering_heap \<longleftrightarrow>
     (let heap = region_at 0x1000 0x2000 ''rw-p'' ''[heap]'' in should_snapshot heap \<and> \<not> is_stack heap)"

definition test_region_filtering_stack :: bool where
  "test_region_filtering_stack \<longleftrightarrow>
     (let stack = region_at 0x3000 0x4000 ''rw-p'' ''[stack]'' in should_snapshot stack \<and> is_stack stack)"

definition test_region_filtering_vdso_excluded :: bool where
  "test_region_filtering_vdso_excluded \<longleftrightarrow> \<not> should_snapshot (region_at 0x5000 0x6000 ''r-xp'' ''[vdso]'')"

definition test_region_filtering_vsyscall_excluded :: bool where
  "test_region_filtering_vsyscall_excluded \<longleftrightarrow> \<not> should_snapshot (region_at 0x7000 0x8000 ''r-xp'' ''[vsyscall]'')"

definition test_region_filtering_readonly_excluded :: bool where
  "test_region_filtering_readonly_excluded \<longleftrightarrow> \<not> should_snapshot (region_at 0x9000 0xa000 ''r--p'' ''/lib/libc.so'')"

definition test_region_filtering_anonymous_included :: bool where
  "test_region_filtering_anonymous_included \<longleftrightarrow> should_snapshot (region_at 0xb000 0xc000 ''rw-p'' [])"

definition test_region_filtering_libpython_included :: bool where
  "test_region_filtering_libpython_included \<longleftrightarrow>
     should_snapshot (region_at 0xd000 0xe000 ''rw-p'' ''/usr/lib/libpython3.12.so'')"

definition test_parse_own_memory_maps :: "string option \<Rightarrow> bool" where
  "test_parse_own_memory_maps maps \<longleftrightarrow>
     (case parse_memory_maps maps of
        None \<Rightarrow> False
      | Some regions \<Rightarrow> regions \<noteq> [] \<and> list_ex is_stack regions \<and> filter should_snapshot regions \<noteq> [])"

definition test_memory_region_should_snapshot :: bool where
  "test_memory_region_should_snapshot \<longleftrightarrow>
     should_snapshot (region_at 0x1000 0x2000 ''rw-p'' ''[heap]'') \<and>
     \<not> should_snapshot (region_at 0x3000 0x4000 ''r--p'' ''/lib/libc.so'')"

definition test_memory_region_is_stack :: bool where
  "test_memory_region_is_stack \<longleftrightarrow>
     is_stack (region_at 0x5000 0x6000 ''rw-p'' ''[stack]'') \<and> \<not> is_stack (region_at 0x7000 0x8000 ''rw-p'' ''[heap]'')"

lemma region_tests_pass:
  "test_region_filtering_heap" "test_region_filtering_stack" "test_region_filtering_vdso_excluded"
  "test_region_filtering_vsyscall_excluded" "test_region_filtering_readonly_excluded"
  "test_region_filtering_anonymous_included" "test_region_filtering_libpython_included"
  "test_memory_region_should_snapshot" "test_memory_region_is_stack"
  by code_simp+

text \<open>The tests of the maps pass for every text with a line that has the form the kernel gives to a
  readable and writable stack.\<close>

lemma map_tests_pass:
  assumes line: "map_line a b ''rw-p'' mid [''[stack]''] \<in> set (str_lines text)"
    and mid: "list_all word_ok mid" "length mid = 3"
  shows "test_parse_self_maps (Some text)" and "test_parse_self_maps_has_readable_regions (Some text)"
    and "test_parse_own_memory_maps (Some text)"
proof -
  obtain r where r: "parse_map_line (map_line a b ''rw-p'' mid [''[stack]'']) = Some r"
    and p: "mr_perms r = ''rw-p''" "mr_name r = ''[stack]''"
    using parse_map_line_ok [of "''rw-p''" mid "[''[stack]'']" a b] mid
    by (auto simp: word_ok_def graph_def)
  then have mem: "r \<in> set (List.map_filter parse_map_line (str_lines text))"
    using line by (auto simp: in_map_filter)
  have s: "contains_str ''[stack]'' ''[stack]''" "contains_str ''rw-p'' ''r''" by code_simp+
  have f: "should_snapshot r" using p unfolding should_snapshot_def p by code_simp
  have stack: "list_ex (\<lambda>r. contains_str (mr_name r) ''[stack]'') (List.map_filter parse_map_line (str_lines text))"
    using mem s(1) p(2) unfolding list_ex_iff by force
  have readable: "filter (\<lambda>r. contains_str (mr_perms r) ''r'') (List.map_filter parse_map_line (str_lines text)) \<noteq> []"
    using mem s(2) p(1) unfolding filter_empty_conv by force
  have writable: "filter should_snapshot (List.map_filter parse_map_line (str_lines text)) \<noteq> []"
    using mem f unfolding filter_empty_conv by blast
  show "test_parse_self_maps (Some text)" "test_parse_self_maps_has_readable_regions (Some text)"
    "test_parse_own_memory_maps (Some text)"
    using mem stack readable writable
    by (auto simp: test_parse_self_maps_def test_parse_self_maps_has_readable_regions_def test_parse_own_memory_maps_def
        parse_memory_maps_def is_stack_def [abs_def])
qed

section \<open>Page alignment\<close>

definition test_page_alignment_already_aligned :: bool where
  "test_page_alignment_already_aligned \<longleftrightarrow>
     align_to_page 0x1000 = 0x1000 \<and> align_to_page 0x2000 = 0x2000 \<and> align_to_page 0x0 = 0x0"

definition test_page_alignment_unaligned :: bool where
  "test_page_alignment_unaligned \<longleftrightarrow>
     align_to_page 0x1001 = 0x1000 \<and> align_to_page 0x1fff = 0x1000 \<and> align_to_page 0x2345 = 0x2000"

definition test_page_alignment_large_addresses :: bool where
  "test_page_alignment_large_addresses \<longleftrightarrow>
     align_to_page 0x7f1234560000 = 0x7f1234560000 \<and> align_to_page 0x7f1234560abc = 0x7f1234560000 \<and>
     align_to_page 0x7f1234560fff = 0x7f1234560000"

lemma alignment_tests_pass:
  "test_page_alignment_already_aligned" "test_page_alignment_unaligned" "test_page_alignment_large_addresses"
  by (simp_all add: test_page_alignment_already_aligned_def test_page_alignment_unaligned_def
      test_page_alignment_large_addresses_def align_to_page_def PAGE_SIZE_def)

section \<open>The manager\<close>

text \<open>Whether the kernel offers userfaultfd is an argument: the tests pass either way.\<close>

definition test_snapshot_manager_no_workers_initially :: "bool \<Rightarrow> bool" where
  "test_snapshot_manager_no_workers_initially uffd_ok \<longleftrightarrow> worker_pids (new_manager uffd_ok) = []"

definition test_snapshot_manager_get_nonexistent_worker :: "bool \<Rightarrow> bool" where
  "test_snapshot_manager_get_nonexistent_worker uffd_ok \<longleftrightarrow> get_worker_uffd (new_manager uffd_ok) 99999 = None"

definition integration_snapshot_manager_empty :: "bool \<Rightarrow> bool" where
  "integration_snapshot_manager_empty uffd_ok \<longleftrightarrow> worker_pids (new_manager uffd_ok) = []"

definition integration_get_worker_uffd_nonexistent :: "bool \<Rightarrow> bool" where
  "integration_get_worker_uffd_nonexistent uffd_ok \<longleftrightarrow> get_worker_uffd (new_manager uffd_ok) 99999 = None"

definition test_remove_nonexistent_worker :: "bool \<Rightarrow> bool" where
  "test_remove_nonexistent_worker uffd_ok \<longleftrightarrow> worker_pids (remove_worker 99999 (new_manager uffd_ok)) = []"

definition test_pid_bytes_roundtrip :: bool where
  "test_pid_bytes_roundtrip \<longleftrightarrow> u32_from_le (u32_to_le 12345) = 12345"

definition test_negative_pid_roundtrip :: bool where
  "test_negative_pid_roundtrip \<longleftrightarrow> u32_from_le (u32_to_le (- 1)) = - 1"

lemma manager_tests_pass:
  "test_snapshot_manager_no_workers_initially u" "test_snapshot_manager_get_nonexistent_worker u"
  "integration_snapshot_manager_empty u" "integration_get_worker_uffd_nonexistent u" "test_remove_nonexistent_worker u"
  by (simp_all add: test_snapshot_manager_no_workers_initially_def test_snapshot_manager_get_nonexistent_worker_def
      integration_snapshot_manager_empty_def integration_get_worker_uffd_nonexistent_def test_remove_nonexistent_worker_def
      worker_pids_def new_manager_def get_worker_uffd_def remove_worker_def)

lemma pid_tests_pass: "test_pid_bytes_roundtrip" "test_negative_pid_roundtrip"
  by (simp_all add: test_pid_bytes_roundtrip_def test_negative_pid_roundtrip_def)

section \<open>The physics check\<close>

text \<open>The worker passes its descriptor with its process id.\<close>

definition test_scm_rights_fd_passing :: "u32 \<Rightarrow> int \<Rightarrow> bool" where
  "test_scm_rights_fd_passing my_pid dummy_fd \<longleftrightarrow>
     (case recv_fd (Some (send_fd my_pid dummy_fd)) of Inl _ \<Rightarrow> False | Inr (received_pid, received_fd) \<Rightarrow> received_fd \<ge> 0)"

lemma test_scm_rights_fd_passing_passes: "0 \<le> fd \<Longrightarrow> test_scm_rights_fd_passing pid fd"
  by (simp add: test_scm_rights_fd_passing_def recv_fd_def send_fd_def)

text \<open>The four bytes of an \<^verbatim>\<open>i32\<close> in memory, and the exit status of the worker for the value it reads.\<close>

definition i32_at :: "(addr \<Rightarrow> u8) \<Rightarrow> addr \<Rightarrow> u32" where
  "i32_at mem a = u32_from_le (mem_range mem a 4)"

definition physics_exit :: "u32 \<Rightarrow> nat" where
  "physics_exit value = (if value = 1 then 0 else if value = 999 then 2 else 3)"

text \<open>The scenario in the order the two processes synchronise in: the worker stops with its data in memory and
  is captured, then writes, drops the page of its data, and reads the value again, which is the fault the
  supervisor handles before the worker goes on. \<^const>\<open>None\<close> is a check that is skipped.\<close>

definition physics_check_memory_reset :: "bool \<Rightarrow> int \<Rightarrow> int \<Rightarrow> process \<Rightarrow> addr \<Rightarrow> nat option" where
  "physics_check_memory_reset uffd_ok pid uffd p data_ptr =
     (let snapshot_mgr = new_manager uffd_ok in
      if \<not> sm_available snapshot_mgr then None
      else case register_worker_with_uffd pid uffd p snapshot_mgr of
             Inl _ \<Rightarrow> None
           | Inr m \<Rightarrow>
             (let mutated = mem_write data_ptr (u32_to_le 999) (pr_mem p);
                  page_addr = align_to_page data_ptr;
                  p1 = p\<lparr>pr_mem := mem_drop [(page_addr, 4096)] mutated, pr_events := [Event (Pagefault data_ptr)]\<rparr>;
                  (_, p2) = handle_pending_faults pid p1 m
              in Some (physics_exit (i32_at (pr_mem p2) data_ptr))))"

lemma same_page:
  assumes "unat a mod PAGE_SIZE + n < PAGE_SIZE" shows "align_to_page (a + of_nat n) = align_to_page a"
proof (rule align_of_offset)
  have "a - align_to_page a = take_bit 12 a" by (simp add: align_to_page_sub)
  then have d: "unat (a - align_to_page a) = unat a mod PAGE_SIZE" by (simp add: take_bit_eq_mod unat_mod PAGE_SIZE_def)
  have "unat (a + of_nat n - align_to_page a) = unat ((a - align_to_page a) + of_nat n)" by (simp add: algebra_simps)
  also have "\<dots> \<le> unat (a - align_to_page a) + unat (of_nat n :: addr)" by (simp add: unat_word_ariths)
  also have "unat (of_nat n :: addr) \<le> n" by (simp add: unat_of_nat take_bit_eq_mod)
  finally show "unat (a + of_nat n - align_to_page a) < PAGE_SIZE" using assms d by linarith
qed

text \<open>The check ends with status 0 when the data is the golden value at the capture, its page lies in a captured
  region, and the kernel lets the supervisor fill the page.\<close>

lemma physics_check_passes:
  assumes reg: "register_worker_with_uffd pid uffd p (new_manager True) = Inr m"
    and maps: "parse_memory_maps (pr_maps p) = Some regions" "list_all region_ok (filter should_snapshot regions)"
    and region: "r \<in> set regions" "should_snapshot r" "in_region r data_ptr"
    and data: "i32_at (pr_mem p) data_ptr = 1" "unat data_ptr mod PAGE_SIZE + 4 \<le> PAGE_SIZE"
    and fill: "pr_fill_ok p (align_to_page data_ptr)"
  shows "physics_check_memory_reset True pid uffd p data_ptr = Some 0"
proof -
  let ?rs = "filter should_snapshot regions"
  have av: "sm_available (new_manager True)" by (simp add: new_manager_def)
  obtain w where w: "hm_get (sm_workers m) pid = Some w" and g: "golden_ok (pr_mem p) ?rs w"
    by (rule register_golden [OF reg av maps])
  let ?p1 = "p\<lparr>pr_mem := mem_drop [(align_to_page data_ptr, 4096)] (mem_write data_ptr (u32_to_le 999) (pr_mem p)),
      pr_events := [Event (Pagefault data_ptr)]\<rparr>"
  obtain p2 where p2: "handle_pending_faults pid ?p1 m = (Inr 1, p2)"
    and mem: "pr_mem p2 = (\<lambda>b. if align_to_page b = align_to_page data_ptr then golden_byte (pr_mem p) ?rs b else pr_mem ?p1 b)"
    using fault_loop_golden [OF g, of "[data_ptr]" ?p1 0] fill w by (auto simp: handle_pending_faults_def)
  have "list_ex (\<lambda>r. page_in r (align_to_page data_ptr)) ?rs"
    using region maps(2) page_in_align by (auto simp: list_ex_iff list_all_iff)
  then have "pr_mem p2 (data_ptr + of_nat i) = pr_mem p (data_ptr + of_nat i)" if "i < 4" for i
    using same_page [of data_ptr i] that data(2) unfolding mem golden_byte_def by simp
  then have "mem_range (pr_mem p2) data_ptr 4 = mem_range (pr_mem p) data_ptr 4" by (simp add: mem_range_def)
  then have "i32_at (pr_mem p2) data_ptr = 1" using data(1) by (simp add: i32_at_def)
  with reg p2 av show ?thesis
    by (simp add: physics_check_memory_reset_def physics_exit_def Let_def)
qed

end
