(* ===== verification/Conformance_Loader.thy ===== *)
theory Conformance_Loader
  imports Loader "HOL-Library.Multiset"
begin

text \<open>
  The unit and integration tests of the bytecode loader as statements about the model: each definition is
  the conjunction of the assertions of the test of that name, and each lemma says under which assumptions on
  the installed Python it passes. The temporary directory of a test is an argument, and a test starts in a
  world with no files. Tests that only ask whether Python compiles a given text are left out. A test of
  the integration suite that repeats a unit test has the prefix \<open>integration\<close>.
\<close>

section \<open>The world of the tests\<close>

definition no_files :: lworld where
  "no_files = \<lparr>lw_files = (\<lambda>_. None), lw_mkdir_ok = (\<lambda>_. True), lw_pyo3_python = None\<rparr>"

definition no_globals :: lglobals where
  "no_globals = \<lparr>g_registry = None, g_python_exe = None, g_magic = None\<rparr>"

text \<open>\<^verbatim>\<open>fs::write\<close> at a time, and a time after a file was written.\<close>

definition put_file :: "path \<Rightarrow> string \<Rightarrow> nat \<Rightarrow> lworld \<Rightarrow> lworld" where
  "put_file p content t w = w\<lparr>lw_files := (lw_files w)(p \<mapsto> \<lparr>lf_data = bytes_of content, lf_mtime = t\<rparr>)\<rparr>"

definition time_after :: "lworld \<Rightarrow> path \<Rightarrow> nat" where
  "time_after w p = (case lw_files w p of None \<Rightarrow> 1 | Some f \<Rightarrow> Suc (lf_mtime f))"

definition create_test_module :: "path \<Rightarrow> string \<Rightarrow> string \<Rightarrow> lworld \<Rightarrow> path \<times> lworld" where
  "create_test_module dir name content w =
     (let p = join dir (path_of (name @ ''.py'')) in (p, put_file p content 1 w))"

text \<open>\<^verbatim>\<open>BytecodeCompiler::new(temp.path()).unwrap()\<close>.\<close>

definition compiler_in :: "run \<Rightarrow> path \<Rightarrow> (BytecodeCompiler \<times> lworld) option" where
  "compiler_in run temp =
     (case new_compiler run temp no_globals no_files of (Inr c, _, w) \<Rightarrow> Some (c, w) | (Inl _, _, _) \<Rightarrow> None)"

definition with_compiler :: "run \<Rightarrow> path \<Rightarrow> (BytecodeCompiler \<Rightarrow> lworld \<Rightarrow> bool) \<Rightarrow> bool" where
  "with_compiler run temp body \<longleftrightarrow> (case compiler_in run temp of None \<Rightarrow> False | Some (c, w) \<Rightarrow> body c w)"

section \<open>Names and cache paths\<close>

definition test_path_to_module_name :: "run \<Rightarrow> path \<Rightarrow> bool" where
  "test_path_to_module_name run temp \<longleftrightarrow> with_compiler run temp (\<lambda>c _.
     path_to_module_name c (join temp (path_of ''foo.py'')) = ''foo'' \<and>
     path_to_module_name c (join (join temp (path_of ''foo'')) (path_of ''bar.py'')) = ''foo.bar'' \<and>
     path_to_module_name c (join (join temp (path_of ''foo'')) (path_of ''__init__.py'')) = ''foo'')"

definition test_cache_path :: "run \<Rightarrow> path \<Rightarrow> bool" where
  "test_cache_path run temp \<longleftrightarrow> with_compiler run temp (\<lambda>c _.
     let cache = cache_path c (join (join temp (path_of ''foo'')) (path_of ''bar.py'')) in
     contains_str (path_text cache) ''.tach'' \<and> ends_with (path_text cache) ''.pyc'')"

definition test_cache_path_various_structures :: "run \<Rightarrow> path \<Rightarrow> bool" where
  "test_cache_path_various_structures run temp \<longleftrightarrow> with_compiler run temp (\<lambda>c _.
     let cache1 = cache_path c (join temp (path_of ''simple.py''));
         cache2 = cache_path c (join (join (join temp (path_of ''a'')) (path_of ''b'')) (path_of ''c.py'')) in
     ends_with (path_text cache1) ''.pyc'' \<and> ends_with (path_text cache2) ''.pyc'' \<and> contains_str (path_text cache2) ''_'')"

definition test_path_to_module_name_edge_cases :: "run \<Rightarrow> path \<Rightarrow> bool" where
  "test_path_to_module_name_edge_cases run temp \<longleftrightarrow> with_compiler run temp (\<lambda>c _.
     contains_str (path_to_module_name c (join temp (path_of ''_private.py''))) ''_private'' \<and>
     contains_str (path_to_module_name c (join temp (path_of ''__dunder__.py''))) ''__dunder__'' \<and>
     path_to_module_name c (join (join (join (join temp (path_of ''a'')) (path_of ''b'')) (path_of ''c''))
       (path_of ''__init__.py'')) = ''a.b.c'')"

section \<open>The registry\<close>

definition test_registry_operations :: "path \<Rightarrow> bool" where
  "test_registry_operations temp \<longleftrightarrow>
     (let registry = registry_insert \<lparr>be_name = ''foo.bar'', be_source_path = join temp (path_of ''foo/bar.py''),
            be_bytecode = [1, 2, 3], be_is_package = False\<rparr> (new_registry temp) in
      get_bytecode registry ''foo.bar'' \<noteq> None \<and> get_bytecode registry ''nonexistent'' = None \<and> registry_len registry = 1)"

definition test_registry_is_package_nonexistent :: "path \<Rightarrow> bool" where
  "test_registry_is_package_nonexistent temp \<longleftrightarrow> is_package (new_registry temp) ''nonexistent'' = None"

definition test_registry_get_source_path_nonexistent :: "path \<Rightarrow> bool" where
  "test_registry_get_source_path_nonexistent temp \<longleftrightarrow> get_source_path (new_registry temp) ''nonexistent'' = None"

definition test_registry_module_name_lookup :: "path \<Rightarrow> bool" where
  "test_registry_module_name_lookup temp \<longleftrightarrow>
     (let registry =
            registry_insert \<lparr>be_name = ''mypackage.submodule'', be_source_path = join temp (path_of ''mypackage/submodule.py''),
              be_bytecode = [0xe3, 4, 5, 6], be_is_package = False\<rparr>
            (registry_insert \<lparr>be_name = ''mypackage'', be_source_path = join temp (path_of ''mypackage/__init__.py''),
              be_bytecode = [0xe3, 1, 2, 3], be_is_package = True\<rparr> (new_registry temp)) in
      get_bytecode registry ''mypackage'' \<noteq> None \<and> get_bytecode registry ''mypackage.submodule'' \<noteq> None \<and>
      get_bytecode registry ''nonexistent'' = None \<and>
      is_package registry ''mypackage'' = Some True \<and> is_package registry ''mypackage.submodule'' = Some False)"

text \<open>Ten threads insert one module each; the lock makes their insertions a sequence in some order.\<close>

definition numbered_entry :: "path \<Rightarrow> nat \<Rightarrow> BytecodeEntry" where
  "numbered_entry temp i = \<lparr>be_name = ''module_'' @ show_nat i, be_source_path = join temp (path_of (''module_'' @ show_nat i @ ''.py'')),
     be_bytecode = [0xe3, of_nat i], be_is_package = False\<rparr>"

definition test_registry_concurrent_insert :: "path \<Rightarrow> nat list \<Rightarrow> bool" where
  "test_registry_concurrent_insert temp order \<longleftrightarrow>
     (let registry = fold (\<lambda>i. registry_insert (numbered_entry temp i)) order (new_registry temp) in
      registry_len registry = 10 \<and> list_all (\<lambda>i. get_bytecode registry (''module_'' @ show_nat i) \<noteq> None) [0..<10])"

definition test_registry_source_path_retrieval :: "path \<Rightarrow> bool" where
  "test_registry_source_path_retrieval temp \<longleftrightarrow>
     (let expected_path = join temp (path_of ''mymodule.py'');
          registry = registry_insert \<lparr>be_name = ''mymodule'', be_source_path = expected_path, be_bytecode = [1, 2, 3],
            be_is_package = False\<rparr> (new_registry temp) in
      get_source_path registry ''mymodule'' = Some expected_path)"

definition test_registry_empty_and_len :: "path \<Rightarrow> bool" where
  "test_registry_empty_and_len temp \<longleftrightarrow>
     (let empty = new_registry temp;
          registry = registry_insert \<lparr>be_name = ''test'', be_source_path = join temp (path_of ''test.py''), be_bytecode = [1],
            be_is_package = False\<rparr> empty in
      registry_is_empty empty \<and> registry_len empty = 0 \<and> \<not> registry_is_empty registry \<and> registry_len registry = 1)"

lemma registry_tests_pass:
  "test_registry_operations temp" "test_registry_is_package_nonexistent temp" "test_registry_get_source_path_nonexistent temp"
  "test_registry_module_name_lookup temp" "test_registry_source_path_retrieval temp" "test_registry_empty_and_len temp"
  by (simp_all add: test_registry_operations_def test_registry_is_package_nonexistent_def test_registry_get_source_path_nonexistent_def
      test_registry_module_name_lookup_def test_registry_source_path_retrieval_def test_registry_empty_and_len_def
      registry_insert_def new_registry_def get_bytecode_def get_source_path_def is_package_def registry_len_def
      registry_is_empty_def hm_get_insert Let_def)

lemma fold_numbered_entries:
  assumes "hm_ok (reg_entries r)"
  shows "hm_ok (reg_entries (fold (\<lambda>i. registry_insert (numbered_entry temp i)) order r)) \<and>
     dom (hm_get (reg_entries (fold (\<lambda>i. registry_insert (numbered_entry temp i)) order r))) =
     (\<lambda>i. ''module_'' @ show_nat i) ` set order \<union> dom (hm_get (reg_entries r))"
  using assms
proof (induction order arbitrary: r)
  case (Cons i ns)
  have "hm_ok (reg_entries (registry_insert (numbered_entry temp i) r))"
    and "dom (hm_get (reg_entries (registry_insert (numbered_entry temp i) r))) =
      insert (''module_'' @ show_nat i) (dom (hm_get (reg_entries r)))"
    using Cons.prems by (auto simp: registry_insert_def numbered_entry_def hm.wf_ins hm_get_insert split: if_splits)
  with Cons.IH show ?case by simp
qed simp

lemma test_registry_concurrent_insert_passes:
  assumes "mset order = mset [0..<10]"
  shows "test_registry_concurrent_insert temp order"
proof -
  let ?r = "fold (\<lambda>i. registry_insert (numbered_entry temp i)) order (new_registry temp)"
  have order: "set order = {0..<10}" using mset_eq_setD [OF assms] by simp
  have r: "hm_ok (reg_entries ?r)" "dom (hm_get (reg_entries ?r)) = (\<lambda>i. ''module_'' @ show_nat i) ` {0..<10}"
    using fold_numbered_entries [of "new_registry temp" temp order] order by (simp_all add: new_registry_def)
  moreover have "card ((\<lambda>i. ''module_'' @ show_nat i) ` {0..<10}) = 10"
    by (subst card_image) (auto simp: inj_on_def show_nat_inject)
  moreover have "hm_get (reg_entries ?r) (''module_'' @ show_nat i) \<noteq> None" if "i < 10" for i
    using that r(2) by (auto simp: domIff [symmetric])
  ultimately show ?thesis
    by (auto simp: test_registry_concurrent_insert_def registry_len_def get_bytecode_def list_all_iff hm.len_card Let_def)
qed

section \<open>Compilation\<close>

text \<open>The first byte of a marshalled code object.\<close>

definition type_code :: "u8 list \<Rightarrow> bool" where
  "type_code bytecode \<longleftrightarrow> bytecode \<noteq> [] \<and> (bytecode ! 0 = 0x63 \<or> bytecode ! 0 = 0xe3)"

definition hello_source :: string where
  "hello_source = ''def hello(): return '' @ [CHR 0x27] @ ''world'' @ [CHR 0x27, CHR 0x0A]"

definition test_compile_simple_module :: "run \<Rightarrow> path \<Rightarrow> bool" where
  "test_compile_simple_module run temp \<longleftrightarrow> with_compiler run temp (\<lambda>c w.
     let source = join temp (path_of ''simple.py'') in
     case compile run c source (put_file source hello_source 1 w) of (Inl _, _) \<Rightarrow> False | (Inr bytecode, _) \<Rightarrow> type_code bytecode)"

definition test_header_stripping_directly :: "run \<Rightarrow> path \<Rightarrow> bool" where
  "test_header_stripping_directly run temp \<longleftrightarrow> with_compiler run temp (\<lambda>c w.
     let source = join temp (path_of ''strip_test.py'') in
     case compile run c source (put_file source ''def f(): return 42'' 1 w) of
       (Inl _, _) \<Rightarrow> False | (Inr bytecode, _) \<Rightarrow> type_code bytecode)"

definition test_cache_staleness :: "run \<Rightarrow> path \<Rightarrow> bool" where
  "test_cache_staleness run temp \<longleftrightarrow> with_compiler run temp (\<lambda>c w.
     let source = join temp (path_of ''test.py''); cache = cache_path c source;
         w1 = put_file source ''x = 1'' 1 w;
         w2 = snd (compile run c source w1);
         w3 = put_file source ''x = 2'' (time_after w2 cache) w2 in
     is_cache_stale w1 source cache \<and> \<not> is_cache_stale w2 source cache \<and> is_cache_stale w3 source cache)"

definition test_cache_stale_timing :: "run \<Rightarrow> path \<Rightarrow> bool" where
  "test_cache_stale_timing run temp \<longleftrightarrow> with_compiler run temp (\<lambda>c w.
     let source = join temp (path_of ''timing_test.py''); cache = cache_path c source in
     case compile run c source (put_file source ''x = 1'' 1 w) of
       (Inl _, _) \<Rightarrow> False
     | (Inr _, w2) \<Rightarrow> \<not> is_cache_stale w2 source cache \<and>
         is_cache_stale (put_file source ''x = 2'' (time_after w2 cache) w2) source cache)"

definition test_magic_validation_valid_cache :: "run \<Rightarrow> path \<Rightarrow> bool" where
  "test_magic_validation_valid_cache run temp \<longleftrightarrow> with_compiler run temp (\<lambda>c w.
     let source = join temp (path_of ''test_magic.py'') in
     case compile run c source (put_file source ''x = 1'' 1 w) of
       (Inl _, _) \<Rightarrow> False | (Inr _, w2) \<Rightarrow> validate_magic c w2 (cache_path c source) = Inr True)"

definition test_magic_cached_is_4_bytes :: "run \<Rightarrow> bool" where
  "test_magic_cached_is_4_bytes run \<longleftrightarrow>
     (case find_python_cached run no_globals no_files of
        (Inl _, _, _) \<Rightarrow> False
      | (Inr python, g, w) \<Rightarrow>
        (case get_python_magic_cached run python g w of
           (Inl _, _, _) \<Rightarrow> False | (Inr magic, _, _) \<Rightarrow> length magic = 4 \<and> list_ex (\<lambda>b. b \<noteq> 0) magic))"

definition test_compile_missing_source :: "run \<Rightarrow> path \<Rightarrow> bool" where
  "test_compile_missing_source run temp \<longleftrightarrow> with_compiler run temp (\<lambda>c w.
     isl (fst (compile run c (join temp (path_of ''does_not_exist.py'')) w)))"

definition test_cache_persistence :: "run \<Rightarrow> path \<Rightarrow> bool" where
  "test_cache_persistence run temp \<longleftrightarrow> with_compiler run temp (\<lambda>c w.
     let (source, w1) = create_test_module temp ''cached'' ''x = 1'' w in
     case compile run c source w1 of (Inl _, _) \<Rightarrow> False | (Inr bytecode1, w2) \<Rightarrow>
     (case compile run c source w2 of (Inl _, _) \<Rightarrow> False | (Inr bytecode2, w3) \<Rightarrow>
        bytecode1 = bytecode2 \<and>
        (let w4 = put_file source (''x = 2'' @ [CHR 0x0A] @ ''y = 3'') (time_after w3 (cache_path c source)) w3 in
         case compile run c source w4 of (Inl _, _) \<Rightarrow> False | (Inr bytecode3, _) \<Rightarrow> bytecode1 \<noteq> bytecode3)))"

text \<open>The source is removed and written again, later than the cache.\<close>

definition test_recompile_after_delete :: "run \<Rightarrow> path \<Rightarrow> bool" where
  "test_recompile_after_delete run temp \<longleftrightarrow> with_compiler run temp (\<lambda>c w.
     let (source, w1) = create_test_module temp ''transient'' ''x = 1'' w in
     case compile run c source w1 of (Inl _, _) \<Rightarrow> False | (Inr bytecode1, w2) \<Rightarrow>
     (let w3 = w2\<lparr>lw_files := (lw_files w2)(source := None)\<rparr>;
          w4 = put_file source (''x = 999'' @ [CHR 0x0A] @ ''y = 888'') (time_after w3 (cache_path c source)) w3 in
      case compile run c source w4 of (Inl _, _) \<Rightarrow> False | (Inr bytecode2, _) \<Rightarrow> bytecode1 \<noteq> bytecode2))"

text \<open>The integration test also asks for more than ten bytes.\<close>

definition hello_value_source :: string where
  "hello_value_source = ''def hello():'' @ [CHR 0x0A] @ ''    return '' @ [CHR 0x27] @ ''world'' @ [CHR 0x27, CHR 0x0A, CHR 0x0A] @ ''VALUE = 42'' @ [CHR 0x0A]"

definition test_header_stripping_produces_valid_code_object :: "run \<Rightarrow> path \<Rightarrow> bool" where
  "test_header_stripping_produces_valid_code_object run temp \<longleftrightarrow> with_compiler run temp (\<lambda>c w.
     let (source, w1) = create_test_module temp ''simple'' hello_value_source w in
     case compile run c source w1 of (Inl _, _) \<Rightarrow> False | (Inr bytecode, _) \<Rightarrow> type_code bytecode \<and> length bytecode > 10)"

section \<open>Batches\<close>

definition test_batch_compile_empty :: "run \<Rightarrow> path \<Rightarrow> bool" where
  "test_batch_compile_empty run temp \<longleftrightarrow> with_compiler run temp (\<lambda>c w.
     let (count, registry, _) = compile_batch run c [] (new_registry temp) w in count = 0 \<and> registry_is_empty registry)"

text \<open>The shape of the others: files are written one after the other, compiled as a batch, and then
  the number and the registry are looked at.\<close>

definition batch_of :: "run \<Rightarrow> path \<Rightarrow> (string \<times> string) list \<Rightarrow> (nat \<Rightarrow> ModuleRegistry \<Rightarrow> bool) \<Rightarrow> bool" where
  "batch_of run temp sources check \<longleftrightarrow> with_compiler run temp (\<lambda>c w.
     let files = map (\<lambda>(name, _). join temp (path_of name)) sources;
         w1 = fold (\<lambda>(name, content). put_file (join temp (path_of name)) content 1) sources w;
         (count, registry, _) = compile_batch run c files (new_registry temp) w1
     in check count registry)"

definition test_batch_compilation :: "run \<Rightarrow> path \<Rightarrow> bool" where
  "test_batch_compilation run temp \<longleftrightarrow>
     batch_of run temp [(''mod0.py'', ''x = 0''), (''mod1.py'', ''x = 1''), (''mod2.py'', ''x = 2'')] (\<lambda>count registry.
       count = 3 \<and> registry_len registry = 3 \<and> get_bytecode registry ''mod0'' \<noteq> None \<and>
       get_bytecode registry ''mod1'' \<noteq> None \<and> get_bytecode registry ''mod2'' \<noteq> None)"

definition test_batch_compilation_graceful_failure :: "run \<Rightarrow> path \<Rightarrow> bool" where
  "test_batch_compilation_graceful_failure run temp \<longleftrightarrow>
     batch_of run temp [(''valid.py'', ''x = 1''), (''invalid.py'', ''def broken('' @ [CHR 0x0A])] (\<lambda>count registry.
       count = 1 \<and> get_bytecode registry ''valid'' \<noteq> None \<and> get_bytecode registry ''invalid'' = None)"

definition test_package_name_from_init_py :: "run \<Rightarrow> path \<Rightarrow> bool" where
  "test_package_name_from_init_py run temp \<longleftrightarrow>
     batch_of run temp [(''mypackage/__init__.py'', ''# Package init'')] (\<lambda>count registry.
       count = 1 \<and> get_bytecode registry ''mypackage'' \<noteq> None \<and> is_package registry ''mypackage'' = Some True)"

definition test_nested_module_path :: "run \<Rightarrow> path \<Rightarrow> bool" where
  "test_nested_module_path run temp \<longleftrightarrow>
     batch_of run temp [(''foo/bar/baz.py'', ''x = 1'')] (\<lambda>count registry.
       count = 1 \<and> get_bytecode registry ''foo.bar.baz'' \<noteq> None)"

definition test_deeply_nested_path :: "run \<Rightarrow> path \<Rightarrow> bool" where
  "test_deeply_nested_path run temp \<longleftrightarrow>
     batch_of run temp [(''a/b/c/d/e/f/g/h/i/j.py'', ''x = '' @ [CHR 0x27] @ ''deeply_nested'' @ [CHR 0x27])] (\<lambda>count registry.
       count = 1 \<and> get_bytecode registry ''a.b.c.d.e.f.g.h.i.j'' \<noteq> None)"

definition test_underscore_prefix_modules :: "run \<Rightarrow> path \<Rightarrow> bool" where
  "test_underscore_prefix_modules run temp \<longleftrightarrow>
     batch_of run temp [(''_private.py'', ''x = 1''), (''__dunder.py'', ''x = 2'')] (\<lambda>count registry.
       count = 2 \<and> get_bytecode registry ''_private'' \<noteq> None \<and> get_bytecode registry ''__dunder'' \<noteq> None)"

definition test_same_name_submodules :: "run \<Rightarrow> path \<Rightarrow> bool" where
  "test_same_name_submodules run temp \<longleftrightarrow>
     batch_of run temp
       [(''pkg1/utils.py'', ''name = '' @ [CHR 0x27] @ ''pkg1'' @ [CHR 0x27]), (''pkg2/utils.py'', ''name = '' @ [CHR 0x27] @ ''pkg2'' @ [CHR 0x27])]
       (\<lambda>count registry.
          count = 2 \<and> get_bytecode registry ''pkg1.utils'' \<noteq> None \<and> get_bytecode registry ''pkg2.utils'' \<noteq> None)"

section \<open>Results\<close>

text \<open>What the tests assume of the installed Python: \<^verbatim>\<open>which\<close> finds it, it prints its magic number,
  \<^verbatim>\<open>py_compile\<close> works, and compiling a file that is not there fails.\<close>

definition python_installed :: "run \<Rightarrow> path \<Rightarrow> u8 list \<Rightarrow> (u8 list \<Rightarrow> u8 list option) \<Rightarrow> bool" where
  "python_installed run exe magic code \<longleftrightarrow>
     (\<forall>w. \<exists>out. run ''which'' [''python3''] w = (Some (True, out), w) \<and> path_of (trim_str out) = exe) \<and>
     (\<forall>w. \<exists>out. run (path_text exe) [''-c'', magic_script] w = (Some (True, out), w) \<and> 4 \<le> length out \<and> take 4 (bytes_of out) = magic) \<and>
     (\<forall>source cache w. lw_files w source = None \<and> script_safe source \<and> script_safe cache \<longrightarrow>
        (\<exists>out. run (path_text exe) [''-c'', compile_script source cache] w = (Some (False, out), w))) \<and>
     py_compile_ok run (path_text exe) magic code"

definition compiler_at :: "path \<Rightarrow> path \<Rightarrow> u8 list \<Rightarrow> BytecodeCompiler" where
  "compiler_at temp exe magic =
     \<lparr>bc_cache_dir = join (join temp [Normal ''.tach'']) [Normal ''cache''], bc_project_root = temp, bc_python_exe = exe,
      bc_expected_magic = Some magic\<rparr>"

lemma find_python_installed:
  "python_installed run exe magic code \<Longrightarrow>
     find_python_cached run no_globals no_files = (Inr exe, no_globals\<lparr>g_python_exe := Some exe\<rparr>, no_files)"
  unfolding python_installed_def
  by (auto dest!: spec [of _ no_files]
      simp: find_python_cached_def find_python_impl_def no_files_def no_globals_def once_set_def)

lemma magic_installed:
  "python_installed run exe magic code \<Longrightarrow> g_magic g = None \<Longrightarrow>
     get_python_magic_cached run exe g w = (Inr magic, g\<lparr>g_magic := Some magic\<rparr>, w)"
  unfolding python_installed_def
  by (auto dest!: spec [of "\<lambda>w. \<exists>out. run (path_text exe) [''-c'', magic_script] w = (Some (True, out), w) \<and> _ out" w]
      simp: get_python_magic_cached_def get_python_magic_impl_def once_set_def)

lemma with_compiler_installed:
  assumes "python_installed run exe magic code"
  shows "with_compiler run temp body \<longleftrightarrow> body (compiler_at temp exe magic) no_files"
  using find_python_installed [OF assms] magic_installed [OF assms]
  by (simp add: with_compiler_def compiler_in_def new_compiler_def compiler_at_def no_files_def no_globals_def Let_def)

lemma name_tests_pass:
  assumes "python_installed run exe magic code"
  shows "test_path_to_module_name run (path_of ''/tmp/t'')" "test_cache_path run (path_of ''/tmp/t'')"
    "test_cache_path_various_structures run (path_of ''/tmp/t'')" "test_path_to_module_name_edge_cases run (path_of ''/tmp/t'')"
  unfolding test_path_to_module_name_def test_cache_path_def test_cache_path_various_structures_def
    test_path_to_module_name_edge_cases_def with_compiler_installed [OF assms]
  by code_simp+

lemma installed_magic: "python_installed run exe magic code \<Longrightarrow> length magic = 4"
  unfolding python_installed_def by (metis bytes_of_def length_map length_take min.absorb2)

lemma compiler_at_fields [simp]:
  "bc_python_exe (compiler_at temp exe magic) = exe" "bc_expected_magic (compiler_at temp exe magic) = Some magic"
  by (simp_all add: compiler_at_def)

text \<open>Compiling a source that was written after its cache file, if there is one, runs Python, whose file is then
  the cache file: it is not stale and has the right magic number.\<close>

lemma compile_written:
  assumes py: "python_installed run exe magic code" and code: "code (bytes_of content) = Some bc"
    and safe: "script_safe source" "script_safe cache" and c: "cache = cache_path (compiler_at temp exe magic) source"
    and other: "cache \<noteq> source" and old: "\<forall>cf. lw_files w cache = Some cf \<longrightarrow> lf_mtime cf < t"
    and dirs: "lw_mkdir_ok w = (\<lambda>_. True)"
  obtains hdr t' w' where "compile run (compiler_at temp exe magic) source (put_file source content t w) = (Inr bc, w')"
    and "length hdr = 12" and "t \<le> t'"
    and "w' = (put_file source content t w)\<lparr>lw_files := (lw_files w)(source \<mapsto> \<lparr>lf_data = bytes_of content, lf_mtime = t\<rparr>,
      cache \<mapsto> \<lparr>lf_data = magic @ hdr @ bc, lf_mtime = t'\<rparr>)\<rparr>"
proof -
  let ?c = "compiler_at temp exe magic" and ?w = "put_file source content t w"
  have f: "lw_files ?w source = Some \<lparr>lf_data = bytes_of content, lf_mtime = t\<rparr>" by (simp add: put_file_def)
  have "lw_files ?w cache = lw_files w cache" using other by (simp add: put_file_def)
  then have need: "needs_compile ?c ?w source"
    using needs_compile_iff [of ?c magic ?w source, OF _ installed_magic [OF py] f] old c by auto
  have run: "py_compile_ok run (path_text (bc_python_exe ?c)) magic code" using py by (simp add: python_installed_def)
  have mk: "\<forall>d. lw_mkdir_ok ?w d" using dirs by (simp add: put_file_def)
  have w: "lw_files ?w = (lw_files w)(source \<mapsto> \<lparr>lf_data = bytes_of content, lf_mtime = t\<rparr>)" by (simp add: put_file_def)
  from run installed_magic [OF py] need safe(1) safe(2) [unfolded c] f mk show ?thesis
  proof (cases rule: compile_runs)
    case (works bc' hdr t')
    then have "bc' = bc" and "t \<le> t'" using code by simp_all
    with works(2,4) show ?thesis unfolding w by (intro that) (simp_all add: c)
  qed (use code in simp)
qed

lemma written_cache:
  assumes "length magic = 4" and "length hdr = 12" and "t \<le> t'" and "cache \<noteq> source"
    and "w' = w\<lparr>lw_files := f(source \<mapsto> \<lparr>lf_data = d, lf_mtime = t\<rparr>, cache \<mapsto> \<lparr>lf_data = magic @ hdr @ bc, lf_mtime = t'\<rparr>)\<rparr>"
  shows "\<not> is_cache_stale w' source cache" and "validate_magic (compiler_at temp exe magic) w' cache = Inr True"
    and "is_cache_stale (put_file source content (time_after w' cache) w') source cache"
  using assms by (simp_all add: is_cache_stale_def validate_magic_def put_file_def time_after_def)

lemma compile_cached:
  assumes "length magic = 4" and "length hdr = 12" and "t \<le> t'" and "cache = cache_path (compiler_at temp exe magic) source"
    and "cache \<noteq> source"
    and "w' = w\<lparr>lw_files := f(source \<mapsto> \<lparr>lf_data = d, lf_mtime = t\<rparr>, cache \<mapsto> \<lparr>lf_data = magic @ hdr @ bc, lf_mtime = t'\<rparr>)\<rparr>"
  shows "compile run (compiler_at temp exe magic) source w' = (Inr bc, w')"
  using compile_hit [of "compiler_at temp exe magic" magic w' source "\<lparr>lf_data = d, lf_mtime = t\<rparr>"
      "\<lparr>lf_data = magic @ hdr @ bc, lf_mtime = t'\<rparr>" run] assms
  by auto

text \<open>The paths of a source and its cache file can stand in the script.\<close>

definition source_ok :: "path \<Rightarrow> path \<Rightarrow> u8 list \<Rightarrow> string \<Rightarrow> bool" where
  "source_ok temp exe magic name \<longleftrightarrow>
     (let source = join temp (path_of name); cache = cache_path (compiler_at temp exe magic) source in
      script_safe source \<and> script_safe cache \<and> cache \<noteq> source)"

lemma sources_ok:
  "list_all (source_ok (path_of ''/tmp/t'') exe magic)
     [''simple.py'', ''strip_test.py'', ''test.py'', ''timing_test.py'', ''test_magic.py'', ''cached.py'', ''transient.py'', ''does_not_exist.py'']"
  by code_simp

text \<open>One source of the tests: compiled when it is written, found in the cache when it is compiled again, and
  compiled again when it was written later.\<close>

lemma source_compiles:
  assumes py: "python_installed run exe magic code" and code: "code (bytes_of content) = Some bc"
    and ok: "source_ok temp exe magic name" and source: "source = join temp (path_of name)"
    and old: "\<forall>cf. lw_files w (cache_path (compiler_at temp exe magic) source) = Some cf \<longrightarrow> lf_mtime cf < t"
    and dirs: "lw_mkdir_ok w = (\<lambda>_. True)"
  obtains w' where "compile run (compiler_at temp exe magic) source (put_file source content t w) = (Inr bc, w')"
    and "compile run (compiler_at temp exe magic) source w' = (Inr bc, w')"
    and "\<not> is_cache_stale w' source (cache_path (compiler_at temp exe magic) source)"
    and "validate_magic (compiler_at temp exe magic) w' (cache_path (compiler_at temp exe magic) source) = Inr True"
    and "\<forall>content2. is_cache_stale (put_file source content2 (time_after w' (cache_path (compiler_at temp exe magic) source)) w')
      source (cache_path (compiler_at temp exe magic) source)"
    and "lw_mkdir_ok w' = (\<lambda>_. True)"
proof -
  let ?cache = "cache_path (compiler_at temp exe magic) source"
  have s: "script_safe source" "script_safe ?cache" "?cache \<noteq> source" using ok source by (simp_all add: source_ok_def Let_def)
  obtain hdr t' w' where w: "compile run (compiler_at temp exe magic) source (put_file source content t w) = (Inr bc, w')"
      "length hdr = 12" "t \<le> t'"
      "w' = (put_file source content t w)\<lparr>lw_files := (lw_files w)(source \<mapsto> \<lparr>lf_data = bytes_of content, lf_mtime = t\<rparr>,
        ?cache \<mapsto> \<lparr>lf_data = magic @ hdr @ bc, lf_mtime = t'\<rparr>)\<rparr>"
    by (rule compile_written [OF py code s(1,2) refl s(3) old dirs])
  have m: "length magic = 4" by (rule installed_magic [OF py])
  show ?thesis
    by (rule that [OF w(1) compile_cached [OF m w(2,3) refl s(3) w(4)] written_cache(1,2) [OF m w(2,3) s(3) w(4)] allI [OF written_cache(3) [OF m w(2,3) s(3) w(4)]]])
       (use dirs in \<open>simp add: w(4) put_file_def\<close>)
qed

lemma no_files_old: "\<forall>cf. lw_files no_files p = Some cf \<longrightarrow> lf_mtime cf < t" and no_files_dirs: "lw_mkdir_ok no_files = (\<lambda>_. True)"
  by (simp_all add: no_files_def)

lemma time_after_old: "\<forall>cf. lw_files w p = Some cf \<longrightarrow> lf_mtime cf < time_after w p"
  by (simp add: time_after_def)

lemma compile_tests_pass:
  assumes py: "python_installed run exe magic code" and temp: "temp = path_of ''/tmp/t''"
  shows "code (bytes_of hello_source) = Some bc \<Longrightarrow> type_code bc \<Longrightarrow>
      test_compile_simple_module run temp"
    and "code (bytes_of ''def f(): return 42'') = Some bc \<Longrightarrow> type_code bc \<Longrightarrow> test_header_stripping_directly run temp"
    and "code (bytes_of ''x = 1'') = Some bc \<Longrightarrow>
      test_cache_staleness run temp \<and> test_cache_stale_timing run temp \<and> test_magic_validation_valid_cache run temp"
proof -
  have ok: "list_all (source_ok temp exe magic) [''simple.py'', ''strip_test.py'', ''test.py'', ''timing_test.py'', ''test_magic.py'']"
    using sources_ok [of exe magic] by (simp add: temp)
  note c = source_compiles [OF py _ _ refl no_files_old no_files_dirs]
  show "test_compile_simple_module run temp"
    if "code (bytes_of hello_source) = Some bc" and "type_code bc"
    using that ok by - (rule c [of hello_source bc temp "''simple.py''" 1],
      simp_all add: test_compile_simple_module_def with_compiler_installed [OF py] Let_def)
  show "test_header_stripping_directly run temp" if "code (bytes_of ''def f(): return 42'') = Some bc" and "type_code bc"
    using that ok by - (rule c [of "''def f(): return 42''" bc temp "''strip_test.py''" 1],
      simp_all add: test_header_stripping_directly_def with_compiler_installed [OF py] Let_def)
  show "test_cache_staleness run temp \<and> test_cache_stale_timing run temp \<and> test_magic_validation_valid_cache run temp"
    if "code (bytes_of ''x = 1'') = Some bc"
  proof (intro conjI)
    have "is_cache_stale (put_file source d t no_files) source cache" if "cache \<noteq> source" for source d t cache
      using that by (simp add: is_cache_stale_def put_file_def no_files_def)
    then show "test_cache_staleness run temp"
      using that ok by - (rule c [of "''x = 1''" bc temp "''test.py''" 1],
        simp_all add: test_cache_staleness_def with_compiler_installed [OF py] source_ok_def Let_def)
    show "test_cache_stale_timing run temp"
      using that ok by - (rule c [of "''x = 1''" bc temp "''timing_test.py''" 1],
        simp_all add: test_cache_stale_timing_def with_compiler_installed [OF py] Let_def)
    show "test_magic_validation_valid_cache run temp"
      using that ok by - (rule c [of "''x = 1''" bc temp "''test_magic.py''" 1],
        simp_all add: test_magic_validation_valid_cache_def with_compiler_installed [OF py] Let_def)
  qed
qed

lemma test_magic_cached_is_4_bytes_passes:
  "python_installed run exe magic code \<Longrightarrow> list_ex (\<lambda>b. b \<noteq> 0) magic \<Longrightarrow> test_magic_cached_is_4_bytes run"
  using magic_installed [of run exe magic code "no_globals\<lparr>g_python_exe := Some exe\<rparr>"] installed_magic [of run exe magic code]
  by (simp add: test_magic_cached_is_4_bytes_def find_python_installed) (simp add: no_globals_def)

lemma test_compile_missing_source_passes:
  assumes py: "python_installed run exe magic code" and temp: "temp = path_of ''/tmp/t''"
  shows "test_compile_missing_source run temp"
proof -
  let ?s = "join temp (path_of ''does_not_exist.py'')" and ?c = "compiler_at temp exe magic"
  have "source_ok temp exe magic ''does_not_exist.py''" using sources_ok [of exe magic] by (simp add: temp)
  then have "\<exists>out. run (path_text exe) [''-c'', compile_script ?s (cache_path ?c ?s)] no_files = (Some (False, out), no_files)"
    using py by (simp add: python_installed_def no_files_def source_ok_def Let_def)
  then have "fst (compile run ?c ?s no_files) = Inl CompilationFailed"
    by (auto simp: compile_def compile_to_cache_def needs_compile_def is_cache_stale_def no_files_def Let_def split: option.splits)
  then show ?thesis by (simp add: test_compile_missing_source_def with_compiler_installed [OF py])
qed

lemma recompile_tests_pass:
  assumes py: "python_installed run exe magic code" and temp: "temp = path_of ''/tmp/t''"
    and bc1: "code (bytes_of ''x = 1'') = Some bc1"
  shows "code (bytes_of (''x = 2'' @ [CHR 0x0A] @ ''y = 3'')) = Some bc2 \<Longrightarrow> bc1 \<noteq> bc2 \<Longrightarrow> test_cache_persistence run temp"
    and "code (bytes_of (''x = 999'' @ [CHR 0x0A] @ ''y = 888'')) = Some bc2 \<Longrightarrow> bc1 \<noteq> bc2 \<Longrightarrow> test_recompile_after_delete run temp"
proof -
  let ?c = "compiler_at temp exe magic"
  have ok: "source_ok temp exe magic ''cached.py''" "source_ok temp exe magic ''transient.py''"
    using sources_ok [of exe magic] by (simp_all add: temp)
  note c1 = source_compiles [OF py bc1 _ refl no_files_old [where t = 1] no_files_dirs]
  show "test_cache_persistence run temp" if bc2: "code (bytes_of (''x = 2'' @ [CHR 0x0A] @ ''y = 3'')) = Some bc2" "bc1 \<noteq> bc2"
  proof -
    let ?s = "join temp (path_of ''cached.py'')"
    obtain w where w: "compile run ?c ?s (put_file ?s ''x = 1'' 1 no_files) = (Inr bc1, w)" "compile run ?c ?s w = (Inr bc1, w)"
        "lw_mkdir_ok w = (\<lambda>_. True)"
      by (rule c1 [OF ok(1)])
    obtain w' where "compile run ?c ?s (put_file ?s (''x = 2'' @ [CHR 0x0A] @ ''y = 3'') (time_after w (cache_path ?c ?s)) w) = (Inr bc2, w')"
      by (rule source_compiles [OF py bc2(1) ok(1) refl time_after_old w(3)])
    with w bc2(2) show ?thesis
      by (simp add: test_cache_persistence_def with_compiler_installed [OF py] create_test_module_def Let_def)
  qed
  show "test_recompile_after_delete run temp" if bc2: "code (bytes_of (''x = 999'' @ [CHR 0x0A] @ ''y = 888'')) = Some bc2" "bc1 \<noteq> bc2"
  proof -
    let ?s = "join temp (path_of ''transient.py'')"
    obtain w where w: "compile run ?c ?s (put_file ?s ''x = 1'' 1 no_files) = (Inr bc1, w)" "lw_mkdir_ok w = (\<lambda>_. True)"
      by (rule c1 [OF ok(2)])
    let ?w = "w\<lparr>lw_files := (lw_files w)(?s := None)\<rparr>"
    have "lw_mkdir_ok ?w = (\<lambda>_. True)" using w(2) by simp
    then obtain w' where "compile run ?c ?s (put_file ?s (''x = 999'' @ [CHR 0x0A] @ ''y = 888'') (time_after ?w (cache_path ?c ?s)) ?w) = (Inr bc2, w')"
      by (rule source_compiles [OF py bc2(1) ok(2) refl time_after_old])
    with w bc2(2) show ?thesis
      by (simp add: test_recompile_after_delete_def with_compiler_installed [OF py] create_test_module_def Let_def)
  qed
qed

lemma test_header_stripping_produces_valid_code_object_passes:
  assumes py: "python_installed run exe magic code" and temp: "temp = path_of ''/tmp/t''"
    and bc: "code (bytes_of hello_value_source) = Some bc" "type_code bc" "length bc > 10"
  shows "test_header_stripping_produces_valid_code_object run temp"
proof -
  have "source_ok temp exe magic ''simple.py''" using sources_ok [of exe magic] by (simp add: temp)
  then obtain w where "compile run (compiler_at temp exe magic) (join temp (path_of ''simple.py''))
      (put_file (join temp (path_of ''simple.py'')) hello_value_source 1 no_files) = (Inr bc, w)"
    by (rule source_compiles [OF py bc(1) _ refl no_files_old [where t = 1] no_files_dirs])
  with bc(2,3) show ?thesis
    by (simp add: test_header_stripping_produces_valid_code_object_def with_compiler_installed [OF py] create_test_module_def Let_def)
qed

text \<open>The files of a batch: they and their cache files are all different, and their names can stand in the script.\<close>

definition batch_ok :: "path \<Rightarrow> path \<Rightarrow> u8 list \<Rightarrow> string list \<Rightarrow> bool" where
  "batch_ok temp exe magic names \<longleftrightarrow>
     (let files = map (\<lambda>n. join temp (path_of n)) names; caches = map (cache_path (compiler_at temp exe magic)) files in
      distinct (caches @ files) \<and> list_all script_safe (caches @ files) \<and> list_all (\<lambda>p. extension p = Some ''py'') files)"

lemma batches_ok:
  "list_all (batch_ok (path_of ''/tmp/t'') exe magic)
     [[''mod0.py'', ''mod1.py'', ''mod2.py''], [''valid.py'', ''invalid.py''], [''mypackage/__init__.py''], [''foo/bar/baz.py''],
      [''a/b/c/d/e/f/g/h/i/j.py''], [''_private.py'', ''__dunder.py''], [''pkg1/utils.py'', ''pkg2/utils.py'']]"
  by code_simp

lemma project_ok_list:
  "distinct (map (cache_path c) files) \<Longrightarrow> set (map (cache_path c) files) \<inter> set files = {} \<Longrightarrow>
     \<forall>p\<in>set files. script_safe p \<and> script_safe (cache_path c p) \<Longrightarrow> project_ok c (set files)"
  by (simp add: project_ok_def distinct_map)

lemma lookup_fold_write:
  "lw_files (fold (\<lambda>(name, content). put_file (join temp (path_of name)) content t) sources w) p =
     (case filter (\<lambda>(name, _). join temp (path_of name) = p) sources of
        [] \<Rightarrow> lw_files w p | fs \<Rightarrow> Some \<lparr>lf_data = bytes_of (snd (last fs)), lf_mtime = t\<rparr>)"
  by (induction sources arbitrary: w) (auto simp: put_file_def split: list.splits)

lemma dirs_fold_write:
  "lw_mkdir_ok (fold (\<lambda>(name, content). put_file (join temp (path_of name)) content t) sources w) = lw_mkdir_ok w"
  by (induction sources arbitrary: w) (auto simp: put_file_def)

definition batch_entries ::
  "path \<Rightarrow> path \<Rightarrow> u8 list \<Rightarrow> (u8 list \<Rightarrow> u8 list option) \<Rightarrow> (string \<times> string) list \<Rightarrow> BytecodeEntry list" where
  "batch_entries temp exe magic code sources = List.map_filter (\<lambda>(name, content).
     map_option (\<lambda>bc. \<lparr>be_name = path_to_module_name (compiler_at temp exe magic) (join temp (path_of name)),
         be_source_path = join temp (path_of name), be_bytecode = bc,
         be_is_package = (file_name (join temp (path_of name)) = Some ''__init__.py'')\<rparr>) (code (bytes_of content))) sources"

lemma batch_of_installed:
  assumes py: "python_installed run exe magic code" and ok: "batch_ok temp exe magic (map fst sources)"
  shows "batch_of run temp sources check \<longleftrightarrow>
     check (length (batch_entries temp exe magic code sources))
       (fold registry_insert (batch_entries temp exe magic code sources) (new_registry temp))"
proof -
  let ?c = "compiler_at temp exe magic" and ?p = "\<lambda>name. join temp (path_of name)"
  let ?files = "map (\<lambda>(name, _). ?p name) sources"
  let ?w = "fold (\<lambda>(name, content). put_file (?p name) content 1) sources no_files"
  have files: "?files = map ?p (map fst sources)" by (simp add: case_prod_beta comp_def)
  have d: "distinct (map (cache_path ?c) ?files)" "distinct ?files" "set (map (cache_path ?c) ?files) \<inter> set ?files = {}"
    and safe: "\<forall>p\<in>set ?files. script_safe p \<and> script_safe (cache_path ?c p) \<and> extension p = Some ''py''"
    using ok unfolding files batch_ok_def Let_def by (simp_all add: list_all_iff)
  have proj: "project_ok ?c (set ?files)" by (rule project_ok_list [OF d(1,3)]) (use safe in blast)
  have there: "lw_files ?w (?p name) = Some \<lparr>lf_data = bytes_of content, lf_mtime = 1\<rparr>" if "(name, content) \<in> set sources" for name content
  proof -
    have "filter (\<lambda>(n, _). ?p n = ?p name) sources = [(name, content)]"
      using that d(2)
    proof (induction sources)
      case (Cons a sources)
      then show ?case by (cases "a = (name, content)") (force simp: filter_empty_conv)+
    qed simp
    then show ?thesis by (simp add: lookup_fold_write)
  qed
  have none: "lw_files ?w p = None" if "p \<notin> set ?files" for p
  proof -
    have "filter (\<lambda>(n, _). ?p n = p) sources = []" using that by (force simp: filter_empty_conv)
    then show ?thesis by (simp add: lookup_fold_write no_files_def)
  qed
  have "cache_ok ?c (set ?files) magic code ?w" using none d(3) by (force simp: cache_ok_def)
  moreover have "\<forall>p\<in>set ?files. lw_files ?w p \<noteq> None" using there by auto
  moreover have "\<forall>x. lw_mkdir_ok ?w x" by (simp add: dirs_fold_write no_files_def)
  moreover have "py_compile_ok run (path_text (bc_python_exe ?c)) magic code" using py by (simp add: python_installed_def)
  ultimately obtain w' where "compile_batch run ?c ?files (new_registry temp) ?w =
      (length (List.map_filter (entry_of ?c code ?w) ?files),
       fold registry_insert (List.map_filter (entry_of ?c code ?w) ?files) (new_registry temp), w')"
    using compile_batch_entries [of run ?c magic code "set ?files" ?files ?w "new_registry temp"] installed_magic [OF py] proj by auto
  moreover have "List.map_filter (entry_of ?c code ?w) ?files = batch_entries temp exe magic code sources"
    unfolding batch_entries_def map_filter_map
    by (rule map_filter_same) (use there safe in \<open>auto simp: entry_of_def\<close>)
  ultimately show ?thesis by (simp add: batch_of_def with_compiler_installed [OF py] Let_def)
qed

lemma batch_names:
  "path_to_module_name (compiler_at (path_of ''/tmp/t'') exe magic) (join (path_of ''/tmp/t'') (path_of ''mod0.py'')) = ''mod0''"
  "path_to_module_name (compiler_at (path_of ''/tmp/t'') exe magic) (join (path_of ''/tmp/t'') (path_of ''mod1.py'')) = ''mod1''"
  "path_to_module_name (compiler_at (path_of ''/tmp/t'') exe magic) (join (path_of ''/tmp/t'') (path_of ''mod2.py'')) = ''mod2''"
  "path_to_module_name (compiler_at (path_of ''/tmp/t'') exe magic) (join (path_of ''/tmp/t'') (path_of ''valid.py'')) = ''valid''"
  "path_to_module_name (compiler_at (path_of ''/tmp/t'') exe magic) (join (path_of ''/tmp/t'') (path_of ''mypackage/__init__.py'')) = ''mypackage''"
  "path_to_module_name (compiler_at (path_of ''/tmp/t'') exe magic) (join (path_of ''/tmp/t'') (path_of ''foo/bar/baz.py'')) = ''foo.bar.baz''"
  "path_to_module_name (compiler_at (path_of ''/tmp/t'') exe magic) (join (path_of ''/tmp/t'') (path_of ''a/b/c/d/e/f/g/h/i/j.py'')) = ''a.b.c.d.e.f.g.h.i.j''"
  "path_to_module_name (compiler_at (path_of ''/tmp/t'') exe magic) (join (path_of ''/tmp/t'') (path_of ''_private.py'')) = ''_private''"
  "path_to_module_name (compiler_at (path_of ''/tmp/t'') exe magic) (join (path_of ''/tmp/t'') (path_of ''__dunder.py'')) = ''__dunder''"
  "path_to_module_name (compiler_at (path_of ''/tmp/t'') exe magic) (join (path_of ''/tmp/t'') (path_of ''pkg1/utils.py'')) = ''pkg1.utils''"
  "path_to_module_name (compiler_at (path_of ''/tmp/t'') exe magic) (join (path_of ''/tmp/t'') (path_of ''pkg2/utils.py'')) = ''pkg2.utils''"
  "file_name (join (path_of ''/tmp/t'') (path_of ''mypackage/__init__.py'')) = Some ''__init__.py''"
  by code_simp+

text \<open>The batches pass with a Python that compiles their sources, except the one with the syntax error.\<close>

lemma batch_tests_pass:
  assumes py: "python_installed run exe magic code"
    and compiles: "list_all (\<lambda>s. code (bytes_of s) \<noteq> None)
      [''x = 0'', ''x = 1'', ''x = 2'', ''# Package init'', ''x = '' @ [CHR 0x27] @ ''deeply_nested'' @ [CHR 0x27],
       ''name = '' @ [CHR 0x27] @ ''pkg1'' @ [CHR 0x27], ''name = '' @ [CHR 0x27] @ ''pkg2'' @ [CHR 0x27]]"
    and broken: "code (bytes_of (''def broken('' @ [CHR 0x0A])) = None"
  shows "test_batch_compile_empty run (path_of ''/tmp/t'')" and "test_batch_compilation run (path_of ''/tmp/t'')"
    and "test_batch_compilation_graceful_failure run (path_of ''/tmp/t'')" and "test_package_name_from_init_py run (path_of ''/tmp/t'')"
    and "test_nested_module_path run (path_of ''/tmp/t'')" and "test_deeply_nested_path run (path_of ''/tmp/t'')"
    and "test_underscore_prefix_modules run (path_of ''/tmp/t'')" and "test_same_name_submodules run (path_of ''/tmp/t'')"
proof -
  note b = batch_of_installed [OF py, of "path_of ''/tmp/t''"] batch_entries_def map_filter_simps batch_names
    get_bytecode_def registry_len_def is_package_def registry_insert_def new_registry_def hm_get_insert
  show "test_batch_compile_empty run (path_of ''/tmp/t'')"
    by (simp add: test_batch_compile_empty_def with_compiler_installed [OF py] registry_is_empty_def new_registry_def)
  show "test_batch_compilation run (path_of ''/tmp/t'')" using compiles batches_ok [of exe magic] by (auto simp: test_batch_compilation_def b)
  show "test_batch_compilation_graceful_failure run (path_of ''/tmp/t'')"
    using compiles broken batches_ok [of exe magic] by (auto simp: test_batch_compilation_graceful_failure_def b)
  show "test_package_name_from_init_py run (path_of ''/tmp/t'')"
    using compiles batches_ok [of exe magic] by (auto simp: test_package_name_from_init_py_def b)
  show "test_nested_module_path run (path_of ''/tmp/t'')" using compiles batches_ok [of exe magic] by (auto simp: test_nested_module_path_def b)
  show "test_deeply_nested_path run (path_of ''/tmp/t'')" using compiles batches_ok [of exe magic] by (auto simp: test_deeply_nested_path_def b)
  show "test_underscore_prefix_modules run (path_of ''/tmp/t'')"
    using compiles batches_ok [of exe magic] by (auto simp: test_underscore_prefix_modules_def b)
  show "test_same_name_submodules run (path_of ''/tmp/t'')"
    using compiles batches_ok [of exe magic] by (auto simp: test_same_name_submodules_def b)
qed

text \<open>The assumptions can hold: a Python that compiles by copying, found by \<^verbatim>\<open>which\<close>.\<close>

definition installed_python :: run where
  "installed_python exe args w =
     (if exe = ''which'' then (Some (True, ''/usr/bin/python3'' @ [CHR 0x0A]), w)
      else if args = [''-c'', magic_script] then (Some (True, [CHR 0x01, CHR 0x02, CHR 0x03, CHR 0x04]), w)
      else copy_python exe args w)"

lemma installed_python_ok: "python_installed installed_python (path_of ''/usr/bin/python3'') [1, 2, 3, 4] copy_code"
proof -
  have exe: "path_text (path_of ''/usr/bin/python3'') = ''/usr/bin/python3''"
    and out: "path_of (trim_str (''/usr/bin/python3'' @ [CHR 0x0A])) = path_of ''/usr/bin/python3''" by code_simp+
  have script: "compile_script source cache \<noteq> magic_script" for source cache
    by (simp add: compile_script_def magic_script_def)
  have "copy_python e [''-c'', compile_script source cache] w = (Some (False, []), w)"
    if "lw_files w source = None" "script_safe source" "script_safe cache" for e source cache w
    using that by (simp add: copy_python_def split_compile_script) (simp add: script_safe_def path_of_path_text)
  moreover have comp: "installed_python ''/usr/bin/python3'' [''-c'', compile_script source cache] w =
      copy_python ''/usr/bin/python3'' [''-c'', compile_script source cache] w" for source cache w
    by (simp add: installed_python_def script)
  moreover have "installed_python ''which'' [''python3''] w = (Some (True, ''/usr/bin/python3'' @ [CHR 0x0A]), w)"
    "installed_python ''/usr/bin/python3'' [''-c'', magic_script] w = (Some (True, [CHR 0x01, CHR 0x02, CHR 0x03, CHR 0x04]), w)" for w
    by (simp_all add: installed_python_def)
  moreover have "py_compile_ok installed_python ''/usr/bin/python3'' [1, 2, 3, 4] copy_code"
    using copy_python_ok [of "''/usr/bin/python3''"] unfolding py_compile_ok_def comp .
  ultimately show ?thesis
    using out unfolding python_installed_def exe by (simp add: bytes_of_def del: append.simps)
qed

end
