(* ===== verification/Conformance_Discovery.thy ===== *)
theory Conformance_Discovery
  imports Discovery
begin

text \<open>
  The unit tests of discovery, and its integration tests on temporary directories, as statements about the
  model: each definition is the conjunction of the assertions of the test of that name. The parser and the
  directory walk are arguments of a test; the lemma that a test passes assumes that the parser gives for the
  source of the test its syntax tree, with the positions in the source left open.
\<close>

section \<open>Sources and trees\<close>

text \<open>A source of the tests by its lines, and a file that holds it.\<close>

definition py_lines :: "string list \<Rightarrow> string" where
  "py_lines ls = concat (map (\<lambda>l. l @ [CHR 0x0A]) ls)"

type_synonym parser = "string \<Rightarrow> string \<Rightarrow> stmt list option"

definition parse_source :: "parser \<Rightarrow> string \<Rightarrow> (io_error, TestModule) result option" where
  "parse_source parse_program source =
     parse_module parse_program \<lparr>w_cwd = [RootDir], w_files = [(path_of ''/tmp/source'', source)]\<rparr> (path_of ''/tmp/source'')"

text \<open>\<^verbatim>\<open>unwrap\<close>: the test goes on with the module.\<close>

definition module_ok :: "(io_error, TestModule) result option \<Rightarrow> (TestModule \<Rightarrow> bool) \<Rightarrow> bool" where
  "module_ok r check \<longleftrightarrow> (case r of Some (Inr m) \<Rightarrow> check m | _ \<Rightarrow> False)"

definition func_of :: "string \<Rightarrow> string list \<Rightarrow> expr list \<Rightarrow> nat \<Rightarrow> func_def" where
  "func_of name args decorators off =
     \<lparr>fn_name = name, fn_args = \<lparr>posonlyargs = [], args_args = args, kwonlyargs = []\<rparr>, fn_decorators = decorators, fn_start = off\<rparr>"

definition pytest_fixture :: expr where
  "pytest_fixture = Attribute (Name ''pytest'') ''fixture''"

definition pytest_fixture_scope :: "string \<Rightarrow> expr" where
  "pytest_fixture_scope scope = Call pytest_fixture [] [Keyword (Some ''scope'') (Constant (CStr scope))]"

section \<open>Results\<close>

definition test_fixture_scope_default :: bool where
  "test_fixture_scope_default \<longleftrightarrow> default_scope = Function"

definition test_discovery_result_counts :: bool where
  "test_discovery_result_counts \<longleftrightarrow>
     (let result = \<lparr>dr_modules =
        [\<lparr>tm_path = path_of ''test_a.py'',
          tm_tests =
           [\<lparr>tc_name = ''test_1'', tc_dependencies = [], tc_is_async = False, tc_line_number = 1, tc_parametrized_args = []\<rparr>,
            \<lparr>tc_name = ''test_2'', tc_dependencies = [], tc_is_async = True, tc_line_number = 1, tc_parametrized_args = []\<rparr>],
          tm_fixtures = [\<lparr>fd_name = ''db'', fd_scope = Module, fd_dependencies = [], fd_params = None, fd_class_scope = None\<rparr>]\<rparr>,
         \<lparr>tm_path = path_of ''test_b.py'',
          tm_tests = [\<lparr>tc_name = ''test_3'', tc_dependencies = [''db''], tc_is_async = False, tc_line_number = 1, tc_parametrized_args = []\<rparr>],
          tm_fixtures = []\<rparr>]\<rparr> in
      test_count result = 3 \<and> fixture_count result = 1)"

definition test_discovery_result_empty :: bool where
  "test_discovery_result_empty \<longleftrightarrow> test_count \<lparr>dr_modules = []\<rparr> = 0 \<and> fixture_count \<lparr>dr_modules = []\<rparr> = 0"

lemma result_tests_pass: "test_fixture_scope_default" "test_discovery_result_counts" "test_discovery_result_empty"
  by (simp_all add: test_fixture_scope_default_def default_scope_def test_discovery_result_counts_def
      test_discovery_result_empty_def test_count_def fixture_count_def)

section \<open>Parsing\<close>

definition simple_source :: string where
  "simple_source = py_lines [[], ''def test_simple():'', ''    pass'']"

definition test_parse_simple_test_function :: "parser \<Rightarrow> bool" where
  "test_parse_simple_test_function parse_program \<longleftrightarrow> module_ok (parse_source parse_program simple_source) (\<lambda>m.
     length (tm_tests m) = 1 \<and> tc_name (tm_tests m ! 0) = ''test_simple'' \<and> \<not> tc_is_async (tm_tests m ! 0) \<and>
     tc_dependencies (tm_tests m ! 0) = [])"

definition async_source :: string where
  "async_source = py_lines [[], ''async def test_async():'', ''    await something()'']"

definition test_parse_async_test_function :: "parser \<Rightarrow> bool" where
  "test_parse_async_test_function parse_program \<longleftrightarrow> module_ok (parse_source parse_program async_source) (\<lambda>m.
     length (tm_tests m) = 1 \<and> tc_name (tm_tests m ! 0) = ''test_async'' \<and> tc_is_async (tm_tests m ! 0))"

definition deps_source :: string where
  "deps_source = py_lines [[], ''def test_with_deps(db, cache, client):'', ''    pass'']"

definition test_parse_test_with_dependencies :: "parser \<Rightarrow> bool" where
  "test_parse_test_with_dependencies parse_program \<longleftrightarrow> module_ok (parse_source parse_program deps_source) (\<lambda>m.
     length (tm_tests m) = 1 \<and> tc_dependencies (tm_tests m ! 0) = [''db'', ''cache'', ''client''])"

definition fixture_source :: string where
  "fixture_source = py_lines [[], ''import pytest'', [], ''@pytest.fixture'', ''def my_fixture():'', ''    return 42'']"

definition test_parse_fixture_simple :: "parser \<Rightarrow> bool" where
  "test_parse_fixture_simple parse_program \<longleftrightarrow> module_ok (parse_source parse_program fixture_source) (\<lambda>m.
     length (tm_fixtures m) = 1 \<and> fd_name (tm_fixtures m ! 0) = ''my_fixture'' \<and> fd_scope (tm_fixtures m ! 0) = Function)"

definition scopes_source :: string where
  "scopes_source = py_lines
     [[], ''import pytest'', [], ''@pytest.fixture(scope=\"module\")'', ''def module_fixture():'', ''    return \"module\"'', [],
      ''@pytest.fixture(scope=\"session\")'', ''def session_fixture():'', ''    return \"session\"'', [],
      ''@pytest.fixture(scope=\"class\")'', ''def class_fixture():'', ''    return \"class\"'']"

definition test_parse_fixture_with_scope :: "parser \<Rightarrow> bool" where
  "test_parse_fixture_with_scope parse_program \<longleftrightarrow> module_ok (parse_source parse_program scopes_source) (\<lambda>m.
     length (tm_fixtures m) = 3 \<and>
     (let scopes = map fd_scope (tm_fixtures m) in List.member scopes Module \<and> List.member scopes Session \<and> List.member scopes Class))"

definition derived_source :: string where
  "derived_source = py_lines [[], ''import pytest'', [], ''@pytest.fixture'', ''def derived_fixture(base_fixture, db):'', ''    return base_fixture + db'']"

definition test_parse_fixture_with_dependencies :: "parser \<Rightarrow> bool" where
  "test_parse_fixture_with_dependencies parse_program \<longleftrightarrow> module_ok (parse_source parse_program derived_source) (\<lambda>m.
     length (tm_fixtures m) = 1 \<and> fd_dependencies (tm_fixtures m ! 0) = [''base_fixture'', ''db''])"

definition class_source :: string where
  "class_source = py_lines
     [[], ''class TestMyClass:'', ''    def test_method_one(self):'', ''        pass'', ''    '', ''    def test_method_two(self, db):'',
      ''        pass'', ''    '', ''    def helper_not_a_test(self):'', ''        pass'']"

definition test_parse_test_class :: "parser \<Rightarrow> bool" where
  "test_parse_test_class parse_program \<longleftrightarrow> module_ok (parse_source parse_program class_source) (\<lambda>m.
     length (tm_tests m) = 2 \<and> list_ex (\<lambda>t. tc_name t = ''TestMyClass::test_method_one'') (tm_tests m) \<and>
     list_ex (\<lambda>t. tc_name t = ''TestMyClass::test_method_two'') (tm_tests m))"

definition async_class_source :: string where
  "async_class_source = py_lines
     [[], ''class TestAsync:'', ''    async def test_async_method(self, client):'', ''        await client.get()'']"

definition test_parse_async_test_in_class :: "parser \<Rightarrow> bool" where
  "test_parse_async_test_in_class parse_program \<longleftrightarrow> module_ok (parse_source parse_program async_class_source) (\<lambda>m.
     length (tm_tests m) = 1 \<and> tc_name (tm_tests m ! 0) = ''TestAsync::test_async_method'' \<and> tc_is_async (tm_tests m ! 0) \<and>
     tc_dependencies (tm_tests m ! 0) = [''client''])"

definition helpers_source :: string where
  "helpers_source = py_lines
     [[], ''def helper_function():'', ''    pass'', [], ''def setup_module():'', ''    pass'', [], ''def teardown():'', ''    pass'']"

definition test_parse_non_test_functions_ignored :: "parser \<Rightarrow> bool" where
  "test_parse_non_test_functions_ignored parse_program \<longleftrightarrow>
     module_ok (parse_source parse_program helpers_source) (\<lambda>m. tm_tests m = [] \<and> tm_fixtures m = [])"

definition other_class_source :: string where
  "other_class_source = py_lines [[], ''class MyClass:'', ''    def test_looks_like_test(self):'', ''        pass'']"

definition test_parse_non_test_class_ignored :: "parser \<Rightarrow> bool" where
  "test_parse_non_test_class_ignored parse_program \<longleftrightarrow>
     module_ok (parse_source parse_program other_class_source) (\<lambda>m. tm_tests m = [])"

definition self_source :: string where
  "self_source = py_lines
     [[], ''class TestWithSelf:'', ''    def test_method(self, db, cache):'', ''        pass'', ''    '', ''    @classmethod'',
      ''    def test_classmethod(cls, db):'', ''        pass'']"

definition test_parse_self_and_cls_excluded_from_deps :: "parser \<Rightarrow> bool" where
  "test_parse_self_and_cls_excluded_from_deps parse_program \<longleftrightarrow> module_ok (parse_source parse_program self_source) (\<lambda>m.
     list_all (\<lambda>t. \<not> List.member (tc_dependencies t) ''self'' \<and> \<not> List.member (tc_dependencies t) ''cls'') (tm_tests m))"

definition test_parse_empty_file :: "parser \<Rightarrow> bool" where
  "test_parse_empty_file parse_program \<longleftrightarrow>
     module_ok (parse_source parse_program []) (\<lambda>m. tm_tests m = [] \<and> tm_fixtures m = [])"

definition mixed_source :: string where
  "mixed_source = py_lines
     [[], ''import pytest'', [], ''@pytest.fixture(scope=\"module\")'', ''def db():'', ''    return \"connection\"'', [],
      ''def test_with_db(db):'', ''    assert db == \"connection\"'', [], ''class TestIntegration:'',
      ''    def test_in_class(self, db):'', ''        pass'', [], ''async def test_async_standalone():'', ''    await asyncio.sleep(0)'']"

definition test_parse_mixed_content :: "parser \<Rightarrow> bool" where
  "test_parse_mixed_content parse_program \<longleftrightarrow> module_ok (parse_source parse_program mixed_source) (\<lambda>m.
     length (tm_fixtures m) = 1 \<and> fd_name (tm_fixtures m ! 0) = ''db'' \<and> fd_scope (tm_fixtures m ! 0) = Module \<and>
     length (tm_tests m) = 3 \<and>
     (let test_names = map tc_name (tm_tests m) in
      List.member test_names ''test_with_db'' \<and> List.member test_names ''TestIntegration::test_in_class'' \<and>
      List.member test_names ''test_async_standalone''))"

definition bare_source :: string where
  "bare_source = py_lines [[], ''@fixture'', ''def bare_fixture():'', ''    return 1'']"

definition test_parse_bare_fixture_decorator :: "parser \<Rightarrow> bool" where
  "test_parse_bare_fixture_decorator parse_program \<longleftrightarrow> module_ok (parse_source parse_program bare_source) (\<lambda>m.
     length (tm_fixtures m) = 1 \<and> fd_name (tm_fixtures m ! 0) = ''bare_fixture'')"

section \<open>The parsing tests pass\<close>

definition line_in :: "string \<Rightarrow> nat \<Rightarrow> nat" where
  "line_in source off = length (filter (\<lambda>c. c = CHR 0x0A) (take off source)) + 1"

lemma get_line_number_ascii: "is_ascii source \<Longrightarrow> get_line_number source off = Some (line_in source off)"
  by (simp add: get_line_number_def str_slice_to_def is_ascii_boundary line_in_def min_def)

definition case_of :: "string \<Rightarrow> string option \<times> func_def \<times> bool \<Rightarrow> TestCase" where
  "case_of source = (\<lambda>(c, f, b).
     \<lparr>tc_name = qual_name c f, tc_dependencies = extract_args_from_arguments (fn_args f), tc_is_async = b,
      tc_line_number = line_in source (fn_start f),
      tc_parametrized_args = extract_injected_args (fn_decorators f) (extract_args_from_arguments (fn_args f))\<rparr>)"

lemma parse_source_ascii:
  assumes "is_ascii source" and "\<forall>f. parse_program source f = Some suite"
  shows "module_ok (parse_source parse_program source) check \<longleftrightarrow>
     check \<lparr>tm_path = path_of ''/tmp/source'',
       tm_tests = map (case_of source) (filter is_test_fn (concat (map offered suite))),
       tm_fixtures = fixtures_of (concat (map offered suite))\<rparr>"
proof -
  let ?fns = "concat (map offered suite)"
  have "tests_of source ?fns = Some (map (case_of source) (filter is_test_fn ?fns))"
    unfolding tests_of_def those_eq_Some
    by (auto simp: make_test_def get_line_number_ascii [OF assms(1)] case_of_def)
  then have "analyze_suite suite source ([], []) = Some (map (case_of source) (filter is_test_fn ?fns), fixtures_of ?fns)"
    by (simp add: analyze_suite_extend extend_found_def)
  moreover have "join [RootDir] (path_of ''/tmp/source'') = path_of ''/tmp/source''" by code_simp
  ultimately show ?thesis
    using assms(2) is_ascii_utf8 [OF assms(1)]
    by (simp add: module_ok_def parse_source_def parse_module_def read_to_string_def file_at_def)
qed

lemma sources_ascii:
  "is_ascii simple_source" "is_ascii async_source" "is_ascii deps_source" "is_ascii fixture_source" "is_ascii scopes_source"
  "is_ascii derived_source" "is_ascii class_source" "is_ascii async_class_source" "is_ascii helpers_source"
  "is_ascii other_class_source" "is_ascii self_source" "is_ascii mixed_source" "is_ascii bare_source" "is_ascii []"
  by (simp_all add: is_ascii_def py_lines_def simple_source_def async_source_def deps_source_def fixture_source_def scopes_source_def
      derived_source_def class_source_def async_class_source_def helpers_source_def other_class_source_def self_source_def
      mixed_source_def bare_source_def)

lemmas tree_defs = func_of_def pytest_fixture_def pytest_fixture_scope_def is_test_fn_def fixtures_of_def case_of_def qual_name_def
  has_fixture_decorator_def make_fixture_def extract_args_from_arguments_def extract_scope_from_decorators_def scope_of_str_def
  starts_with_def

lemma function_tests_pass:
  "\<forall>f. parse_program simple_source f = Some [FunctionDef (func_of ''test_simple'' [] [] k)] \<Longrightarrow>
     test_parse_simple_test_function parse_program"
  "\<forall>f. parse_program async_source f = Some [AsyncFunctionDef (func_of ''test_async'' [] [] k)] \<Longrightarrow>
     test_parse_async_test_function parse_program"
  "\<forall>f. parse_program deps_source f = Some [FunctionDef (func_of ''test_with_deps'' [''db'', ''cache'', ''client''] [] k)] \<Longrightarrow>
     test_parse_test_with_dependencies parse_program"
  "\<forall>f. parse_program helpers_source f = Some [FunctionDef (func_of ''helper_function'' [] [] i),
       FunctionDef (func_of ''setup_module'' [] [] j), FunctionDef (func_of ''teardown'' [] [] k)] \<Longrightarrow>
     test_parse_non_test_functions_ignored parse_program"
  "\<forall>f. parse_program [] f = Some [] \<Longrightarrow> test_parse_empty_file parse_program"
  by (simp_all add: test_parse_simple_test_function_def test_parse_async_test_function_def test_parse_test_with_dependencies_def
      test_parse_non_test_functions_ignored_def test_parse_empty_file_def parse_source_ascii sources_ascii tree_defs)

lemma fixture_tests_pass:
  "\<forall>f. parse_program fixture_source f = Some [SOther, FunctionDef (func_of ''my_fixture'' [] [pytest_fixture] k)] \<Longrightarrow>
     test_parse_fixture_simple parse_program"
  "\<forall>f. parse_program scopes_source f = Some [SOther, FunctionDef (func_of ''module_fixture'' [] [pytest_fixture_scope ''module''] i),
       FunctionDef (func_of ''session_fixture'' [] [pytest_fixture_scope ''session''] j),
       FunctionDef (func_of ''class_fixture'' [] [pytest_fixture_scope ''class''] k)] \<Longrightarrow>
     test_parse_fixture_with_scope parse_program"
  "\<forall>f. parse_program derived_source f = Some [SOther, FunctionDef (func_of ''derived_fixture'' [''base_fixture'', ''db''] [pytest_fixture] k)] \<Longrightarrow>
     test_parse_fixture_with_dependencies parse_program"
  "\<forall>f. parse_program bare_source f = Some [FunctionDef (func_of ''bare_fixture'' [] [Name ''fixture''] k)] \<Longrightarrow>
     test_parse_bare_fixture_decorator parse_program"
  by (simp_all add: test_parse_fixture_simple_def test_parse_fixture_with_scope_def test_parse_fixture_with_dependencies_def
      test_parse_bare_fixture_decorator_def parse_source_ascii sources_ascii tree_defs)

lemma class_tests_pass:
  "\<forall>f. parse_program class_source f = Some [ClassDef ''TestMyClass'' [FunctionDef (func_of ''test_method_one'' [''self''] [] i),
       FunctionDef (func_of ''test_method_two'' [''self'', ''db''] [] j), FunctionDef (func_of ''helper_not_a_test'' [''self''] [] k)]] \<Longrightarrow>
     test_parse_test_class parse_program"
  "\<forall>f. parse_program async_class_source f = Some [ClassDef ''TestAsync'' [AsyncFunctionDef (func_of ''test_async_method'' [''self'', ''client''] [] k)]] \<Longrightarrow>
     test_parse_async_test_in_class parse_program"
  "\<forall>f. parse_program other_class_source f = Some [ClassDef ''MyClass'' [FunctionDef (func_of ''test_looks_like_test'' [''self''] [] k)]] \<Longrightarrow>
     test_parse_non_test_class_ignored parse_program"
  "\<forall>f. parse_program self_source f = Some [ClassDef ''TestWithSelf'' [FunctionDef (func_of ''test_method'' [''self'', ''db'', ''cache''] [] j),
       FunctionDef (func_of ''test_classmethod'' [''cls'', ''db''] [Name ''classmethod''] k)]] \<Longrightarrow>
     test_parse_self_and_cls_excluded_from_deps parse_program"
  by (simp_all add: test_parse_test_class_def test_parse_async_test_in_class_def test_parse_non_test_class_ignored_def
      test_parse_self_and_cls_excluded_from_deps_def parse_source_ascii sources_ascii tree_defs)

lemma test_parse_mixed_content_passes:
  "\<forall>f. parse_program mixed_source f = Some [SOther, FunctionDef (func_of ''db'' [] [pytest_fixture_scope ''module''] h),
       FunctionDef (func_of ''test_with_db'' [''db''] [] i),
       ClassDef ''TestIntegration'' [FunctionDef (func_of ''test_in_class'' [''self'', ''db''] [] j)],
       AsyncFunctionDef (func_of ''test_async_standalone'' [] [] k)] \<Longrightarrow>
     test_parse_mixed_content parse_program"
  by (simp add: test_parse_mixed_content_def parse_source_ascii sources_ascii tree_defs)

section \<open>Directories\<close>

definition test_discover_empty_temp_directory ::
  "(path \<Rightarrow> (string, path) result list) \<Rightarrow> parser \<Rightarrow> path \<Rightarrow> bool" where
  "test_discover_empty_temp_directory walk parse_program root \<longleftrightarrow>
     (case discover walk parse_program \<lparr>w_cwd = [RootDir], w_files = []\<rparr> root of
        None \<Rightarrow> False | Some result \<Rightarrow> test_count result = 0 \<and> fixture_count result = 0)"

definition test_discover_ignores_non_test_files ::
  "(path \<Rightarrow> (string, path) result list) \<Rightarrow> parser \<Rightarrow> path \<Rightarrow> bool" where
  "test_discover_ignores_non_test_files walk parse_program root \<longleftrightarrow>
     (let w = \<lparr>w_cwd = [RootDir], w_files =
        [(join root (path_of ''utils.py''), ''def helper(): pass''), (join root (path_of ''main.py''), ''def main(): pass'')]\<rparr> in
      case discover walk parse_program w root of None \<Rightarrow> False | Some result \<Rightarrow> test_count result = 0)"

text \<open>Whatever the walk yields, as only the two files are regular ones.\<close>

lemma discover_nothing:
  assumes "\<And>p. \<not> is_test_file w p"
  shows "discover walk parse_program w root = Some \<lparr>dr_modules = []\<rparr>"
proof -
  have "test_paths walk w root = []" using assms by (simp add: test_paths_def)
  then show ?thesis by (simp add: discover_def)
qed

lemma test_discover_empty_temp_directory_passes: "test_discover_empty_temp_directory walk parse_program root"
  by (simp add: test_discover_empty_temp_directory_def discover_nothing is_test_file_def file_at_def test_count_def fixture_count_def)

lemma file_name_join: "file_name p = Some n \<Longrightarrow> file_name (join a p) = Some n"
  by (cases p rule: rev_cases) (auto simp: file_name_def join_def split: component.splits)

lemma test_discover_ignores_non_test_files_passes:
  "test_discover_ignores_non_test_files walk parse_program root"
proof -
  let ?w = "\<lparr>w_cwd = [RootDir], w_files =
    [(join root (path_of ''utils.py''), ''def helper(): pass''), (join root (path_of ''main.py''), ''def main(): pass'')]\<rparr>"
  have "\<not> is_test_file ?w p" for p
  proof
    assume t: "is_test_file ?w p"
    then obtain n where n: "file_name p = Some n" and named: "starts_with n ''test_'' \<or> ends_with n ''_test.py'' \<or> n = ''conftest.py''"
      by (auto simp: is_test_file_def extension_def bind_eq_Some_conv Let_def split: if_splits)
    have f: "file_name (path_of ''utils.py'') = Some ''utils.py''" "file_name (path_of ''main.py'') = Some ''main.py''" by code_simp+
    have "join [RootDir] p = join root (path_of ''utils.py'') \<or> join [RootDir] p = join root (path_of ''main.py'')"
      using t by (auto simp: is_test_file_def file_at_def split: if_splits)
    then have "n = ''utils.py'' \<or> n = ''main.py''"
      using file_name_join [OF n, of "[RootDir]"] file_name_join [OF f(1), of root] file_name_join [OF f(2), of root] by auto
    moreover have "\<not> (starts_with ''utils.py'' ''test_'' \<or> ends_with ''utils.py'' ''_test.py'')"
      "\<not> (starts_with ''main.py'' ''test_'' \<or> ends_with ''main.py'' ''_test.py'')" by code_simp+
    ultimately show False using named by auto
  qed
  then show ?thesis by (simp add: test_discover_ignores_non_test_files_def discover_nothing test_count_def Let_def)
qed

end
