(* ===== verification/Spec2Isabelle.thy ===== *)
theory Spec2Isabelle
  imports Prelude Rust_Str Rust_Path Sockets Discovery Resolver Protocol Logcapture Reporter Junit
    Scheduler Snapshot Loader Lifecycle Debugger Environment Isolation Zygote System Configuration Watch Session Text
    Conformance Conformance_Resolver Conformance_Snapshot Conformance_Loader Conformance_Discovery
begin

text \<open>
  \<^bold>\<open>Verification of the tach test runner\<close>

  tach runs Python tests. A supervisor discovers the tests of a project without importing it, resolves
  their fixtures, compiles the sources, and forks a zygote, a process with Python and pytest loaded.
  For each test it sends a command to the zygote, which forks a worker that runs the test in isolation
  and answers over a socket; the supervisor reports what comes back. Around this stand the capture of
  output in memory files, the snapshots that reset a worker, a terminal proxy for debugging, and the
  cleanup on every exit.

  \<^bold>\<open>Theories and sources\<close> (all files under \<^verbatim>\<open>src/src\<close>). Each theory has the data as records and
  datatypes with the names of the code, one definition for each function, then lemmas, then the
  properties with their witnesses.

  \<^item> \<open>Prelude\<close>, \<open>Rust_Str\<close>, \<open>Rust_Path\<close>, \<open>Sockets\<close>: what the code uses of the language and its library:
    machine words, \<^verbatim>\<open>Result\<close>, \<^verbatim>\<open>HashMap\<close> (the locale \<open>hash_map\<close>, interpreted on association lists), strings
    as UTF-8 bytes, paths as components, sockets as what was written and what will arrive; and the locales
    \<open>step_system\<close> and \<open>descending_system\<close>, the contract of the concurrent parts: steps that keep an invariant,
    and steps that also make a measure smaller.
  \<^item> \<open>Discovery\<close> (\<^verbatim>\<open>discovery.rs\<close>): tests and fixtures found in syntax trees; exactly the offered functions are
    found, injected arguments are characterised, discovery returns the modules of the walked files.
  \<^item> \<open>Resolver\<close> (\<^verbatim>\<open>resolver.rs\<close>): the scoped registry and the depth-first resolution; it succeeds exactly
    when the reachable fixtures are defined and acyclic, its result is complete, distinct and in
    dependency order, its errors are true, and the registry refines the scoping specification.
  \<^item> \<open>Protocol\<close> (\<^verbatim>\<open>protocol.rs\<close>): messages and frames; streams of frames (the locale \<open>framing\<close>) are read back,
    a cut frame is refused, and the bounds of lengths and messages.
  \<^item> \<open>Logcapture\<close> (\<^verbatim>\<open>logcapture.rs\<close>): the slots over a kernel with descriptors that share file positions; what
    a worker prints is what is read.
  \<^item> \<open>Reporter\<close>, \<open>Junit\<close> (\<^verbatim>\<open>reporter.rs\<close>, \<^verbatim>\<open>junit.rs\<close>): reporters as functions of events (the locale
    \<open>event_sink\<close>); the standard output carries only machine lines, and the report file has the cases of
    the run.
  \<^item> \<open>Scheduler\<close> (\<^verbatim>\<open>scheduler.rs\<close>): dispatch, waiting for a slot, collection and stale workers, and the second
    collector that nothing calls. The loops are partial functions in which \<^const>\<open>None\<close> is a run that does not end.
    Invariants of a run are instances of the locale \<open>test_invariant\<close>, which carries a property of the tests and
    of what arrives through the loops, or of its special case \<open>run_invariant\<close>, a sublocale for properties of the
    state alone. Completeness, counting, capacity, descriptors, and when a run returns or hangs.
  \<^item> \<open>Snapshot\<close> (\<^verbatim>\<open>snapshot.rs\<close>): memory maps, page capture, reset and page faults; a reset restores the
    captured memory.
  \<^item> \<open>Loader\<close> (\<^verbatim>\<open>loader.rs\<close>): cache, compilation, registry and loading; the registry serves the current code.
    The lookups that are made once are instances of the locale \<open>write_once\<close>.
  \<^item> \<open>Lifecycle\<close> (\<^verbatim>\<open>lifecycle.rs\<close>, \<^verbatim>\<open>signals.rs\<close>): the guard over all its histories, and the routing of signals.
  \<^item> \<open>Debugger\<close> (\<^verbatim>\<open>debugger.rs\<close>): terminal, sessions, and the two copying threads as a step relation.
  \<^item> \<open>Environment\<close>, \<open>Isolation\<close>, \<open>Zygote\<close> (\<^verbatim>\<open>environment.rs\<close>, \<^verbatim>\<open>isolation.rs\<close>, \<^verbatim>\<open>zygote.rs\<close>): the search for a virtual
    environment, the view of the file system a worker gets, the command loop, the worker and the way
    of its result.
  \<^item> \<open>System\<close> (\<^verbatim>\<open>scheduler.rs\<close> and \<^verbatim>\<open>zygote.rs\<close> together): supervisor, command loop, workers, the collecting thread of
    each worker and the forwarding thread as one step relation, made of the operations of the two theories
    before it (\<^verbatim>\<open>dispatch_test\<close> is cut where it blocks) and connected by sockets and the channel. In every
    interleaving in which nothing fails the run ends, with one report for each test, the answer of its worker, and the
    sequential run of the scheduler on the same answers reports the same; when workers die, what is reported is still
    right; with every failure and lateness the books still balance; and a fork that fails makes the supervisor wait forever.
    \<open>descending_system\<close> is interpreted on the relation with and without the death of workers, \<open>step_system\<close> on the two
    others and on the threads of the debugger.
  \<^item> \<open>Configuration\<close>, \<open>Watch\<close> (\<^verbatim>\<open>config.rs\<close>, \<^verbatim>\<open>watch.rs\<close>): the command line and the environment variables of the
    project file; the filter of file events and the loop over them, with one session for each batch of changes.
  \<^item> \<open>Session\<close> (\<^verbatim>\<open>main.rs\<close>): the whole program, from the parsed command line to its outcome: the modes, a session
    from discovery to cleanup with both branches of the fork, every early return and the drops it causes. A
    session starts the selected tests, releases its socket, directory and descriptors however it ends, and in
    the machine format prints the events of its run and nothing else.
  \<^item> \<open>Text\<close>: the type of the strings. A Rust string is valid UTF-8, which the type of byte strings here does not
    say; every string a run reports is UTF-8 when the names of the tests and the texts of the libraries are.
  \<^item> \<open>Conformance\<close>, \<open>Conformance_Resolver\<close>, \<open>Conformance_Snapshot\<close>, \<open>Conformance_Loader\<close>, \<open>Conformance_Discovery\<close>: the
    tests of the repository (the unit tests at the end of the source files and \<^verbatim>\<open>src/rust_tests\<close>) as definitions
    over the model, with lemmas that they pass. They check the model against the behaviour its authors wrote
    down. One integration test of the resolver does not pass, and the lemma says why.
  \<^item> This theory: the way of one test through supervisor, zygote and worker and back.

  \<^bold>\<open>Parameters.\<close> Code that is not part of the repository is an argument of the definitions that use it:
  the Python parser and the directory walk, the serializers (\<^verbatim>\<open>bincode\<close>, JSON, XML, TOML), running a
  program, the Python C interface and the harness, the outcomes of system calls. What a property needs of
  them is a hypothesis of the property, and its witness gives a concrete instance. Time is a function from
  the number of readings of the clock.

  \<^bold>\<open>Bounds and termination.\<close> No fuel is used. Structural recursion and recursion with a measure are
  total; the four loops that may run forever (waiting for a slot, collecting, the command loop and the
  session of the debugger) are partial functions or relations, and properties say when they end.
  The interleaved system has a measure: seven steps for each test (send, fork, confirm, run, pass on, forward, report)
  and two to stop; it bounds every execution. Test ids, lengths on the wire, status bytes and addresses are words of their width.

  \<^bold>\<open>Not modelled.\<close> The Python harness (\<^verbatim>\<open>tach_harness.py\<close>), which is not Rust and a parameter here; \<^verbatim>\<open>lib.rs\<close>, which
  only declares modules; the derived parser of the command line; progress messages on stderr other than the
  reporters'; the death signals of child processes. The parallel parsing of modules
  is a map over the files, since it shares nothing. In the interleaved system a frame is written at once, the deadline
  may pass at any moment of the last loop, and the log files of workers are not shared with the supervisor's. Registering functions with
  Python (\<^verbatim>\<open>inject_tach_rust_module\<close>) is one outcome of the zygote's start-up. Of the tests: those that start the
  built program, those on the files of the repository itself, those that only exercise a library or floating point,
  and \<^verbatim>\<open>cli_integration.rs\<close>, which no target builds.
\<close>

section \<open>A test travels and returns\<close>

lemma dispatch_ok:
  assumes "dispatch_test ser test test_id slot s = (Inr (), s')" and "ser (test_payload s test test_id slot) = Some b"
    and "s_wfail (sc_cmd_socket s) = []"
  shows "s_out (sc_cmd_socket s') = s_out (sc_cmd_socket s) @ CMD_FORK # frame b \<and>
     (\<exists>w. hm_get (sc_active_workers s') test_id = Some w \<and> aw_test_name w = rt_test_name test)"
  using assms
  by (auto simp: dispatch_test_def write_all_def instant_now_def frame_def Let_def hm_get_insert
      split: prod.splits option.splits)

lemma collected_report:
  assumes "hm_get (sc_active_workers s) (tr_test_id r) = Some w" and "length rb < 2 ^ 32" and "de rb = Some r"
  shows "fst (try_collect_result_for_reporter de (s\<lparr>sc_result_socket := map Byte (frame rb) @ rest\<rparr>)) =
     Some (format_result (aw_test_name w) r)"
  using assms read_frame_frame [OF assms(2), of rest]
  by (simp add: try_collect_result_for_reporter_def Let_def split: prod.split)

text \<open>C17: A dispatched test comes back as its own result. What the supervisor writes for a test makes
  the zygote fork exactly one worker, with the payload of that test; what the isolated worker answers
  passes the zygote's thread unchanged; and the supervisor reports it under the name of the test, with
  the status and message the harness gave.\<close>

theorem test_travels_and_returns:
  assumes dispatch: "dispatch_test ser test test_id slot s = (Inr (), s')" and sock: "s_wfail (sc_cmd_socket s) = []"
    and p: "p = test_payload s test test_id slot" "ser p = Some b" "length b < 2 ^ 32" "de b = Some p"
    and z: "map Byte (s_out (sc_cmd_socket s')) = map Byte (s_out (sc_cmd_socket s)) @ fork_cmd"
      "s_in (zy_cmd z) = fork_cmd @ Byte CMD_EXIT # i" "s_wfail (zy_cmd z) = []"
    and kern: "\<forall>n. kern n = (True, Some (pid n))"
    and iso: "isolate test_id"
    and r: "worker_outcome isolate hygiene run_test n p k = Some r" "serr r = Some rb" "length rb < 2 ^ 32" "der rb = Some r"
  shows "(\<exists>z'. command_loop de kern z = Some (Inr z') \<and> zy_workers z' = zy_workers z @ [(pid (zy_requests z), p)]) \<and>
     (\<exists>bytes. collect_worker (map Byte (fst (snd (worker_process isolate hygiene run_test serr n p k)))) = Some bytes \<and>
        fst (try_collect_result_for_reporter der (s'\<lparr>sc_result_socket := map Byte bytes @ rest\<rparr>)) =
          Some (format_result (rt_test_name test) r))"
proof -
  obtain w where out: "s_out (sc_cmd_socket s') = s_out (sc_cmd_socket s) @ CMD_FORK # frame b"
      and w: "hm_get (sc_active_workers s') test_id = Some w" "aw_test_name w = rt_test_name test"
    using dispatch_ok [OF dispatch] p(1,2) sock by auto
  have "fork_cmd = fork_commands [b]" using z(1) out by (simp add: fork_commands_def enc_frame_def)
  with z have zin: "s_in (zy_cmd z) = fork_commands [b] @ Byte CMD_EXIT # i" by simp
  have "list_all2 (\<lambda>buf p. length buf < 2 ^ 32 \<and> de buf = Some p) [b] [p]" using p by simp
  from command_loop_forks [OF this kern z(3) zin] obtain z' where z': "command_loop de kern z = Some (Inr z')"
      "zy_workers z' = zy_workers z @ [(pid (zy_requests z), p)]"
    by auto
  have c: "collect_worker (map Byte (fst (snd (worker_process isolate hygiene run_test serr n p k)))) = Some (frame rb)"
    using collect_worker_out [of isolate hygiene run_test n p k serr] r by simp
  have "tr_test_id r = test_id"
    using r(1) iso p(1) run_worker_id by (auto simp: worker_outcome_def test_payload_def)
  with collected_report [of s' r w rb der rest] w r have
    "fst (try_collect_result_for_reporter der (s'\<lparr>sc_result_socket := map Byte (frame rb) @ rest\<rparr>)) =
       Some (format_result (rt_test_name test) r)" by simp
  with z' c show ?thesis by simp
qed

theorem test_travels_and_returns_witness:
  "\<exists>s' z'. dispatch_test (\<lambda>_. Some [5]) (ex_test ''a'') 0 0 ex_sched = (Inr (), s') \<and>
     command_loop (\<lambda>_. Some (test_payload ex_sched (ex_test ''a'') 0 0)) (\<lambda>n. (True, Some 100))
       \<lparr>zy_cmd = \<lparr>s_out = [], s_wfail = [], s_in = fork_commands [[5]] @ [Byte CMD_EXIT]\<rparr>, zy_buf = 0, zy_requests = 0, zy_workers = []\<rparr>
       = Some (Inr z') \<and> zy_workers z' = [(100, test_payload ex_sched (ex_test ''a'') 0 0)]"
proof -
  let ?p = "test_payload ex_sched (ex_test ''a'') 0 0"
  have cmd: "sc_cmd_socket ex_sched = ex_cmd" by (simp add: ex_sched_def new_scheduler_def)
  have "read_exact 4 (map Byte (replicate 12 0)) = (Some (replicate 4 0), map Byte (replicate 8 0))"
    using read_exact_take [of 4 "replicate 12 0" "[]"] by simp
  then obtain s' where d: "dispatch_test (\<lambda>_. Some [5]) (ex_test ''a'') 0 0 ex_sched = (Inr (), s')"
    by (simp add: dispatch_test_def cmd ex_cmd_def write_all_def instant_now_def Let_def split: prod.split)
  have out: "map Byte (s_out (sc_cmd_socket s')) = map Byte (s_out (sc_cmd_socket ex_sched)) @ fork_commands [[5]]"
    using dispatch_ok [OF d refl] by (simp add: cmd ex_cmd_def fork_commands_def enc_frame_def)
  obtain r where r: "worker_outcome (\<lambda>_. True) (\<lambda>_. id) ex_harness 9 ?p ex_os = Some r"
    by (simp add: worker_outcome_def)
  from test_travels_and_returns [OF d _ refl refl, where de = "\<lambda>_. Some ?p" and isolate = "\<lambda>_. True" and hygiene = "\<lambda>_. id"
      and pid = "\<lambda>_. 100" and kern = "\<lambda>n. (True, Some 100)" and i = "[]" and fork_cmd = "fork_commands [[5]]"
      and z = "\<lparr>zy_cmd = \<lparr>s_out = [], s_wfail = [], s_in = fork_commands [[5]] @ [Byte CMD_EXIT]\<rparr>, zy_buf = 0, zy_requests = 0, zy_workers = []\<rparr>",
      OF _ _ refl out _ _ _ _ r, where serr = "\<lambda>_. Some [8]" and der = "\<lambda>_. Some r" and rb = "[8]"] d
  show ?thesis by (simp add: cmd ex_cmd_def)
qed

end
